(* ===== verification/Memora_Prelude.thy ===== *)
theory Memora_Prelude
  imports Complex_Main "HOL-Library.List_Lexorder" "HOL-Library.Char_ord"
    "HOL-Library.Product_Lexorder"
begin

text \<open>
  Shared ground of the development: Python strings and their \<open>strip\<close>, error values,
  Python's first-minimum selection, and the table primitives every SQL statement of the
  summary store is written with (\<open>UPDATE ... WHERE\<close>, its row count, \<open>SELECT 1 ... LIMIT 1\<close>,
  \<open>SELECT COUNT(*)\<close>), with the lemmas about them that the components share.

  Strings are \<open>char list\<close>s read as code points below 256 (Latin-1), so \<open>length\<close> counts what
  Python's \<open>len\<close> counts on that range. Times are reals: the code only compares them and adds
  whole seconds to them.
\<close>

named_theorems table_simps \<open>facts about the table primitives\<close>

section \<open>Errors as values\<close>

datatype py_error =
    ValueError string
  | TypeError string
  | RuntimeError string
  | KeyError

type_synonym 'a result = "py_error + 'a"

definition bind_result :: "'a result \<Rightarrow> ('a \<Rightarrow> 'b result) \<Rightarrow> 'b result" where
  "bind_result r f = (case r of Inl e \<Rightarrow> Inl e | Inr a \<Rightarrow> f a)"

lemma bind_result_simps [simp]:
  "bind_result (Inl e) f = Inl e"
  "bind_result (Inr a) f = f a"
  by (simp_all add: bind_result_def)

lemma bind_result_Inr: "bind_result r f = Inr b \<longleftrightarrow> (\<exists>a. r = Inr a \<and> f a = Inr b)"
  by (cases r) auto

definition guard_result :: "bool \<Rightarrow> py_error \<Rightarrow> unit result" where
  "guard_result ok e = (if ok then Inr () else Inl e)"

lemma guard_result_Inr [simp]: "guard_result ok e = Inr u \<longleftrightarrow> ok"
  by (simp add: guard_result_def)

section \<open>Python strings\<close>

text \<open>\<open>str.isspace\<close> on the first 256 code points, which is what \<open>str.strip()\<close> removes.\<close>

definition py_space :: "char \<Rightarrow> bool" where
  "py_space c = (of_char c \<in> {9, 10, 11, 12, 13, 28, 29, 30, 31, 32, 133, 160 :: nat})"

definition strip_of :: "('a \<Rightarrow> bool) \<Rightarrow> 'a list \<Rightarrow> 'a list" where
  "strip_of p xs = rev (dropWhile p (rev (dropWhile p xs)))"

definition py_strip :: "string \<Rightarrow> string" where
  "py_strip = strip_of py_space"

lemma last_dropWhile: "dropWhile p xs \<noteq> [] \<Longrightarrow> last (dropWhile p xs) = last xs"
proof (induction xs)
  case (Cons x xs)
  then show ?case by (cases "xs = []") (auto split: if_splits)
qed simp

lemma strip_of_idem [simp]: "strip_of p (strip_of p xs) = strip_of p xs"
proof -
  let ?a = "dropWhile p xs"
  let ?b = "rev (dropWhile p (rev ?a))"
  have hd: "?b = [] \<or> \<not> p (hd ?b)"
  proof (cases "?b = []")
    case False
    then have "hd ?b = hd ?a"
      using last_dropWhile [of p "rev ?a"] by (simp add: hd_rev last_rev)
    moreover have "?a \<noteq> []" using False by (metis dropWhile.simps(1) rev.simps(1))
    then have "\<not> p (hd ?a)" by (rule hd_dropWhile)
    ultimately show ?thesis by simp
  qed simp
  then have "dropWhile p ?b = ?b" by (simp add: dropWhile_eq_self_iff)
  then show ?thesis
    by (simp add: strip_of_def dropWhile_idem)
qed

lemma length_strip_of_le: "length (strip_of p xs) \<le> length xs"
proof -
  have "length (dropWhile p (rev (dropWhile p xs))) \<le> length (dropWhile p xs)"
    using length_dropWhile_le [of p "rev (dropWhile p xs)"] by simp
  also have "\<dots> \<le> length xs" by (rule length_dropWhile_le)
  finally show ?thesis by (simp add: strip_of_def)
qed

lemma py_strip_idem [simp]: "py_strip (py_strip s) = py_strip s"
  by (simp add: py_strip_def)

lemma length_py_strip_le: "length (py_strip s) \<le> length s"
  by (simp add: py_strip_def length_strip_of_le)

lemma strip_of_Nil [simp]: "strip_of p [] = []"
  by (simp add: strip_of_def)

lemma py_strip_Nil [simp]: "py_strip [] = []"
  by (simp add: py_strip_def)

text \<open>Decimal text of a Python integer, as in an f-string.\<close>

fun show_nat :: "nat \<Rightarrow> string" where
  "show_nat n = (if n < 10 then [char_of (48 + n)] else show_nat (n div 10) @ [char_of (48 + n mod 10)])"

declare show_nat.simps [simp del]

definition show_int :: "int \<Rightarrow> string" where
  "show_int i = (if i < 0 then CHR ''-'' # show_nat (nat (- i)) else show_nat (nat i))"

section \<open>Optional values\<close>

text \<open>SQL's \<open>COALESCE(x, d)\<close> and Python's \<open>x or d\<close> on an optional value.\<close>

definition coalesce :: "'a \<Rightarrow> 'a option \<Rightarrow> 'a" where
  "coalesce d x = (case x of None \<Rightarrow> d | Some y \<Rightarrow> y)"

lemma coalesce_simps [simp]: "coalesce d None = d" "coalesce d (Some y) = y"
  by (simp_all add: coalesce_def)

text \<open>A string column read with \<open>value or None\<close>: the empty string becomes NULL.\<close>

definition none_if_empty :: "string \<Rightarrow> string option" where
  "none_if_empty s = (if s = [] then None else Some s)"

lemma coalesce_none_if_empty [simp]: "coalesce [] (none_if_empty s) = s"
  by (simp add: none_if_empty_def)

section \<open>First minimum\<close>

text \<open>Python's \<open>min(xs, key=f)\<close>: the first element that attains the least key.\<close>

fun min_by :: "('a \<Rightarrow> 'k :: linorder) \<Rightarrow> 'a \<Rightarrow> 'a list \<Rightarrow> 'a" where
  "min_by f a [] = a"
| "min_by f a (x # xs) = min_by f (if f x < f a then x else a) xs"

lemma min_by_in: "min_by f a xs \<in> insert a (set xs)"
  by (induction xs arbitrary: a) (auto split: if_splits)

lemma min_by_le: "f (min_by f a xs) \<le> f a \<and> (\<forall>x \<in> set xs. f (min_by f a xs) \<le> f x)"
proof (induction xs arbitrary: a)
  case Nil
  then show ?case by simp
next
  case (Cons x xs)
  let ?b = "if f x < f a then x else a"
  from Cons.IH [of ?b] have "f (min_by f ?b xs) \<le> f ?b" by blast
  moreover have "f ?b \<le> f a" "f ?b \<le> f x" by auto
  ultimately show ?case using Cons.IH [of ?b] by (auto intro: order_trans)
qed

section \<open>Tables\<close>

text \<open>
  A table is the list of its rows in rowid order. \<open>UPDATE t SET f WHERE p\<close> rewrites the rows that
  satisfy \<open>p\<close>; \<open>cursor.rowcount\<close> is how many did.
\<close>

definition update_where :: "('a \<Rightarrow> bool) \<Rightarrow> ('a \<Rightarrow> 'a) \<Rightarrow> 'a list \<Rightarrow> 'a list" where
  "update_where p f = map (\<lambda>r. if p r then f r else r)"

definition rowcount :: "('a \<Rightarrow> bool) \<Rightarrow> 'a list \<Rightarrow> int" where
  "rowcount p rs = int (length (filter p rs))"

text \<open>\<open>SELECT * FROM t WHERE key = k\<close> with \<open>fetchone\<close>: the first matching row.\<close>

definition fetch_one :: "('a \<Rightarrow> bool) \<Rightarrow> 'a list \<Rightarrow> 'a option" where
  "fetch_one p rs = List.find p rs"

text \<open>The first row of an ordered result (\<open>ORDER BY ... LIMIT 1\<close>).\<close>

definition first_row :: "'a list \<Rightarrow> 'a option" where
  "first_row rs = (case rs of [] \<Rightarrow> None | r # _ \<Rightarrow> Some r)"

lemma first_row_simps [simp]:
  "first_row [] = None"
  "first_row (r # rs) = Some r"
  by (simp_all add: first_row_def)

lemma first_row_None [simp]: "first_row rs = None \<longleftrightarrow> rs = []"
  by (cases rs) simp_all

lemma first_row_in: "first_row rs = Some r \<Longrightarrow> r \<in> set rs"
  by (cases rs) simp_all

lemma first_row_sort_key:
  assumes "first_row (sort_key f rs) = Some r"
  shows "r \<in> set rs" and "\<forall>x \<in> set rs. f r \<le> f x"
proof -
  from assms obtain ys where ys: "sort_key f rs = r # ys" by (cases "sort_key f rs") auto
  have "set (sort_key f rs) = set rs" by (rule set_sort)
  with ys show "r \<in> set rs" by (metis list.set_intros(1))
  have "sorted (map f (sort_key f rs))" by (rule sorted_sort_key)
  with ys have "\<forall>x \<in> set (r # ys). f r \<le> f x" by auto
  with ys show "\<forall>x \<in> set rs. f r \<le> f x" by (metis set_sort)
qed

lemma first_row_sort_None [simp]: "first_row (sort_key f rs) = None \<longleftrightarrow> rs = []"
  by (metis first_row_None length_0_conv length_sort)

lemma update_where_Nil [simp]: "update_where p f [] = []"
  by (simp add: update_where_def)

lemma update_where_Cons [simp]:
  "update_where p f (r # rs) = (if p r then f r else r) # update_where p f rs"
  by (simp add: update_where_def)

lemma length_update_where [simp]: "length (update_where p f rs) = length rs"
  by (simp add: update_where_def)

lemma set_update_where:
  "set (update_where p f rs) = f ` {r \<in> set rs. p r} \<union> {r \<in> set rs. \<not> p r}"
  by (auto simp: update_where_def)

lemma update_where_memE:
  assumes "r \<in> set (update_where p f rs)"
  obtains r0 where "r0 \<in> set rs" "p r0" "r = f r0" | "r \<in> set rs" "\<not> p r"
  using assms by (auto simp: set_update_where)

lemma map_update_where_frame [table_simps]:
  "(\<And>r. g (f r) = g r) \<Longrightarrow> map g (update_where p f rs) = map g rs"
  by (simp add: update_where_def)

lemma filter_update_where_frame [table_simps]:
  "(\<And>r. q (f r) = q r) \<Longrightarrow> filter q (update_where p f rs) = update_where p f (filter q rs)"
  by (induction rs) auto

lemma rowcount_nonneg [simp]: "0 \<le> rowcount p rs"
  by (simp add: rowcount_def)

lemma rowcount_simps [simp]:
  "rowcount p [] = 0"
  "rowcount p (r # rs) = (if p r then 1 else 0) + rowcount p rs"
  by (simp_all add: rowcount_def)

lemma rowcount_zero [table_simps]: "rowcount p rs = 0 \<longleftrightarrow> (\<forall>r \<in> set rs. \<not> p r)"
  by (simp add: rowcount_def filter_empty_conv)

lemma update_where_none: "rowcount p rs = 0 \<Longrightarrow> update_where p f rs = rs"
  by (auto simp: rowcount_zero update_where_def intro: map_idI)

lemma rowcount_distinct_le_one:
  assumes "distinct (map key rs)" and "\<And>r. p r \<Longrightarrow> key r = k"
  shows "rowcount p rs \<le> 1"
  using assms
proof (induction rs)
  case Nil
  then show ?case by simp
next
  case (Cons r rs)
  show ?case
  proof (cases "p r")
    case True
    have "\<forall>x \<in> set rs. \<not> p x"
    proof
      fix x assume "x \<in> set rs"
      then have "key x \<noteq> key r" using Cons.prems(1) by (metis distinct.simps(2) image_eqI list.simps(9) list.set_map)
      moreover have "p x \<Longrightarrow> key x = key r" using Cons.prems(2) True by simp
      ultimately show "\<not> p x" by blast
    qed
    then have "rowcount p rs = 0" by (simp add: rowcount_zero)
    with True show ?thesis by simp
  next
    case False
    with Cons show ?thesis by simp
  qed
qed

lemma fetch_one_Some_iff:
  "fetch_one p rs = Some r \<Longrightarrow> r \<in> set rs \<and> p r"
  by (auto simp: fetch_one_def find_Some_iff)

lemma fetch_one_None_iff [table_simps]: "fetch_one p rs = None \<longleftrightarrow> (\<forall>r \<in> set rs. \<not> p r)"
  by (auto simp: fetch_one_def find_None_iff)

lemma fetch_one_key:
  assumes "distinct (map key rs)" "r \<in> set rs"
  shows "fetch_one (\<lambda>x. key x = key r) rs = Some r"
  using assms by (induction rs) (auto simp: fetch_one_def)

lemma list_ex_rowcount: "list_ex p rs \<longleftrightarrow> 0 < rowcount p rs"
  by (simp add: list_ex_iff rowcount_def length_greater_0_conv filter_empty_conv)

text \<open>A table with a primary key.\<close>

lemma key_unique:
  "distinct (map key rs) \<Longrightarrow> r \<in> set rs \<Longrightarrow> x \<in> set rs \<Longrightarrow> key x = key r \<Longrightarrow> x = r"
  by (auto simp: distinct_map dest: inj_onD)

lemma rowcount_cong: "(\<And>r. r \<in> set rs \<Longrightarrow> p r = q r) \<Longrightarrow> rowcount p rs = rowcount q rs"
  unfolding rowcount_def by (metis filter_cong)

lemma update_where_cong:
  "(\<And>r. r \<in> set rs \<Longrightarrow> p r = q r) \<Longrightarrow> (\<And>r. r \<in> set rs \<Longrightarrow> q r \<Longrightarrow> f r = g r) \<Longrightarrow>
     update_where p f rs = update_where q g rs"
  by (auto simp: update_where_def)

lemma key_fresh: "distinct (map key (r # rs)) \<Longrightarrow> x \<in> set rs \<Longrightarrow> key x \<noteq> key r"
  by (metis distinct.simps(2) image_eqI list.simps(9) list.set_map)

lemma rowcount_key:
  assumes "distinct (map key rs)" "r \<in> set rs"
  shows "rowcount (\<lambda>x. key x = key r) rs = 1"
  using assms
proof (induction rs)
  case (Cons x rs)
  show ?case
  proof (cases "x = r")
    case True
    then have "rowcount (\<lambda>y. key y = key r) rs = 0"
      using key_fresh [OF Cons.prems(1)] by (simp add: rowcount_zero)
    with True show ?thesis by simp
  next
    case False
    with Cons show ?thesis by force
  qed
qed simp

lemma rowcount_one:
  assumes "distinct (map key rs)" "r \<in> set rs" "p r" "\<And>x. p x \<Longrightarrow> key x = key r"
  shows "rowcount p rs = 1"
proof -
  have "rowcount p rs = rowcount (\<lambda>x. key x = key r) rs"
  proof (rule rowcount_cong)
    fix x assume x: "x \<in> set rs"
    show "p x = (key x = key r)"
      by (metis assms(3,4) key_unique [OF assms(1,2) x])
  qed
  with rowcount_key [OF assms(1,2)] show ?thesis by simp
qed

lemma rowcount_positive: "r \<in> set rs \<Longrightarrow> p r \<Longrightarrow> 0 < rowcount p rs"
  by (simp add: rowcount_def length_greater_0_conv) (metis filter_empty_conv)

lemma rowcount_mono: "(\<And>r. r \<in> set rs \<Longrightarrow> p r \<Longrightarrow> q r) \<Longrightarrow> rowcount p rs \<le> rowcount q rs"
  by (induction rs) auto

text \<open>Rewriting the one row with a given key.\<close>

lemma rowcount_update_key:
  assumes "distinct (map key rs)" "r \<in> set rs" "key (f r) = key r"
  shows "rowcount q (update_where (\<lambda>x. key x = key r) f rs) =
    rowcount q rs + (if q (f r) then 1 else 0) - (if q r then 1 else 0)"
  using assms(1,2)
proof (induction rs)
  case (Cons x rs)
  show ?case
  proof (cases "x = r")
    case True
    then have "\<forall>y \<in> set rs. key y \<noteq> key r" using key_fresh [OF Cons.prems(1)] by simp
    then have "update_where (\<lambda>x. key x = key r) f rs = rs"
      by (simp add: rowcount_zero update_where_none)
    with True show ?thesis by simp
  next
    case False
    with Cons show ?thesis by auto
  qed
qed simp

lemma mem_update_key:
  assumes "distinct (map key rs)" "r \<in> set rs"
  shows "x \<in> set (update_where (\<lambda>x. key x = key r) f rs) \<longleftrightarrow>
    x = f r \<or> (x \<in> set rs \<and> key x \<noteq> key r)"
  using assms key_unique [OF assms] by (auto simp: set_update_where)

end
