(* ===== verification/Summary_Models.thy ===== *)
theory Summary_Models
  imports Memora_Prelude
begin

text \<open>
  The immutable value objects of the summary pipeline
  (\<open>core/features/reflection/domain/summary_models.py\<close> and the field validators of
  \<open>topic_candidate_models.py\<close>): the closed enumerations, the constructors that normalise and
  validate a window context, a job, a candidate intent, a window outcome and a failure, and the
  bounded exponential back-off. A constructor that raises is a value \<open>Inl e\<close>; the payload of
  \<open>ValueError\<close> and \<open>TypeError\<close> is the field the code names in its message.
\<close>

section \<open>Closed enumerations\<close>

datatype job_status =
    Queued | Running | Failed | Completed | Blocked | Unknown | Cancelled | Abandoned

datatype disposition =
    Quarantined | Discard | MarkWrite | Canonical | Merged | SkippedIdempotent | DFailed

datatype ledger_status = Planned | Writing | Committed | LFailed | LUnknown

datatype reason =
    RAccepted | RQueued | RDuplicate | RNoWindow | RBlocked | RUnknown | RCancelled
  | RStoreUnavailable | RMigrationFailed | RSourceIncomplete | RSourceDigestMismatch
  | RClaimLost | REpochFenced | RGenerationFenced | RLeaseExpired | RRetryScheduled
  | RRetryExhausted | RInvalidAction | RInvalidSlot | RLedgerUnresolved | RTrimBlocked
  | RLegacyPending | RLegacyPendingInvalid | RAbandonedConfirmed | RNoFacts
  | RSummaryInvalid | RScopeUnavailable | RTopicLabelRejected | RCompleted

definition reason_table :: "(string \<times> reason) list" where
  "reason_table =
    [(''accepted'', RAccepted), (''queued'', RQueued), (''duplicate'', RDuplicate),
     (''no_window'', RNoWindow), (''blocked'', RBlocked), (''unknown'', RUnknown),
     (''cancelled'', RCancelled), (''store_unavailable'', RStoreUnavailable),
     (''migration_failed'', RMigrationFailed), (''source_incomplete'', RSourceIncomplete),
     (''source_digest_mismatch'', RSourceDigestMismatch), (''claim_lost'', RClaimLost),
     (''epoch_fenced'', REpochFenced), (''generation_fenced'', RGenerationFenced),
     (''lease_expired'', RLeaseExpired), (''retry_scheduled'', RRetryScheduled),
     (''retry_exhausted'', RRetryExhausted), (''invalid_action'', RInvalidAction),
     (''invalid_slot'', RInvalidSlot), (''ledger_unresolved'', RLedgerUnresolved),
     (''trim_blocked'', RTrimBlocked), (''legacy_pending'', RLegacyPending),
     (''legacy_pending_invalid'', RLegacyPendingInvalid),
     (''abandoned_confirmed'', RAbandonedConfirmed), (''no_facts'', RNoFacts),
     (''summary_invalid'', RSummaryInvalid), (''scope_unavailable'', RScopeUnavailable),
     (''topic_label_rejected'', RTopicLabelRejected), (''completed'', RCompleted)]"

text \<open>\<open>_reason(value)\<close>: an unknown text becomes \<open>UNKNOWN\<close>.\<close>

definition reason_of_text :: "string \<Rightarrow> reason" where
  "reason_of_text s = (case map_of reason_table s of None \<Rightarrow> RUnknown | Some r \<Rightarrow> r)"

definition safe_exception_types :: "string list" where
  "safe_exception_types =
    [''unknown'', ''CancelledError'', ''TypeError'', ''ValueError'', ''KeyError'',
     ''RuntimeError'', ''LookupError'', ''OSError'', ''TimeoutError'', ''OperationalError'',
     ''IntegrityError'', ''JSONDecodeError'', ''SummaryParseError'', ''MissingSnapshot'',
     ''IncompleteSnapshot'', ''SnapshotRevisionMismatch'', ''SnapshotUnrecoverable'',
     ''SnapshotAdapterUnavailable'']"

definition normalize_exception_type :: "string option \<Rightarrow> string option" where
  "normalize_exception_type v = (case v of None \<Rightarrow> None
     | Some s \<Rightarrow> (let n = py_strip s in
         if n = [] then None
         else if n \<in> set safe_exception_types then Some n else Some ''unknown''))"

definition failure_reason_codes :: "reason list" where
  "failure_reason_codes =
    [RBlocked, RCancelled, RUnknown, RStoreUnavailable, RMigrationFailed, RSourceIncomplete,
     RSourceDigestMismatch, RClaimLost, REpochFenced, RGenerationFenced, RLeaseExpired,
     RRetryScheduled, RRetryExhausted, RInvalidAction, RInvalidSlot, RLedgerUnresolved,
     RSummaryInvalid, RScopeUnavailable]"

section \<open>What the host supplies\<close>

text \<open>
  The standard-library functions the store calls on opaque text: \<open>json.loads\<close> (only whether a text
  decodes, and whether to an object), the SHA-256 of a list of encoded messages, and HMAC-SHA256.
\<close>

datatype json_kind = JObject | JOther

section \<open>Field validators\<close>

definition max_text_length :: nat where "max_text_length = 256"

definition text_field :: "string \<Rightarrow> bool \<Rightarrow> string option \<Rightarrow> string option result" where
  "text_field name opt value = (case value of
      None \<Rightarrow> if opt then Inr None else Inl (TypeError name)
    | Some v \<Rightarrow> (let s = py_strip v in
        if max_text_length < length s then Inl (ValueError name)
        else if s = [] \<and> opt then Inr None
        else if s = [] then Inl (ValueError name)
        else Inr (Some s)))"

text \<open>\<open>_text(value, name) or ""\<close> and the mandatory \<open>_text(value, name, optional=False)\<close>.\<close>

definition text_or_empty :: "string \<Rightarrow> string option \<Rightarrow> string result" where
  "text_or_empty name value = bind_result (text_field name True value) (\<lambda>t. Inr (coalesce [] t))"

definition text_required :: "string \<Rightarrow> string \<Rightarrow> string result" where
  "text_required name value =
     bind_result (text_field name False (Some value)) (\<lambda>t. Inr (coalesce [] t))"

definition nonnegative_int :: "string \<Rightarrow> bool \<Rightarrow> int \<Rightarrow> int result" where
  "nonnegative_int name positive v =
     (if v < 0 \<or> (positive \<and> v = 0) then Inl (ValueError name) else Inr v)"

definition nonnegative_number :: "string \<Rightarrow> real \<Rightarrow> real result" where
  "nonnegative_number name v = (if v < 0 then Inl (ValueError name) else Inr v)"

lemma text_required_Inr:
  "text_required name v = Inr s \<longleftrightarrow>
     s = py_strip v \<and> s \<noteq> [] \<and> length s \<le> max_text_length"
  by (auto simp: text_required_def text_field_def bind_result_Inr Let_def split: if_splits)

lemma text_or_empty_Inr:
  "text_or_empty name v = Inr s \<longleftrightarrow>
     s = py_strip (coalesce [] v) \<and> length s \<le> max_text_length"
  by (auto simp: text_or_empty_def text_field_def bind_result_Inr Let_def
      split: if_splits option.splits)

lemma text_field_optional_Inr:
  "text_field name True v = Inr t \<longleftrightarrow>
     t = none_if_empty (py_strip (coalesce [] v)) \<and>
     length (py_strip (coalesce [] v)) \<le> max_text_length"
  by (auto simp: text_field_def none_if_empty_def Let_def split: if_splits option.splits)

lemma nonnegative_int_Inr [simp]:
  "nonnegative_int name positive v = Inr w \<longleftrightarrow> w = v \<and> 0 \<le> v \<and> (positive \<longrightarrow> 0 < v)"
  by (auto simp: nonnegative_int_def)

lemma nonnegative_number_Inr [simp]: "nonnegative_number name v = Inr w \<longleftrightarrow> w = v \<and> 0 \<le> v"
  by (auto simp: nonnegative_number_def)

definition utf8_length :: "string \<Rightarrow> nat" where
  "utf8_length s = sum_list (map (\<lambda>c. if of_char c < (128 :: nat) then 1 else 2) s)"

definition max_gate_json_bytes :: nat where "max_gate_json_bytes = 65536"

definition bounded_json_object :: "(string \<Rightarrow> json_kind option) \<Rightarrow> string \<Rightarrow> string \<Rightarrow> string result"
where
  "bounded_json_object json value name =
     (if max_gate_json_bytes < utf8_length value then Inl (ValueError name)
      else case json value of
             None \<Rightarrow> Inl (ValueError name)
           | Some JOther \<Rightarrow> Inl (ValueError name)
           | Some JObject \<Rightarrow> Inr value)"

lemma bounded_json_object_Inr:
  "bounded_json_object json value name = Inr v \<longleftrightarrow>
     v = value \<and> utf8_length value \<le> max_gate_json_bytes \<and> json value = Some JObject"
  by (auto simp: bounded_json_object_def split: option.splits json_kind.splits)

section \<open>Scope snapshots\<close>

text \<open>
  The scope block that \<open>SummaryWindowContext.__post_init__\<close> and \<open>SummaryJob.__post_init__\<close> share:
  a partial snapshot is refused, an unknown reason text degrades to \<open>scope_unavailable\<close>, and the
  provenance marker is three-valued (\<open>True\<close> only for a complete snapshot).
\<close>

record scope_values =
  sv_scope_key :: string
  sv_privacy_level :: "string option"
  sv_resolver_revision :: string
  sv_reason :: string
  sv_marker :: "bool option"

definition privacy_levels :: "string list" where
  "privacy_levels = [''public'', ''shared'', ''confidential'']"

definition scope_any :: "string \<Rightarrow> string option \<Rightarrow> string \<Rightarrow> bool" where
  "scope_any key priv rv \<longleftrightarrow> key \<noteq> [] \<or> coalesce [] priv \<noteq> [] \<or> rv \<noteq> []"

definition scope_all :: "string \<Rightarrow> string option \<Rightarrow> string \<Rightarrow> bool" where
  "scope_all key priv rv \<longleftrightarrow> key \<noteq> [] \<and> coalesce [] priv \<noteq> [] \<and> rv \<noteq> []"

definition scope_marker ::
  "string option \<Rightarrow> string \<Rightarrow> string option \<Rightarrow> string \<Rightarrow> string \<Rightarrow> bool option \<Rightarrow> scope_values" where
  "scope_marker chat key priv rv reason_text marker =
     (let r = (if reason_text \<in> {''scope_resolved'', ''scope_unavailable''}
               then reason_text else ''scope_unavailable'')
      in if marker = Some False then
           \<lparr>sv_scope_key = key, sv_privacy_level = priv, sv_resolver_revision = rv,
            sv_reason = ''scope_unavailable'', sv_marker = Some False\<rparr>
         else if scope_all key priv rv \<and> chat \<noteq> None then
           \<lparr>sv_scope_key = key, sv_privacy_level = priv, sv_resolver_revision = rv,
            sv_reason = r, sv_marker = Some True\<rparr>
         else
           \<lparr>sv_scope_key = key, sv_privacy_level = priv, sv_resolver_revision = rv,
            sv_reason = ''scope_unavailable'', sv_marker = None\<rparr>)"

definition scope_is_available :: "string option \<Rightarrow> scope_values \<Rightarrow> bool" where
  "scope_is_available chat sv \<longleftrightarrow>
     sv_marker sv = Some True \<and> sv_scope_key sv \<noteq> [] \<and> coalesce [] chat \<noteq> [] \<and>
     coalesce [] (sv_privacy_level sv) \<noteq> [] \<and> sv_resolver_revision sv \<noteq> [] \<and>
     sv_reason sv = ''scope_resolved''"

section \<open>Window context\<close>

record window_context =
  cx_session_id :: string
  cx_session_epoch :: int
  cx_start_seq :: int
  cx_end_seq :: int
  cx_expected_count :: int
  cx_source_digest :: string
  cx_persona_id :: "string option"
  cx_chat_type :: "string option"
  cx_group_id :: "string option"
  cx_scope_id :: "string option"
  cx_triggered_by :: string
  cx_gate_revision :: string
  cx_gate_snapshot_json :: string
  cx_window_size :: int
  cx_scope_key :: string
  cx_privacy_level :: "string option"
  cx_resolver_revision :: string
  cx_scope_reason_code :: string
  cx_scope_provenance_complete :: "bool option"
  cx_scope_subject_id :: string

text \<open>The range part of \<open>SummaryWindowContext.__post_init__\<close>: defaults, then the consistency check.\<close>

definition context_range :: "int \<Rightarrow> int \<Rightarrow> int \<Rightarrow> (int \<times> int) result" where
  "context_range start end0 expected0 =
     (let e = (if end0 = 0 \<and> 0 < start \<and> expected0 = 0 then start else end0) in
      if e < start then Inl (ValueError ''end_seq'')
      else (let expected = (if expected0 = 0 \<and> start < e then e - start else expected0) in
            if expected \<noteq> e - start then Inl (ValueError ''expected_count'')
            else Inr (e, expected)))"

definition context_chat_ok :: "string option \<Rightarrow> string option \<Rightarrow> bool" where
  "context_chat_ok chat grp \<longleftrightarrow>
     chat \<in> {None, Some ''private'', Some ''group''} \<and>
     (chat = Some ''group'' \<longrightarrow> coalesce [] grp \<noteq> []) \<and>
     (chat = Some ''private'' \<longrightarrow> grp = None)"

definition scope_fields ::
  "string option \<Rightarrow> string \<Rightarrow> string option \<Rightarrow> string \<Rightarrow> string \<Rightarrow> bool option \<Rightarrow> scope_values result"
where
  "scope_fields chat key0 priv0 rv0 reason0 marker =
     bind_result (text_or_empty ''scope_key'' (Some key0)) (\<lambda>key.
     bind_result (text_field ''privacy_level'' True priv0) (\<lambda>priv.
     bind_result (text_or_empty ''resolver_revision'' (Some rv0)) (\<lambda>rv.
     bind_result (guard_result
         (\<not> (scope_any key priv rv \<and> (\<not> scope_all key priv rv \<or> chat = None)))
         (ValueError ''scope_snapshot_incomplete'')) (\<lambda>_.
     bind_result (guard_result (priv = None \<or> coalesce [] priv \<in> set privacy_levels)
         (ValueError ''privacy_level_invalid'')) (\<lambda>_.
     bind_result (text_required ''scope_reason_code'' reason0) (\<lambda>r.
     Inr (scope_marker chat key priv rv r marker)))))))"

definition make_context :: "(string \<Rightarrow> json_kind option) \<Rightarrow> window_context \<Rightarrow> window_context result"
where
  "make_context json c =
     bind_result (text_required ''session_id'' (cx_session_id c)) (\<lambda>session.
     bind_result (nonnegative_int ''session_epoch'' True (cx_session_epoch c)) (\<lambda>epoch.
     bind_result (nonnegative_int ''start_seq'' False (cx_start_seq c)) (\<lambda>start.
     bind_result (nonnegative_int ''end_seq'' False (cx_end_seq c)) (\<lambda>end0.
     bind_result (nonnegative_int ''expected_count'' False (cx_expected_count c)) (\<lambda>expected0.
     bind_result (context_range start end0 expected0) (\<lambda>(stop, expected).
     bind_result (text_or_empty ''source_digest'' (Some (cx_source_digest c))) (\<lambda>digest.
     bind_result (text_required ''triggered_by'' (cx_triggered_by c)) (\<lambda>triggered.
     bind_result (text_or_empty ''gate_revision'' (Some (cx_gate_revision c))) (\<lambda>revision.
     bind_result (nonnegative_int ''window_size'' True (cx_window_size c)) (\<lambda>size.
     bind_result (guard_result (2 \<le> size) (ValueError ''window_size'')) (\<lambda>_.
     bind_result (text_field ''persona_id'' True (cx_persona_id c)) (\<lambda>persona.
     bind_result (text_field ''chat_type'' True (cx_chat_type c)) (\<lambda>chat.
     bind_result (text_field ''group_id'' True (cx_group_id c)) (\<lambda>grp.
     bind_result (text_field ''scope_id'' True (cx_scope_id c)) (\<lambda>scope.
     bind_result (guard_result (context_chat_ok chat grp) (ValueError ''chat_type'')) (\<lambda>_.
     bind_result (bounded_json_object json (cx_gate_snapshot_json c) ''gate_snapshot_json'') (\<lambda>gate.
     bind_result (scope_fields chat (cx_scope_key c) (cx_privacy_level c)
         (cx_resolver_revision c) (cx_scope_reason_code c)
         (cx_scope_provenance_complete c)) (\<lambda>sv.
     bind_result (text_or_empty ''scope_subject_id'' (Some (cx_scope_subject_id c))) (\<lambda>subject.
     Inr \<lparr>cx_session_id = session, cx_session_epoch = epoch, cx_start_seq = start,
          cx_end_seq = stop, cx_expected_count = expected, cx_source_digest = digest,
          cx_persona_id = persona, cx_chat_type = chat, cx_group_id = grp,
          cx_scope_id = scope, cx_triggered_by = triggered, cx_gate_revision = revision,
          cx_gate_snapshot_json = gate, cx_window_size = size,
          cx_scope_key = sv_scope_key sv, cx_privacy_level = sv_privacy_level sv,
          cx_resolver_revision = sv_resolver_revision sv,
          cx_scope_reason_code = sv_reason sv,
          cx_scope_provenance_complete = sv_marker sv,
          cx_scope_subject_id = subject\<rparr>)))))))))))))))))))"

definition context_scope_available :: "window_context \<Rightarrow> bool" where
  "context_scope_available c \<longleftrightarrow>
     cx_scope_provenance_complete c = Some True \<and> cx_scope_key c \<noteq> [] \<and>
     coalesce [] (cx_chat_type c) \<noteq> [] \<and> coalesce [] (cx_privacy_level c) \<noteq> [] \<and>
     cx_resolver_revision c \<noteq> [] \<and> cx_scope_reason_code c = ''scope_resolved''"

section \<open>Jobs and claims\<close>

text \<open>
  \<open>SummaryJob\<close>. In the constructor's argument the numbers are those of the row; the text and scope
  columns are normalised. \<open>sj_scope_key\<close> and \<open>sj_resolver_revision\<close> are plain strings, empty when
  the snapshot is absent.
\<close>

record summary_job =
  sj_job_id :: string
  sj_session_id :: string
  sj_session_epoch :: int
  sj_start_seq :: int
  sj_end_seq :: int
  sj_expected_count :: int
  sj_source_digest :: string
  sj_status :: job_status
  sj_persona_id :: "string option"
  sj_chat_type :: "string option"
  sj_group_id :: "string option"
  sj_scope_id :: "string option"
  sj_gate_revision :: string
  sj_gate_snapshot_json :: string
  sj_triggered_by :: string
  sj_attempt_count :: int
  sj_next_attempt_at :: real
  sj_lease_until :: "real option"
  sj_worker_generation :: int
  sj_failed_stage :: "string option"
  sj_reason_code :: reason
  sj_exception_type :: "string option"
  sj_operator_action :: "string option"
  sj_canonical_count :: int
  sj_quarantine_count :: int
  sj_discard_count :: int
  sj_mark_write_count :: int
  sj_failed_count :: int
  sj_skipped_count :: int
  sj_created_at :: real
  sj_updated_at :: real
  sj_scope_key :: string
  sj_privacy_level :: "string option"
  sj_resolver_revision :: string
  sj_scope_reason_code :: string
  sj_scope_provenance_complete :: "bool option"

text \<open>\<open>SummaryJob.__post_init__\<close>, first half: identity, window and text columns.\<close>

definition job_identity :: "(string \<Rightarrow> json_kind option) \<Rightarrow> summary_job \<Rightarrow> summary_job result" where
  "job_identity json j =
     bind_result (text_required ''job_id'' (sj_job_id j)) (\<lambda>jid.
     bind_result (text_required ''session_id'' (sj_session_id j)) (\<lambda>session.
     bind_result (nonnegative_int ''session_epoch'' True (sj_session_epoch j)) (\<lambda>epoch.
     bind_result (nonnegative_int ''start_seq'' False (sj_start_seq j)) (\<lambda>start.
     bind_result (nonnegative_int ''end_seq'' False (sj_end_seq j)) (\<lambda>stop.
     bind_result (nonnegative_int ''expected_count'' False (sj_expected_count j)) (\<lambda>expected.
     bind_result (guard_result (start \<le> stop \<and> expected = stop - start)
         (ValueError ''expected_count'')) (\<lambda>_.
     bind_result (text_or_empty ''source_digest'' (Some (sj_source_digest j))) (\<lambda>digest.
     bind_result (text_field ''persona_id'' True (sj_persona_id j)) (\<lambda>persona.
     bind_result (text_field ''chat_type'' True (sj_chat_type j)) (\<lambda>chat.
     bind_result (text_field ''group_id'' True (sj_group_id j)) (\<lambda>grp.
     bind_result (text_field ''scope_id'' True (sj_scope_id j)) (\<lambda>scope.
     bind_result (text_or_empty ''gate_revision'' (Some (sj_gate_revision j))) (\<lambda>revision.
     bind_result (bounded_json_object json (sj_gate_snapshot_json j) ''gate_snapshot_json'') (\<lambda>gate.
     bind_result (text_required ''triggered_by'' (sj_triggered_by j)) (\<lambda>triggered.
     Inr (j\<lparr>sj_job_id := jid, sj_session_id := session, sj_source_digest := digest,
           sj_exception_type := normalize_exception_type (sj_exception_type j),
           sj_persona_id := persona, sj_chat_type := chat, sj_group_id := grp,
           sj_scope_id := scope, sj_gate_revision := revision,
           sj_gate_snapshot_json := gate, sj_triggered_by := triggered\<rparr>))))))))))))))))"

text \<open>Second half: attempt and lease numbers, counters, and the scope block.\<close>

definition job_numbers_ok :: "summary_job \<Rightarrow> bool" where
  "job_numbers_ok j \<longleftrightarrow>
     0 \<le> sj_attempt_count j \<and> 0 \<le> sj_worker_generation j \<and> 0 \<le> sj_next_attempt_at j \<and>
     (case sj_lease_until j of None \<Rightarrow> True | Some t \<Rightarrow> 0 \<le> t) \<and>
     0 \<le> sj_created_at j \<and> 0 \<le> sj_updated_at j \<and>
     0 \<le> sj_canonical_count j \<and> 0 \<le> sj_quarantine_count j \<and> 0 \<le> sj_discard_count j \<and>
     0 \<le> sj_mark_write_count j \<and> 0 \<le> sj_failed_count j \<and> 0 \<le> sj_skipped_count j"

definition job_scope :: "summary_job \<Rightarrow> scope_values result" where
  "job_scope j =
     bind_result (text_or_empty ''scope_key'' (Some (sj_scope_key j))) (\<lambda>key.
     bind_result (text_field ''privacy_level'' True (sj_privacy_level j)) (\<lambda>priv.
     bind_result (text_or_empty ''resolver_revision'' (Some (sj_resolver_revision j))) (\<lambda>rv.
     bind_result (guard_result
         (\<not> (scope_any key priv rv \<and> (\<not> scope_all key priv rv \<or> sj_chat_type j = None)))
         (ValueError ''scope_snapshot_incomplete'')) (\<lambda>_.
     bind_result (guard_result
         (sj_chat_type j \<in> {None, Some ''private'', Some ''group''})
         (ValueError ''chat_type_invalid'')) (\<lambda>_.
     bind_result (guard_result (priv = None \<or> coalesce [] priv \<in> set privacy_levels)
         (ValueError ''privacy_level_invalid'')) (\<lambda>_.
     bind_result (text_required ''scope_reason_code'' (sj_scope_reason_code j)) (\<lambda>r.
     Inr (scope_marker (sj_chat_type j) key priv rv r (sj_scope_provenance_complete j)))))))))"

definition make_job :: "(string \<Rightarrow> json_kind option) \<Rightarrow> summary_job \<Rightarrow> summary_job result" where
  "make_job json j0 =
     bind_result (job_identity json j0) (\<lambda>j.
     bind_result (guard_result (job_numbers_ok j) (ValueError ''numbers'')) (\<lambda>_.
     bind_result (text_field ''operator_action'' True (sj_operator_action j)) (\<lambda>action.
     bind_result (job_scope j) (\<lambda>sv.
     Inr (j\<lparr>sj_operator_action := action,
           sj_scope_key := sv_scope_key sv, sj_privacy_level := sv_privacy_level sv,
           sj_resolver_revision := sv_resolver_revision sv,
           sj_scope_reason_code := sv_reason sv,
           sj_scope_provenance_complete := sv_marker sv\<rparr>)))))"

record claimed_job =
  cj_job :: summary_job
  cj_claim_token :: string
  cj_scheduler_id :: string
  cj_lease_until :: real
  cj_worker_generation :: int

definition make_claim ::
  "summary_job \<Rightarrow> string \<Rightarrow> string \<Rightarrow> real \<Rightarrow> int \<Rightarrow> claimed_job result" where
  "make_claim job token scheduler lease generation =
     bind_result (text_required ''claim_token'' token) (\<lambda>tok.
     bind_result (text_required ''scheduler_id'' scheduler) (\<lambda>sched.
     bind_result (nonnegative_int ''worker_generation'' True generation) (\<lambda>gen.
     Inr \<lparr>cj_job = job, cj_claim_token = tok, cj_scheduler_id = sched,
          cj_lease_until = lease, cj_worker_generation = gen\<rparr>)))"

section \<open>Candidate intents and window outcomes\<close>

record candidate_intent =
  ci_slot :: int
  ci_content_digest :: string
  ci_idempotency_key :: string
  ci_slot_key :: string
  ci_disposition :: "disposition option"
  ci_status :: ledger_status
  ci_canonical_id :: "int option"

definition make_intent :: "candidate_intent \<Rightarrow> candidate_intent result" where
  "make_intent i =
     bind_result (nonnegative_int ''slot'' False (ci_slot i)) (\<lambda>slot.
     bind_result (text_required ''content_digest'' (ci_content_digest i)) (\<lambda>digest.
     bind_result (text_or_empty ''idempotency_key'' (Some (ci_idempotency_key i))) (\<lambda>key.
     bind_result (text_or_empty ''slot_key'' (Some (ci_slot_key i))) (\<lambda>skey.
     bind_result (case ci_canonical_id i of
           None \<Rightarrow> Inr None
         | Some c \<Rightarrow> bind_result (nonnegative_int ''canonical_id'' True c) (\<lambda>d. Inr (Some d)))
       (\<lambda>canonical.
     Inr (i\<lparr>ci_content_digest := digest, ci_idempotency_key := key, ci_slot_key := skey,
           ci_canonical_id := canonical\<rparr>))))))"

record window_outcome =
  wo_can_advance :: bool
  wo_canonical_count :: int
  wo_quarantine_count :: int
  wo_discard_count :: int
  wo_mark_write_count :: int
  wo_merged_count :: int
  wo_facts_rejected_count :: int
  wo_failed_count :: int
  wo_skipped_idempotent_count :: int
  wo_unknown_count :: int
  wo_candidate_slots :: "candidate_intent list"
  wo_failed_stage :: "string option"
  wo_reason_code :: reason
  wo_exception_type :: "string option"

definition outcome_counts :: "window_outcome \<Rightarrow> int list" where
  "outcome_counts w =
     [wo_canonical_count w, wo_quarantine_count w, wo_discard_count w, wo_mark_write_count w,
      wo_merged_count w, wo_facts_rejected_count w, wo_failed_count w,
      wo_skipped_idempotent_count w, wo_unknown_count w]"

text \<open>
  \<open>WindowOutcome.__post_init__\<close>: non-negative counts, pairwise distinct slots, and the shape of a
  \<open>no_facts\<close> result.
\<close>

definition make_outcome :: "window_outcome \<Rightarrow> window_outcome result" where
  "make_outcome w =
     bind_result (guard_result (\<forall>n \<in> set (outcome_counts w). 0 \<le> n) (ValueError ''count'')) (\<lambda>_.
     bind_result (guard_result (distinct (map ci_slot (wo_candidate_slots w)))
         (ValueError ''candidate slot'')) (\<lambda>_.
     bind_result (text_field ''failed_stage'' True (wo_failed_stage w)) (\<lambda>stage.
     bind_result (guard_result
         (\<not> (wo_reason_code w = RNoFacts \<and>
             (\<not> wo_can_advance w \<or> wo_candidate_slots w \<noteq> [] \<or>
              (\<exists>n \<in> set (outcome_counts w). n \<noteq> 0))))
         (ValueError ''no_facts'')) (\<lambda>_.
     Inr (w\<lparr>wo_failed_stage := stage,
           wo_exception_type := normalize_exception_type (wo_exception_type w)\<rparr>)))))"

record summary_failure =
  sf_failed_stage :: string
  sf_reason_code :: reason
  sf_exception_type :: string
  sf_retryable :: bool
  sf_cancelled :: bool

definition make_failure :: "summary_failure \<Rightarrow> summary_failure result" where
  "make_failure f =
     bind_result (text_required ''failed_stage'' (sf_failed_stage f)) (\<lambda>stage.
     Inr (f\<lparr>sf_failed_stage := stage,
           sf_exception_type := coalesce [] (normalize_exception_type (Some (sf_exception_type f))),
           sf_reason_code := (if sf_reason_code f \<in> set failure_reason_codes
                              then sf_reason_code f else RUnknown)\<rparr>))"

section \<open>Results of the store operations\<close>

record enqueue_result =
  er_accepted :: bool
  er_queued :: int
  er_duplicates :: int
  er_active_parallelism :: int
  er_target_parallelism :: int
  er_reason_code :: reason

record completion_result =
  cr_accepted :: bool
  cr_status :: job_status
  cr_cursor :: int
  cr_reason_code :: reason

record retry_result =
  rr_accepted :: bool
  rr_status :: job_status
  rr_attempt_count :: int
  rr_next_attempt_at :: real
  rr_reason_code :: reason

record epoch_result =
  ep_accepted :: bool
  ep_epoch :: int
  ep_cancelled_count :: int
  ep_reason_code :: reason

record trim_result =
  tr_accepted :: bool
  tr_deleted_count :: int
  tr_reason_code :: reason

section \<open>Back-off\<close>

definition retry_delay_seconds :: "int \<Rightarrow> int \<Rightarrow> int \<Rightarrow> int result" where
  "retry_delay_seconds attempt_count base_seconds max_seconds =
     bind_result (nonnegative_int ''attempt_count'' True attempt_count) (\<lambda>attempt.
     bind_result (nonnegative_int ''base_seconds'' True base_seconds) (\<lambda>base.
     bind_result (nonnegative_int ''max_seconds'' True max_seconds) (\<lambda>ceiling.
     if ceiling < base then Inl (ValueError ''base_seconds'')
     else Inr (min ceiling (base * 2 ^ nat (min (attempt - 1) 30))))))"

lemma retry_delay_bounds:
  assumes "retry_delay_seconds a b m = Inr d"
  shows "b \<le> d \<and> d \<le> m"
proof -
  from assms have b: "0 < b" and bm: "b \<le> m"
    and d: "d = min m (b * 2 ^ nat (min (a - 1) 30))"
    by (auto simp: retry_delay_seconds_def bind_result_Inr split: if_splits)
  have "b * 1 \<le> b * 2 ^ nat (min (a - 1) 30)"
    using b by (intro mult_left_mono) auto
  with bm d show ?thesis by simp
qed

lemma retry_delay_mono:
  assumes "retry_delay_seconds a b m = Inr d" "retry_delay_seconds a' b m = Inr d'" "a \<le> a'"
  shows "d \<le> d'"
proof -
  from assms(1) have b: "0 < b" and d: "d = min m (b * 2 ^ nat (min (a - 1) 30))"
    by (auto simp: retry_delay_seconds_def bind_result_Inr split: if_splits)
  from assms(2) have d': "d' = min m (b * 2 ^ nat (min (a' - 1) 30))"
    by (auto simp: retry_delay_seconds_def bind_result_Inr split: if_splits)
  have "(2 :: int) ^ nat (min (a - 1) 30) \<le> 2 ^ nat (min (a' - 1) 30)"
    using assms(3) by (intro power_increasing) auto
  then have "b * 2 ^ nat (min (a - 1) 30) \<le> b * 2 ^ nat (min (a' - 1) 30)"
    using b by (intro mult_left_mono) auto
  with d d' show ?thesis by linarith
qed

lemma retry_delay_total:
  assumes "0 < a" "0 < b" "b \<le> m"
  shows "\<exists>d. retry_delay_seconds a b m = Inr d"
  using assms by (auto simp: retry_delay_seconds_def nonnegative_int_def)

lemma retry_delay_default: "0 < a \<Longrightarrow> \<exists>d. retry_delay_seconds a 5 300 = Inr d \<and> 5 \<le> d \<and> d \<le> 300"
  using retry_delay_total [of a 5 300] retry_delay_bounds by fastforce

end
