(* ===== verification/Summary_Tables.thy ===== *)
theory Summary_Tables
  imports Summary_Models
begin

text \<open>
  The SQLite state behind the summary store (\<open>summary_schema.py\<close>): the rows of \<open>summary_jobs\<close>,
  \<open>summary_job_candidates\<close>, \<open>session_epochs\<close>, \<open>messages\<close>, \<open>sessions\<close>, the counters and the meta
  table, and the two operations every transaction is built from, \<open>_ensure_epoch\<close> and
  \<open>_advance_cursor\<close>. A table with a rowid is a list in insertion order; a table read only by its
  primary key is a map. A transaction is a function from the store to the store; a rollback returns
  the store it started from.
\<close>

section \<open>Rows\<close>

record job =
  jb_job_id :: string
  jb_session_id :: string
  jb_session_epoch :: int
  jb_start_seq :: int
  jb_end_seq :: int
  jb_expected_count :: int
  jb_source_digest :: string
  jb_persona_id :: "string option"
  jb_chat_type :: "string option"
  jb_group_id :: "string option"
  jb_scope_id :: "string option"
  jb_gate_revision :: string
  jb_gate_snapshot_json :: string
  jb_triggered_by :: string
  jb_status :: job_status
  jb_attempt_count :: int
  jb_next_attempt_at :: real
  jb_claim_token :: "string option"
  jb_lease_until :: "real option"
  jb_worker_generation :: int
  jb_failed_stage :: "string option"
  jb_reason_code :: reason
  jb_exception_type :: "string option"
  jb_canonical_count :: int
  jb_quarantine_count :: int
  jb_discard_count :: int
  jb_mark_write_count :: int
  jb_failed_count :: int
  jb_skipped_count :: int
  jb_created_at :: real
  jb_updated_at :: real
  jb_operator_action :: "string option"
  jb_scope_key :: "string option"
  jb_privacy_level :: "string option"
  jb_resolver_revision :: "string option"
  jb_scope_complete :: bool
  jb_merged_count :: int
  jb_facts_rejected_count :: int

record candidate =
  cd_job_id :: string
  cd_slot :: int
  cd_slot_key :: string
  cd_content_digest :: string
  cd_idempotency_key :: string
  cd_disposition :: "disposition option"
  cd_status :: ledger_status
  cd_canonical_id :: "int option"
  cd_updated_at :: real

text \<open>
  \<open>pending_summary_json\<close> holds the four scalars that \<open>_advance_cursor\<close> dumps; the model keeps the
  scalars instead of their JSON text.
\<close>

record pending =
  pd_start_seq :: int
  pd_end_seq :: int
  pd_status :: job_status
  pd_reason :: reason

record epoch_row =
  eo_epoch :: int
  eo_cursor_seq :: int
  eo_pending :: "pending option"
  eo_tombstoned_at :: "real option"
  eo_updated_at :: real

text \<open>
  Metadata columns hold JSON text; only three things are ever asked of it: does it decode, is it an
  object, what is under a key.
\<close>

datatype jvalue = JNull | JBool bool | JString string | JNumber int | JArray "jvalue list" | JDict

datatype doc = Undecodable | NotObject | Doc "string \<Rightarrow> jvalue option"

record message_row =
  ms_id :: int
  ms_session_id :: string
  ms_role :: string
  ms_content :: string
  ms_sender_id :: string
  ms_sender_name :: "string option"
  ms_group_id :: "string option"
  ms_platform :: "string option"
  ms_timestamp :: real
  ms_metadata :: doc
  ms_seq :: "int option"

record session_row =
  se_message_count :: int
  se_metadata :: doc

record store =
  st_connected :: bool
  st_jobs :: "job list"
  st_candidates :: "candidate list"
  st_epochs :: "string \<Rightarrow> epoch_row option"
  st_messages :: "message_row list"
  st_sessions :: "string \<Rightarrow> session_row option"
  st_counters :: "string \<Rightarrow> int option"
  st_meta :: "string \<Rightarrow> string option"

text \<open>
  The host functions the store calls: JSON classification, the SHA-256 of a message list and of a
  text, and HMAC-SHA256 under the installation secret.
\<close>

record host =
  ho_json :: "string \<Rightarrow> json_kind option"
  ho_digest :: "message_row list \<Rightarrow> string"
  ho_sha :: "string \<Rightarrow> string"
  ho_hmac :: "string \<Rightarrow> string \<Rightarrow> int \<Rightarrow> string \<Rightarrow> string"

section \<open>CHECK constraints\<close>

text \<open>
  \<open>_REASON_CODES\<close>: the reasons the \<open>summary_jobs\<close> CHECK accepts. The enumeration of the domain has
  one more member, \<open>topic_label_rejected\<close>.
\<close>

definition schema_reasons :: "reason list" where
  "schema_reasons =
    [RAccepted, RQueued, RDuplicate, RNoWindow, RBlocked, RUnknown, RCancelled,
     RStoreUnavailable, RMigrationFailed, RSourceIncomplete, RSourceDigestMismatch, RClaimLost,
     REpochFenced, RGenerationFenced, RLeaseExpired, RRetryScheduled, RRetryExhausted,
     RInvalidAction, RInvalidSlot, RLedgerUnresolved, RTrimBlocked, RLegacyPending,
     RLegacyPendingInvalid, RCompleted, RAbandonedConfirmed, RNoFacts, RSummaryInvalid,
     RScopeUnavailable]"

definition length_between :: "nat \<Rightarrow> nat \<Rightarrow> string \<Rightarrow> bool" where
  "length_between lo hi s \<longleftrightarrow> lo \<le> length s \<and> length s \<le> hi"

definition opt_all :: "('a \<Rightarrow> bool) \<Rightarrow> 'a option \<Rightarrow> bool" where
  "opt_all p x = (case x of None \<Rightarrow> True | Some y \<Rightarrow> p y)"

lemma opt_all_simps [simp]: "opt_all p None" "opt_all p (Some y) = p y"
  by (simp_all add: opt_all_def)

definition job_checks :: "(string \<Rightarrow> json_kind option) \<Rightarrow> job \<Rightarrow> bool" where
  "job_checks json j \<longleftrightarrow>
     0 < jb_session_epoch j \<and> 0 \<le> jb_start_seq j \<and> jb_start_seq j < jb_end_seq j \<and>
     jb_expected_count j = jb_end_seq j - jb_start_seq j \<and> 0 < jb_expected_count j \<and>
     length_between 1 128 (jb_source_digest j) \<and> length (jb_gate_revision j) \<le> 256 \<and>
     json (jb_gate_snapshot_json j) \<noteq> None \<and> length_between 1 64 (jb_triggered_by j) \<and>
     0 \<le> jb_attempt_count j \<and> 0 \<le> jb_next_attempt_at j \<and>
     opt_all (\<lambda>t. 0 \<le> t) (jb_lease_until j) \<and> 0 \<le> jb_worker_generation j \<and>
     jb_reason_code j \<in> set schema_reasons \<and>
     0 \<le> jb_canonical_count j \<and> 0 \<le> jb_quarantine_count j \<and> 0 \<le> jb_discard_count j \<and>
     0 \<le> jb_mark_write_count j \<and> 0 \<le> jb_failed_count j \<and> 0 \<le> jb_skipped_count j \<and>
     0 \<le> jb_created_at j \<and> 0 \<le> jb_updated_at j \<and>
     opt_all (length_between 1 64) (jb_operator_action j) \<and>
     opt_all (length_between 1 256) (jb_scope_key j) \<and>
     opt_all (\<lambda>p. p \<in> set privacy_levels) (jb_privacy_level j) \<and>
     opt_all (length_between 1 256) (jb_resolver_revision j) \<and>
     0 \<le> jb_merged_count j \<and> 0 \<le> jb_facts_rejected_count j"

definition candidate_checks :: "candidate \<Rightarrow> bool" where
  "candidate_checks c \<longleftrightarrow>
     0 \<le> cd_slot c \<and> length_between 1 128 (cd_slot_key c) \<and>
     length_between 1 128 (cd_content_digest c) \<and> length (cd_idempotency_key c) \<le> 256 \<and>
     opt_all (\<lambda>n. 0 < n) (cd_canonical_id c) \<and> 0 \<le> cd_updated_at c"

text \<open>
  An \<open>INSERT\<close> or \<open>UPDATE\<close> whose new row breaks a CHECK or a key raises \<open>IntegrityError\<close>: the
  statement is \<open>None\<close>, and every caller rolls its transaction back.
\<close>

definition checked_update ::
  "('a \<Rightarrow> bool) \<Rightarrow> ('a \<Rightarrow> bool) \<Rightarrow> ('a \<Rightarrow> 'a) \<Rightarrow> 'a list \<Rightarrow> 'a list option" where
  "checked_update ok p f rs =
     (if \<forall>r \<in> set rs. p r \<longrightarrow> ok (f r) then Some (update_where p f rs) else None)"

definition insert_job :: "(string \<Rightarrow> json_kind option) \<Rightarrow> job \<Rightarrow> job list \<Rightarrow> job list option" where
  "insert_job json j js =
     (if job_checks json j \<and> jb_job_id j \<notin> set (map jb_job_id js) \<and>
         (jb_session_id j, jb_session_epoch j, jb_start_seq j, jb_end_seq j) \<notin>
           set (map (\<lambda>k. (jb_session_id k, jb_session_epoch k, jb_start_seq k, jb_end_seq k)) js)
      then Some (js @ [j]) else None)"

definition insert_candidate :: "candidate \<Rightarrow> candidate list \<Rightarrow> candidate list option" where
  "insert_candidate c cs =
     (if candidate_checks c \<and> (cd_job_id c, cd_slot c) \<notin> set (map (\<lambda>k. (cd_job_id k, cd_slot k)) cs) \<and>
         (cd_job_id c, cd_slot_key c) \<notin> set (map (\<lambda>k. (cd_job_id k, cd_slot_key k)) cs)
      then Some (cs @ [c]) else None)"

lemma checked_update_Some:
  "checked_update ok p f rs = Some rs' \<longleftrightarrow>
     rs' = update_where p f rs \<and> (\<forall>r \<in> set rs. p r \<longrightarrow> ok (f r))"
  by (auto simp: checked_update_def)

lemma insert_job_Some:
  "insert_job json j js = Some js' \<Longrightarrow>
     js' = js @ [j] \<and> job_checks json j \<and> jb_job_id j \<notin> set (map jb_job_id js)"
  by (auto simp: insert_job_def split: if_splits)

section \<open>Status sets\<close>

definition settled_status :: "job_status \<Rightarrow> bool" where
  "settled_status s \<longleftrightarrow> s \<in> {Completed, Abandoned}"

text \<open>The list \<open>('queued','running','failed','blocked','unknown','cancelled')\<close>.\<close>

definition open_status :: "job_status \<Rightarrow> bool" where
  "open_status s \<longleftrightarrow> s \<in> {Queued, Running, Failed, Blocked, Unknown, Cancelled}"

lemma open_status_iff: "open_status s \<longleftrightarrow> \<not> settled_status s"
  by (cases s) (simp_all add: open_status_def settled_status_def)

text \<open>\<open>session_id=? AND session_epoch=?\<close>.\<close>

definition in_epoch :: "string \<Rightarrow> int \<Rightarrow> job \<Rightarrow> bool" where
  "in_epoch s e j \<longleftrightarrow> jb_session_id j = s \<and> jb_session_epoch j = e"

definition epoch_jobs :: "store \<Rightarrow> string \<Rightarrow> int \<Rightarrow> job list" where
  "epoch_jobs st s e = filter (in_epoch s e) (st_jobs st)"

text \<open>\<open>SELECT ... FROM session_epochs WHERE session_id=? AND epoch=?\<close>.\<close>

definition epoch_at :: "store \<Rightarrow> string \<Rightarrow> int \<Rightarrow> epoch_row option" where
  "epoch_at st s e = (case st_epochs st s of
      None \<Rightarrow> None
    | Some r \<Rightarrow> if eo_epoch r = e then Some r else None)"

text \<open>The join \<open>epoch.session_id=job.session_id AND epoch.epoch=job.session_epoch\<close>.\<close>

definition current_job :: "store \<Rightarrow> job \<Rightarrow> bool" where
  "current_job st j \<longleftrightarrow> epoch_at st (jb_session_id j) (jb_session_epoch j) \<noteq> None"

section \<open>Epochs\<close>

definition ensure_epoch :: "string \<Rightarrow> real \<Rightarrow> store \<Rightarrow> (int \<times> int) \<times> store" where
  "ensure_epoch s now st = (case st_epochs st s of
      Some r \<Rightarrow> ((eo_epoch r, eo_cursor_seq r), st)
    | None \<Rightarrow> ((1, 0), st\<lparr>st_epochs := (st_epochs st)(s \<mapsto>
        \<lparr>eo_epoch = 1, eo_cursor_seq = 0, eo_pending = None, eo_tombstoned_at = None,
         eo_updated_at = now\<rparr>)\<rparr>))"

definition get_summary_epoch :: "string \<Rightarrow> store \<Rightarrow> int \<times> int" where
  "get_summary_epoch s st = (case st_epochs st s of
      None \<Rightarrow> (1, 0) | Some r \<Rightarrow> (eo_epoch r, eo_cursor_seq r))"

text \<open>\<open>MAX(COALESCE(MAX(message_seq),0), COALESCE(cursor_seq,0))\<close>.\<close>

definition max_message_seq :: "string \<Rightarrow> message_row list \<Rightarrow> int" where
  "max_message_seq s ms =
     fold max (List.map_filter ms_seq (filter (\<lambda>m. ms_session_id m = s) ms)) 0"

definition get_message_seq_end :: "string \<Rightarrow> store \<Rightarrow> int" where
  "get_message_seq_end s st =
     max (max_message_seq s (st_messages st))
         (case st_epochs st s of None \<Rightarrow> 0 | Some r \<Rightarrow> eo_cursor_seq r)"

section \<open>Advancing the cursor\<close>

text \<open>\<open>SELECT end_seq ... start_seq=current AND status IN (...) ORDER BY end_seq LIMIT 1\<close>.\<close>

definition next_settled :: "job list \<Rightarrow> int \<Rightarrow> int option" where
  "next_settled js c = first_row (sort (map jb_end_seq
     (filter (\<lambda>j. jb_start_seq j = c \<and> settled_status (jb_status j)) js)))"

lemma next_settled_Some:
  assumes "next_settled js c = Some e"
  obtains j where "j \<in> set js" "jb_start_seq j = c" "jb_end_seq j = e"
    "settled_status (jb_status j)"
proof -
  from assms have "e \<in> set (map jb_end_seq
      (filter (\<lambda>j. jb_start_seq j = c \<and> settled_status (jb_status j)) js))"
    unfolding next_settled_def by (rule first_row_sort_key(1))
  then show ?thesis using that by auto
qed

lemma next_settled_None:
  "next_settled js c = None \<longleftrightarrow>
     (\<forall>j \<in> set js. \<not> (jb_start_seq j = c \<and> settled_status (jb_status j)))"
  by (simp add: next_settled_def filter_empty_conv del: first_row_None)

lemma next_settled_decreases:
  assumes "next_settled js c = Some e" "\<not> e \<le> c"
  shows "length (filter (\<lambda>j. e \<le> jb_start_seq j) js) < length (filter (\<lambda>j. c \<le> jb_start_seq j) js)"
proof -
  obtain j where j: "j \<in> set js" "jb_start_seq j = c"
    using assms(1) by (rule next_settled_Some)
  have sub: "filter (\<lambda>j. e \<le> jb_start_seq j) js =
      filter (\<lambda>j. e \<le> jb_start_seq j) (filter (\<lambda>j. c \<le> jb_start_seq j) js)"
    using assms(2) by (auto simp: filter_filter intro: filter_cong)
  have "length (filter (\<lambda>j. e \<le> jb_start_seq j) (filter (\<lambda>j. c \<le> jb_start_seq j) js))
      < length (filter (\<lambda>j. c \<le> jb_start_seq j) js)"
    by (rule length_filter_less [of j]) (use j assms(2) in auto)
  then show ?thesis using sub by simp
qed

text \<open>
  The \<open>while True\<close> loop of \<open>_advance_cursor\<close>. Every turn moves the cursor past a job that starts at
  it, so the number of jobs starting at or after the cursor falls.
\<close>

function settled_prefix :: "job list \<Rightarrow> int \<Rightarrow> int" where
  "settled_prefix js c =
     (case next_settled js c of
        None \<Rightarrow> c
      | Some e \<Rightarrow> if e \<le> c then c else settled_prefix js e)"
  by pat_completeness auto

termination
  by (relation "measure (\<lambda>(js, c). length (filter (\<lambda>j. c \<le> jb_start_seq j) js))")
     (auto simp: next_settled_decreases)

declare settled_prefix.simps [simp del]

text \<open>The first open job at or after the cursor, in \<open>(start, end, created_at, job_id)\<close> order.\<close>

definition pending_key :: "job \<Rightarrow> int \<times> int \<times> real \<times> string" where
  "pending_key j = (jb_start_seq j, jb_end_seq j, jb_created_at j, jb_job_id j)"

definition pending_at :: "job list \<Rightarrow> int \<Rightarrow> pending option" where
  "pending_at js c =
     map_option (\<lambda>j. \<lparr>pd_start_seq = jb_start_seq j, pd_end_seq = jb_end_seq j,
                     pd_status = jb_status j, pd_reason = jb_reason_code j\<rparr>)
       (first_row (sort_key pending_key
         (filter (\<lambda>j. c \<le> jb_start_seq j \<and> open_status (jb_status j)) js)))"

definition advance_cursor :: "string \<Rightarrow> int \<Rightarrow> real \<Rightarrow> store \<Rightarrow> int \<times> store" where
  "advance_cursor s e now st =
     (let js = epoch_jobs st s e;
          current = (case epoch_at st s e of None \<Rightarrow> 0 | Some r \<Rightarrow> eo_cursor_seq r);
          reached = settled_prefix js current
      in (reached,
          case epoch_at st s e of
            None \<Rightarrow> st
          | Some r \<Rightarrow> st\<lparr>st_epochs := (st_epochs st)(s \<mapsto>
              r\<lparr>eo_cursor_seq := reached, eo_pending := pending_at js reached,
                eo_updated_at := now\<rparr>)\<rparr>))"

subsection \<open>What the loop computes\<close>

lemma settled_prefix_ge: "c \<le> settled_prefix js c"
proof (induction js c rule: settled_prefix.induct)
  case (1 js c)
  show ?case
  proof (cases "next_settled js c")
    case None
    then show ?thesis by (simp add: settled_prefix.simps [of js c])
  next
    case (Some e)
    with "1.IH" [OF Some] show ?thesis
      by (cases "e \<le> c") (simp_all add: settled_prefix.simps [of js c])
  qed
qed

text \<open>The loop stops only where no settled, non-empty job starts.\<close>

lemma settled_prefix_stops:
  assumes pos: "\<And>j. j \<in> set js \<Longrightarrow> jb_start_seq j < jb_end_seq j"
  shows "next_settled js (settled_prefix js c) = None"
  using pos
proof (induction js c rule: settled_prefix.induct)
  case (1 js c)
  show ?case
  proof (cases "next_settled js c")
    case None
    then show ?thesis by (simp add: settled_prefix.simps [of js c])
  next
    case (Some e)
    then obtain j where "j \<in> set js" "jb_start_seq j = c" "jb_end_seq j = e"
      by (rule next_settled_Some)
    then have "\<not> e \<le> c" using "1.prems" [of j] by simp
    with "1.IH" [OF Some] Some "1.prems" show ?thesis
      by (simp add: settled_prefix.simps [of js c])
  qed
qed

lemmas cursor_defs = advance_cursor_def epoch_at_def epoch_jobs_def

lemma advance_cursor_frame [simp]:
  "st_jobs (snd (advance_cursor s e now st)) = st_jobs st"
  "st_candidates (snd (advance_cursor s e now st)) = st_candidates st"
  "st_messages (snd (advance_cursor s e now st)) = st_messages st"
  "st_sessions (snd (advance_cursor s e now st)) = st_sessions st"
  "st_counters (snd (advance_cursor s e now st)) = st_counters st"
  "st_meta (snd (advance_cursor s e now st)) = st_meta st"
  "st_connected (snd (advance_cursor s e now st)) = st_connected st"
  by (simp_all add: advance_cursor_def Let_def split: option.splits)

lemma ensure_epoch_frame [simp]:
  "st_jobs (snd (ensure_epoch s now st)) = st_jobs st"
  "st_candidates (snd (ensure_epoch s now st)) = st_candidates st"
  "st_messages (snd (ensure_epoch s now st)) = st_messages st"
  "st_sessions (snd (ensure_epoch s now st)) = st_sessions st"
  "st_counters (snd (ensure_epoch s now st)) = st_counters st"
  "st_meta (snd (ensure_epoch s now st)) = st_meta st"
  "st_connected (snd (ensure_epoch s now st)) = st_connected st"
  by (simp_all add: ensure_epoch_def split: option.splits)

lemma ensure_epoch_at:
  "epoch_at (snd (ensure_epoch s now st)) s (fst (fst (ensure_epoch s now st))) =
     Some (the (st_epochs (snd (ensure_epoch s now st)) s))"
  "eo_cursor_seq (the (st_epochs (snd (ensure_epoch s now st)) s)) =
     snd (fst (ensure_epoch s now st))"
  by (auto simp: ensure_epoch_def epoch_at_def split: option.splits)

lemma ensure_epoch_get: "fst (ensure_epoch s now st) = get_summary_epoch s st"
  by (simp add: ensure_epoch_def get_summary_epoch_def split: option.splits)

end
