(* ===== verification/Summary_Windows.thy ===== *)
theory Summary_Windows
  imports Summary_Tables
begin

text \<open>
  The window invariant of an epoch. The jobs of an epoch, in the order they were inserted, tile the
  sequence numbers from 0 without gap or overlap; the cursor sits on a window boundary; and every
  window behind the cursor is spent (it can no longer be claimed). The lemmas here say what the
  invariant gives (disjointness, uniqueness of the window at a position) and which changes keep it:
  any update that leaves the five identifying columns alone and does not revive a spent window,
  appending a window at the end, and advancing the cursor.
\<close>

fun tiles :: "int \<Rightarrow> job list \<Rightarrow> bool" where
  "tiles c [] \<longleftrightarrow> True"
| "tiles c (j # js) \<longleftrightarrow> jb_start_seq j = c \<and> c < jb_end_seq j \<and> tiles (jb_end_seq j) js"

fun tiles_end :: "int \<Rightarrow> job list \<Rightarrow> int" where
  "tiles_end c [] = c"
| "tiles_end c (j # js) = tiles_end (jb_end_seq j) js"

definition spent_status :: "job_status \<Rightarrow> bool" where
  "spent_status s \<longleftrightarrow> s \<in> {Completed, Abandoned, Unknown, Cancelled}"

definition windows_ok :: "int \<Rightarrow> job list \<Rightarrow> bool" where
  "windows_ok cursor js \<longleftrightarrow>
     tiles 0 js \<and> (cursor = 0 \<or> cursor \<in> jb_end_seq ` set js) \<and>
     (\<forall>j \<in> set js. jb_end_seq j \<le> cursor \<longrightarrow> spent_status (jb_status j))"

lemma settled_spent: "settled_status s \<Longrightarrow> spent_status s"
  by (auto simp: settled_status_def spent_status_def)

section \<open>Tilings\<close>

lemma tiles_append: "tiles c (js @ ks) \<longleftrightarrow> tiles c js \<and> tiles (tiles_end c js) ks"
  by (induction js arbitrary: c) auto

lemma tiles_end_append: "tiles_end c (js @ ks) = tiles_end (tiles_end c js) ks"
  by (induction js arbitrary: c) auto

lemma tiles_end_ge: "tiles c js \<Longrightarrow> c \<le> tiles_end c js"
  by (induction js arbitrary: c) fastforce+

lemma tiles_bounds:
  "tiles c js \<Longrightarrow> j \<in> set js \<Longrightarrow>
     c \<le> jb_start_seq j \<and> jb_start_seq j < jb_end_seq j \<and> jb_end_seq j \<le> tiles_end c js"
proof (induction js arbitrary: c)
  case Nil
  then show ?case by simp
next
  case (Cons k js)
  have end_le: "jb_end_seq k \<le> tiles_end (jb_end_seq k) js"
    using Cons.prems(1) by (simp add: tiles_end_ge)
  show ?case
  proof (cases "j = k")
    case True
    with Cons.prems(1) end_le show ?thesis by simp
  next
    case False
    with Cons.prems have "j \<in> set js" "tiles (jb_end_seq k) js" by auto
    with Cons.IH [of "jb_end_seq k"] Cons.prems(1) show ?thesis by auto
  qed
qed

lemma tiles_disjoint:
  "tiles c js \<Longrightarrow> j \<in> set js \<Longrightarrow> k \<in> set js \<Longrightarrow> j \<noteq> k \<Longrightarrow>
     jb_end_seq j \<le> jb_start_seq k \<or> jb_end_seq k \<le> jb_start_seq j"
proof (induction js arbitrary: c)
  case Nil
  then show ?case by simp
next
  case (Cons x js)
  then have t: "tiles (jb_end_seq x) js" by simp
  from Cons.prems consider "j = x" "k \<in> set js" | "k = x" "j \<in> set js" | "j \<in> set js" "k \<in> set js"
    by auto
  then show ?case
  proof cases
    case 1
    with tiles_bounds [OF t] show ?thesis by blast
  next
    case 2
    with tiles_bounds [OF t] show ?thesis by blast
  next
    case 3
    with Cons.IH [OF t] Cons.prems show ?thesis by blast
  qed
qed

lemma tiles_start_unique:
  assumes "tiles c js" "j \<in> set js" "k \<in> set js" "jb_start_seq j = jb_start_seq k"
  shows "j = k"
  using tiles_disjoint [OF assms(1-3)] tiles_bounds [OF assms(1,2)] tiles_bounds [OF assms(1,3)]
    assms(4) by linarith

lemma tiles_sorted: "tiles c js \<Longrightarrow> sorted (map jb_start_seq js)"
proof (induction js arbitrary: c)
  case Nil
  then show ?case by simp
next
  case (Cons j js)
  then have t: "tiles (jb_end_seq j) js" by simp
  then have "\<forall>k \<in> set js. jb_start_seq j \<le> jb_start_seq k"
    using tiles_bounds [OF t] Cons.prems by fastforce
  with Cons.IH [OF t] show ?case by simp
qed

lemma tiles_cover:
  "tiles c js \<Longrightarrow> c < n \<Longrightarrow> n \<le> tiles_end c js \<Longrightarrow> \<exists>j \<in> set js. jb_start_seq j < n \<and> n \<le> jb_end_seq j"
proof (induction js arbitrary: c)
  case Nil
  then show ?case by simp
next
  case (Cons j js)
  show ?case
  proof (cases "n \<le> jb_end_seq j")
    case True
    with Cons.prems show ?thesis by auto
  next
    case False
    with Cons show ?thesis by auto
  qed
qed

text \<open>Every boundary splits a tiling in two.\<close>

lemma tiles_split:
  assumes "tiles c js" "b = c \<or> b \<in> jb_end_seq ` set js"
  obtains pre post where "js = pre @ post" "tiles c pre" "tiles_end c pre = b" "tiles b post"
    "\<forall>j \<in> set pre. jb_end_seq j \<le> b" "\<forall>j \<in> set post. b < jb_end_seq j"
proof (cases "b = c")
  case True
  moreover have "\<forall>j \<in> set js. c < jb_end_seq j"
    using tiles_bounds [OF assms(1)] by fastforce
  ultimately show ?thesis using assms(1) that [of "[]" js] by simp
next
  case False
  with assms(2) obtain j where j: "j \<in> set js" "jb_end_seq j = b" by auto
  then obtain p q where pq: "js = p @ j # q" by (auto simp: in_set_conv_decomp)
  let ?pre = "p @ [j]"
  have js: "js = ?pre @ q" using pq by simp
  with assms(1) have t: "tiles c ?pre" "tiles (tiles_end c ?pre) q" using tiles_append by blast+
  have e: "tiles_end c ?pre = b" using j(2) by (simp add: tiles_end_append)
  show ?thesis
    by (rule that [OF js t(1) e])
      (use t e tiles_bounds [OF t(1)] tiles_bounds [OF t(2)] in \<open>fastforce+\<close>)
qed

section \<open>Changes that keep the window invariant\<close>

text \<open>An update keeps the identity and the range of a job.\<close>

definition job_frame :: "(job \<Rightarrow> job) \<Rightarrow> bool" where
  "job_frame f \<longleftrightarrow> (\<forall>j. jb_job_id (f j) = jb_job_id j \<and> jb_session_id (f j) = jb_session_id j \<and>
     jb_session_epoch (f j) = jb_session_epoch j \<and> jb_start_seq (f j) = jb_start_seq j \<and>
     jb_end_seq (f j) = jb_end_seq j \<and> jb_expected_count (f j) = jb_expected_count j \<and>
     jb_source_digest (f j) = jb_source_digest j)"

text \<open>
  The interface between the window invariant and an operation of the store: an operation updates the
  jobs that satisfy a guard, keeps their frame, and a window that is spent stays spent.
\<close>

locale window_update =
  fixes guard :: "job \<Rightarrow> bool" and upd :: "job \<Rightarrow> job"
  assumes frame: "job_frame upd"
    and keeps_spent: "guard j \<Longrightarrow> spent_status (jb_status j) \<Longrightarrow> spent_status (jb_status (upd j))"
begin

lemma ids: "map jb_job_id (update_where guard upd js) = map jb_job_id js"
  using frame by (simp add: job_frame_def map_update_where_frame)

lemma epochs: "filter (in_epoch s e) (update_where guard upd js) =
    update_where guard upd (filter (in_epoch s e) js)"
  using frame by (intro filter_update_where_frame) (simp add: job_frame_def in_epoch_def)

lemma ends: "jb_end_seq ` set (update_where guard upd js) = jb_end_seq ` set js"
proof -
  have "map jb_end_seq (update_where guard upd js) = map jb_end_seq js"
    using frame by (simp add: job_frame_def map_update_where_frame)
  then show ?thesis by (metis list.set_map)
qed

lemma tiles_update: "tiles c (update_where guard upd js) \<longleftrightarrow> tiles c js"
  using frame by (induction js arbitrary: c) (auto simp: job_frame_def)

lemma windows: "windows_ok c js \<Longrightarrow> windows_ok c (update_where guard upd js)"
  using frame keeps_spent
  by (auto simp: windows_ok_def tiles_update ends job_frame_def elim!: update_where_memE)

lemma frame_rows:
  assumes "k \<in> set (update_where guard upd js)"
  obtains j where "j \<in> set js" "jb_job_id k = jb_job_id j" "jb_session_id k = jb_session_id j"
    "jb_session_epoch k = jb_session_epoch j" "jb_start_seq k = jb_start_seq j"
    "jb_end_seq k = jb_end_seq j" "k = j \<or> guard j \<and> k = upd j"
  using assms frame by (elim update_where_memE) (auto simp: job_frame_def)

end

lemma windows_ok_append:
  assumes "windows_ok c js" "tiles_end 0 js = jb_start_seq j" "jb_start_seq j < jb_end_seq j"
  shows "windows_ok c (js @ [j])"
proof -
  from assms(1) have t: "tiles 0 js" by (simp add: windows_ok_def)
  have "c \<le> tiles_end 0 js"
    using assms(1) tiles_end_ge [OF t] tiles_bounds [OF t] by (auto simp: windows_ok_def)
  then show ?thesis using assms by (auto simp: windows_ok_def tiles_append)
qed

lemma windows_ok_Nil [simp]: "windows_ok 0 []"
  by (simp add: windows_ok_def)

lemma windows_ok_cursor_le: "windows_ok c js \<Longrightarrow> 0 \<le> c \<and> c \<le> tiles_end 0 js"
  using tiles_end_ge [of 0 js] tiles_bounds [of 0 js] by (fastforce simp: windows_ok_def)

text \<open>One turn of the cursor loop: the settled window at the cursor is the only one it passes.\<close>

lemma windows_ok_step:
  assumes ok: "windows_ok c js" and e: "next_settled js c = Some e"
  shows "windows_ok e js" and "c < e"
proof -
  obtain j where j: "j \<in> set js" "jb_start_seq j = c" "jb_end_seq j = e" "settled_status (jb_status j)"
    using e by (rule next_settled_Some)
  from ok have t: "tiles 0 js" by (simp add: windows_ok_def)
  show "c < e" using tiles_bounds [OF t j(1)] j(2,3) by simp
  have "spent_status (jb_status k)" if k: "k \<in> set js" "jb_end_seq k \<le> e" for k
  proof (cases "k = j")
    case True
    with j(4) show ?thesis by (simp add: settled_spent)
  next
    case False
    with tiles_disjoint [OF t k(1) j(1)] tiles_bounds [OF t k(1)] k(2) j(2,3)
    have "jb_end_seq k \<le> c" by linarith
    with ok k(1) show ?thesis by (simp add: windows_ok_def)
  qed
  with j(1,3) t show "windows_ok e js" by (auto simp: windows_ok_def)
qed

lemma windows_ok_settled_prefix: "windows_ok c js \<Longrightarrow> windows_ok (settled_prefix js c) js"
proof (induction js c rule: settled_prefix.induct)
  case (1 js c)
  show ?case
  proof (cases "next_settled js c")
    case None
    with "1.prems" show ?thesis by (simp add: settled_prefix.simps [of js c])
  next
    case (Some e)
    with windows_ok_step [OF "1.prems" Some] "1.IH" [OF Some]
    show ?thesis by (simp add: settled_prefix.simps [of js c])
  qed
qed

text \<open>The windows the cursor passes are exactly settled ones.\<close>

lemma settled_prefix_passed:
  "windows_ok c js \<Longrightarrow> j \<in> set js \<Longrightarrow> c < jb_end_seq j \<Longrightarrow> jb_end_seq j \<le> settled_prefix js c \<Longrightarrow>
     settled_status (jb_status j)"
proof (induction js c rule: settled_prefix.induct)
  case (1 js c)
  show ?case
  proof (cases "next_settled js c")
    case None
    with "1.prems" show ?thesis by (simp add: settled_prefix.simps [of js c])
  next
    case (Some e)
    note step = windows_ok_step [OF "1.prems"(1) Some]
    have prefix: "settled_prefix js c = settled_prefix js e"
      using Some step(2) by (simp add: settled_prefix.simps [of js c])
    show ?thesis
    proof (cases "e < jb_end_seq j")
      case True
      with "1.IH" [OF Some] step "1.prems" prefix show ?thesis by simp
    next
      case False
      obtain k where k: "k \<in> set js" "jb_start_seq k = c" "jb_end_seq k = e"
        "settled_status (jb_status k)" using Some by (rule next_settled_Some)
      have t: "tiles 0 js" using "1.prems"(1) by (simp add: windows_ok_def)
      have "j = k"
        using tiles_disjoint [OF t "1.prems"(2) k(1)] tiles_bounds [OF t "1.prems"(2)]
          "1.prems"(3) k(2,3) False by linarith
      with k(4) show ?thesis by simp
    qed
  qed
qed

end
