(* ===== verification/Summary_Planner.thy ===== *)
theory Summary_Planner
  imports Summary_Windows
begin

text \<open>
  Planning of summary windows (\<open>summary_store.py\<close>): the scope snapshot a plan persists, the frontier
  check, the split of the unplanned sequence numbers into windows, and the transaction
  \<open>plan_and_enqueue_windows\<close>. The lemmas show that the split covers everything but at most one
  trailing message, that the frontier check accepts every state that satisfies the window invariant,
  and that a plan keeps the invariant.
\<close>

section \<open>Scope metadata\<close>

definition doc_get :: "(string \<Rightarrow> jvalue option) \<Rightarrow> string \<Rightarrow> jvalue" where
  "doc_get m k = coalesce JNull (m k)"

definition scope_unavailable_error :: py_error where
  "scope_unavailable_error = RuntimeError ''summary_startup_scope_unavailable''"

text \<open>\<open>_scope_text\<close>.\<close>

definition scope_text :: "jvalue \<Rightarrow> string option result" where
  "scope_text v = (case v of
      JNull \<Rightarrow> Inr None
    | JString s \<Rightarrow> (let n = py_strip s in
        if n = [] \<or> 256 < length n then Inl scope_unavailable_error else Inr (Some n))
    | _ \<Rightarrow> Inl scope_unavailable_error)"

definition doc_object :: "doc \<Rightarrow> (string \<Rightarrow> jvalue option) result" where
  "doc_object d = (case d of Doc m \<Rightarrow> Inr m | _ \<Rightarrow> Inl scope_unavailable_error)"

text \<open>The loop over the messages: the set of non-blank group columns and of persona values.\<close>

fun collect_scope ::
  "message_row list \<Rightarrow> string list \<Rightarrow> string list \<Rightarrow> (string list \<times> string list) result" where
  "collect_scope [] groups personas = Inr (groups, personas)"
| "collect_scope (m # ms) groups personas =
     (let groups' = (case ms_group_id m of
                       None \<Rightarrow> groups
                     | Some g \<Rightarrow> if py_strip g = [] then groups else List.insert (py_strip g) groups)
      in bind_result (doc_object (ms_metadata m)) (\<lambda>d.
         bind_result (scope_text (doc_get d ''persona_id'')) (\<lambda>p.
         collect_scope ms groups'
           (case p of None \<Rightarrow> personas | Some x \<Rightarrow> List.insert x personas))))"

definition resolve_scope ::
  "string \<Rightarrow> string option \<Rightarrow> string option \<Rightarrow> string option \<Rightarrow> string list \<Rightarrow> string list \<Rightarrow>
   (string \<times> string option \<times> string \<times> string option) result" where
  "resolve_scope session chat grp scope groups personas =
     (if 1 < length groups \<or> 1 < length personas then Inl scope_unavailable_error
      else case first_row groups of
        Some g \<Rightarrow>
          if chat = Some ''private'' \<or> (grp \<noteq> None \<and> grp \<noteq> Some g) \<or> (scope \<noteq> None \<and> scope \<noteq> Some g)
          then Inl scope_unavailable_error
          else Inr (''group'', Some g, g, first_row personas)
      | None \<Rightarrow>
          if chat = Some ''group'' \<or> grp \<noteq> None then Inl scope_unavailable_error
          else if scope \<noteq> None \<and> scope \<noteq> Some session then Inl scope_unavailable_error
          else Inr (''private'', None, session, first_row personas))"

definition get_summary_scope ::
  "string \<Rightarrow> store \<Rightarrow> (string \<times> string option \<times> string \<times> string option) result" where
  "get_summary_scope s st =
     (if \<not> st_connected st then Inl scope_unavailable_error
      else case st_sessions st s of
        None \<Rightarrow> Inl scope_unavailable_error
      | Some row \<Rightarrow>
          bind_result (doc_object (se_metadata row)) (\<lambda>d.
          bind_result (scope_text (doc_get d ''chat_type'')) (\<lambda>chat.
          bind_result (scope_text (doc_get d ''group_id'')) (\<lambda>grp.
          bind_result (scope_text (doc_get d ''scope_id'')) (\<lambda>scope.
          bind_result (scope_text (doc_get d ''persona_id'')) (\<lambda>persona.
          bind_result (collect_scope (filter (\<lambda>m. ms_session_id m = s) (st_messages st)) []
              (case persona of None \<Rightarrow> [] | Some x \<Rightarrow> [x])) (\<lambda>(groups, personas).
          resolve_scope s chat grp scope groups personas)))))))"

text \<open>\<open>_persist_summary_scope_snapshot\<close>: refuse to overwrite a different complete snapshot.\<close>

definition jopt :: "string option \<Rightarrow> jvalue" where
  "jopt x = (case x of None \<Rightarrow> JNull | Some s \<Rightarrow> JString s)"

definition snapshot_values :: "window_context \<Rightarrow> (string \<times> jvalue) list" where
  "snapshot_values c =
     [(''scope_key'', JString (cx_scope_key c)), (''chat_type'', jopt (cx_chat_type c)),
      (''privacy_level'', jopt (cx_privacy_level c)),
      (''resolver_revision'', JString (cx_resolver_revision c)),
      (''scope_id'', jopt (cx_scope_id c))] @
     (if py_strip (cx_scope_subject_id c) = [] then []
      else [(''scope_subject_id'', JString (py_strip (cx_scope_subject_id c)))])"

definition persist_scope_snapshot :: "window_context \<Rightarrow> store \<Rightarrow> store result" where
  "persist_scope_snapshot c st =
     (if \<not> st_connected st \<or> \<not> context_scope_available c then Inr st
      else case st_sessions st (cx_session_id c) of
        None \<Rightarrow> Inr st
      | Some row \<Rightarrow> (case se_metadata row of
            Doc m \<Rightarrow>
              if doc_get m ''scope_provenance_complete'' = JBool True \<and>
                 (\<exists>(k, v) \<in> set (snapshot_values c). doc_get m k \<noteq> JNull \<and> doc_get m k \<noteq> v)
              then Inl (RuntimeError ''scope_snapshot_conflict'')
              else Inr (st\<lparr>st_sessions := (st_sessions st)(cx_session_id c \<mapsto>
                row\<lparr>se_metadata := Doc ((m ++ map_of (snapshot_values c))
                  (''scope_provenance_complete'' \<mapsto> JBool True))\<rparr>)\<rparr>)
          | _ \<Rightarrow> Inl (RuntimeError ''scope_snapshot_conflict'')))"

lemma persist_scope_frame:
  assumes "persist_scope_snapshot c st = Inr st'"
  shows "st_jobs st' = st_jobs st" "st_epochs st' = st_epochs st" "st_messages st' = st_messages st"
    "st_candidates st' = st_candidates st" "st_connected st' = st_connected st"
    "st_meta st' = st_meta st" "st_counters st' = st_counters st"
  using assms by (auto simp: persist_scope_snapshot_def split: if_splits option.splits doc.splits)

section \<open>Source rows\<close>

definition seq_in :: "int \<Rightarrow> int \<Rightarrow> message_row \<Rightarrow> bool" where
  "seq_in lo hi m \<longleftrightarrow> (case ms_seq m of None \<Rightarrow> False | Some n \<Rightarrow> lo < n \<and> n \<le> hi)"

definition source_rows :: "string \<Rightarrow> int \<Rightarrow> int \<Rightarrow> store \<Rightarrow> message_row list" where
  "source_rows s lo hi st =
     sort_key (\<lambda>m. coalesce 0 (ms_seq m))
       (filter (\<lambda>m. ms_session_id m = s \<and> seq_in lo hi m) (st_messages st))"

definition row_seqs :: "message_row list \<Rightarrow> int list" where
  "row_seqs = map (\<lambda>m. coalesce 0 (ms_seq m))"

text \<open>\<open>_rows_digest\<close>: a row whose metadata is not a JSON object raises.\<close>

fun is_object :: "doc \<Rightarrow> bool" where
  "is_object (Doc m) = True"
| "is_object _ = False"

definition rows_digest :: "host \<Rightarrow> message_row list \<Rightarrow> string option" where
  "rows_digest h rows =
     (if \<forall>m \<in> set rows. is_object (ms_metadata m) then Some (ho_digest h rows) else None)"

definition window_complete :: "int \<Rightarrow> int \<Rightarrow> message_row list \<Rightarrow> bool" where
  "window_complete lo hi rows \<longleftrightarrow>
     int (length rows) = hi - lo \<and> row_seqs rows = [lo + 1..hi]"

section \<open>Frontier\<close>

fun frontier_scan :: "int \<Rightarrow> int \<Rightarrow> (int \<times> int) list \<Rightarrow> int option" where
  "frontier_scan cursor frontier [] = Some frontier"
| "frontier_scan cursor frontier ((start, stop) # rows) =
     (if stop \<le> cursor then frontier_scan cursor frontier rows
      else if start < cursor \<or> start \<noteq> frontier \<or> stop \<le> start then None
      else frontier_scan cursor stop rows)"

definition validated_frontier :: "string \<Rightarrow> int \<Rightarrow> int \<Rightarrow> store \<Rightarrow> int option" where
  "validated_frontier s e cursor st =
     frontier_scan cursor cursor
       (map (\<lambda>j. (jb_start_seq j, jb_end_seq j)) (sort_key pending_key (epoch_jobs st s e)))"

section \<open>Window ranges\<close>

function plan_ranges :: "int \<Rightarrow> int \<Rightarrow> int \<Rightarrow> (int \<times> int) list" where
  "plan_ranges width start observed =
     (if 0 < width \<and> start + width \<le> observed
      then (start, start + width) # plan_ranges width (start + width) observed
      else if 2 \<le> observed - start then [(start, observed)] else [])"
  by pat_completeness auto
termination
  by (relation "measure (\<lambda>(width, start, observed). nat (observed - start))") auto

declare plan_ranges.simps [simp del]

section \<open>Enqueueing\<close>

text \<open>The row that is inserted for one window; \<open>uuid\<close> is the identifier drawn for it.\<close>

definition incomplete_text :: "string \<Rightarrow> int \<Rightarrow> int \<Rightarrow> string" where
  "incomplete_text s lo hi =
     ''incomplete:'' @ s @ '':'' @ show_int lo @ '':'' @ show_int hi"

definition window_job ::
  "window_context \<Rightarrow> int \<Rightarrow> real \<Rightarrow> string \<Rightarrow> int \<Rightarrow> int \<Rightarrow> string \<Rightarrow> job_status \<Rightarrow> reason \<Rightarrow> job" where
  "window_job c epoch now uuid lo hi digest status r =
     \<lparr>jb_job_id = uuid, jb_session_id = cx_session_id c, jb_session_epoch = epoch,
      jb_start_seq = lo, jb_end_seq = hi, jb_expected_count = hi - lo,
      jb_source_digest = digest, jb_persona_id = cx_persona_id c,
      jb_chat_type = cx_chat_type c, jb_group_id = cx_group_id c, jb_scope_id = cx_scope_id c,
      jb_gate_revision = cx_gate_revision c, jb_gate_snapshot_json = cx_gate_snapshot_json c,
      jb_triggered_by = cx_triggered_by c, jb_status = status, jb_attempt_count = 0,
      jb_next_attempt_at = now, jb_claim_token = None, jb_lease_until = None,
      jb_worker_generation = 0, jb_failed_stage = None, jb_reason_code = r,
      jb_exception_type = None, jb_canonical_count = 0, jb_quarantine_count = 0,
      jb_discard_count = 0, jb_mark_write_count = 0, jb_failed_count = 0, jb_skipped_count = 0,
      jb_created_at = now, jb_updated_at = now, jb_operator_action = None,
      jb_scope_key = none_if_empty (cx_scope_key c), jb_privacy_level = cx_privacy_level c,
      jb_resolver_revision = none_if_empty (cx_resolver_revision c),
      jb_scope_complete = context_scope_available c, jb_merged_count = 0,
      jb_facts_rejected_count = 0\<rparr>"

record plan_state =
  ps_jobs :: "job list"
  ps_queued :: int
  ps_duplicates :: int
  ps_blocked :: bool

text \<open>One turn of the loop over the ranges; \<open>None\<close> is an exception.\<close>

definition plan_window ::
  "host \<Rightarrow> window_context \<Rightarrow> int \<Rightarrow> real \<Rightarrow> (int \<Rightarrow> int \<Rightarrow> string) \<Rightarrow> store \<Rightarrow> int \<times> int \<Rightarrow>
   plan_state \<Rightarrow> plan_state option" where
  "plan_window h c epoch now uuid st rng ps =
     (let lo = fst rng; hi = snd rng; s = cx_session_id c in
      if list_ex (\<lambda>j. in_epoch s epoch j \<and> jb_start_seq j < hi \<and> lo < jb_end_seq j) (ps_jobs ps)
      then Some (ps\<lparr>ps_duplicates := ps_duplicates ps + 1\<rparr>)
      else (let rows = source_rows s lo hi st in
        if window_complete lo hi rows then
          Option.bind (rows_digest h rows) (\<lambda>digest.
          map_option (\<lambda>js. ps\<lparr>ps_jobs := js, ps_queued := ps_queued ps + 1\<rparr>)
            (insert_job (ho_json h)
              (window_job c epoch now (uuid lo hi) lo hi digest Queued RQueued) (ps_jobs ps)))
        else
          map_option (\<lambda>js. ps\<lparr>ps_jobs := js, ps_blocked := True\<rparr>)
            (insert_job (ho_json h)
              (window_job c epoch now (uuid lo hi) lo hi (ho_sha h (incomplete_text s lo hi))
                 Blocked RSourceIncomplete) (ps_jobs ps))))"

fun plan_windows ::
  "host \<Rightarrow> window_context \<Rightarrow> int \<Rightarrow> real \<Rightarrow> (int \<Rightarrow> int \<Rightarrow> string) \<Rightarrow> store \<Rightarrow> (int \<times> int) list \<Rightarrow>
   plan_state \<Rightarrow> plan_state option" where
  "plan_windows h c epoch now uuid st [] ps = Some ps"
| "plan_windows h c epoch now uuid st (r # rs) ps =
     (case plan_window h c epoch now uuid st r ps of
        None \<Rightarrow> None
      | Some ps' \<Rightarrow> plan_windows h c epoch now uuid st rs ps')"

definition active_count :: "real \<Rightarrow> store \<Rightarrow> int" where
  "active_count now st =
     rowcount (\<lambda>j. jb_status j = Running \<and> (case jb_lease_until j of None \<Rightarrow> False | Some t \<Rightarrow> now < t))
       (st_jobs st)"

definition enqueue_refused :: "reason \<Rightarrow> enqueue_result" where
  "enqueue_refused r = \<lparr>er_accepted = False, er_queued = 0, er_duplicates = 0,
     er_active_parallelism = 0, er_target_parallelism = 0, er_reason_code = r\<rparr>"

definition enqueue_reason :: "int \<Rightarrow> int \<Rightarrow> bool \<Rightarrow> reason" where
  "enqueue_reason queued duplicates blocked =
     (if queued \<noteq> 0 then RQueued else if duplicates \<noteq> 0 then RDuplicate
      else if blocked then RSourceIncomplete else RNoWindow)"

text \<open>The manual-trigger check: an unknown job is reported before a blocked one.\<close>

definition manual_blocker :: "window_context \<Rightarrow> int \<Rightarrow> store \<Rightarrow> reason option" where
  "manual_blocker c epoch st =
     (if cx_triggered_by c \<noteq> ''manual'' then None
      else if list_ex (\<lambda>j. jb_status j = Unknown) (epoch_jobs st (cx_session_id c) epoch)
      then Some RUnknown
      else if list_ex (\<lambda>j. jb_status j = Blocked) (epoch_jobs st (cx_session_id c) epoch)
      then Some RBlocked else None)"

text \<open>
  The body of the transaction after the frontier is known. \<open>active_now\<close> is the later clock reading of
  \<open>_active_count\<close>.
\<close>

definition plan_from ::
  "host \<Rightarrow> window_context \<Rightarrow> int \<Rightarrow> real \<Rightarrow> real \<Rightarrow> (int \<Rightarrow> int \<Rightarrow> string) \<Rightarrow> int \<Rightarrow> int \<Rightarrow> store \<Rightarrow>
   (store \<times> enqueue_result) option" where
  "plan_from h c epoch now active_now uuid frontier observed st =
     (let s = cx_session_id c;
          start = max frontier (cx_start_seq c);
          dup0 = (if observed \<le> start
                  then rowcount (\<lambda>j. in_epoch s epoch j \<and> cx_start_seq c \<le> jb_start_seq j \<and>
                                     jb_end_seq j \<le> observed) (st_jobs st)
                  else 0)
      in case plan_windows h c epoch now uuid st
              (plan_ranges (max 2 (cx_window_size c)) start observed)
              \<lparr>ps_jobs = st_jobs st, ps_queued = 0, ps_duplicates = dup0, ps_blocked = False\<rparr> of
           None \<Rightarrow> None
         | Some ps \<Rightarrow>
             (let st1 = st\<lparr>st_jobs := ps_jobs ps\<rparr>;
                  executable = rowcount (\<lambda>j. jb_status j \<in> {Queued, Failed} \<and>
                                             jb_next_attempt_at j \<le> now) (st_jobs st1);
                  active = active_count active_now st1;
                  st2 = snd (advance_cursor s epoch now st1)
              in Some (st2,
                   \<lparr>er_accepted = ps_queued ps \<noteq> 0 \<or> ps_duplicates ps \<noteq> 0 \<or> ps_blocked ps,
                    er_queued = ps_queued ps, er_duplicates = ps_duplicates ps,
                    er_active_parallelism = active, er_target_parallelism = executable,
                    er_reason_code = enqueue_reason (ps_queued ps) (ps_duplicates ps)
                                       (ps_blocked ps)\<rparr>)))"

definition planning_error :: "bool \<Rightarrow> store \<Rightarrow> reason \<Rightarrow> store \<times> enqueue_result result" where
  "planning_error strict st r =
     (st, if strict then Inl (RuntimeError ''summary_startup_planning_failed'')
          else Inr (enqueue_refused r))"

definition plan_and_enqueue_windows ::
  "host \<Rightarrow> window_context \<Rightarrow> int \<Rightarrow> bool \<Rightarrow> real \<Rightarrow> real \<Rightarrow> (int \<Rightarrow> int \<Rightarrow> string) \<Rightarrow> store \<Rightarrow>
   store \<times> enqueue_result result" where
  "plan_and_enqueue_windows h c observed strict now active_now uuid st =
     (if observed < 0 then (st, Inr (enqueue_refused RSourceIncomplete))
      else if \<not> st_connected st then planning_error strict st RStoreUnavailable
      else (let es = ensure_epoch (cx_session_id c) now st;
                epoch = fst (fst es); cursor = snd (fst es); st1 = snd es in
        if epoch \<noteq> cx_session_epoch c \<or> cursor \<noteq> cx_start_seq c
        then (st, Inr (enqueue_refused REpochFenced))
        else case persist_scope_snapshot c st1 of
          Inl _ \<Rightarrow> planning_error strict st RStoreUnavailable
        | Inr st2 \<Rightarrow> (case manual_blocker c epoch st2 of
            Some r \<Rightarrow> (st, Inr (enqueue_refused r))
          | None \<Rightarrow> (case validated_frontier (cx_session_id c) epoch cursor st2 of
              None \<Rightarrow> planning_error strict st RSourceIncomplete
            | Some frontier \<Rightarrow>
                if observed < frontier then planning_error strict st RSourceIncomplete
                else (case plan_from h c epoch now active_now uuid frontier observed st2 of
                    None \<Rightarrow> planning_error strict st RStoreUnavailable
                  | Some (st3, r) \<Rightarrow> (st3, Inr r))))))"

section \<open>The frontier of a well-formed epoch\<close>

lemma frontier_scan_skip:
  "\<forall>j \<in> set js. jb_end_seq j \<le> c \<Longrightarrow>
     frontier_scan c f (map (\<lambda>j. (jb_start_seq j, jb_end_seq j)) js @ rs) = frontier_scan c f rs"
  by (induction js) auto

lemma frontier_scan_tiles:
  "tiles b js \<Longrightarrow> c \<le> b \<Longrightarrow>
     frontier_scan c b (map (\<lambda>j. (jb_start_seq j, jb_end_seq j)) js) = Some (tiles_end b js)"
  by (induction js arbitrary: b) auto

lemma tiles_pending_sorted: "tiles c js \<Longrightarrow> sorted (map pending_key js)"
proof (induction js arbitrary: c)
  case Nil
  then show ?case by simp
next
  case (Cons j js)
  then have t: "tiles (jb_end_seq j) js" and lt: "jb_start_seq j < jb_end_seq j" by auto
  have "pending_key j \<le> pending_key k" if "k \<in> set js" for k
    using tiles_bounds [OF t that] lt by (simp add: pending_key_def)
  with Cons.IH [OF t] show ?case by simp
qed

theorem validated_frontier_windows:
  assumes "windows_ok c (epoch_jobs st s e)"
  shows "validated_frontier s e c st = Some (tiles_end 0 (epoch_jobs st s e))"
proof -
  let ?js = "epoch_jobs st s e" and ?r = "\<lambda>j. (jb_start_seq j, jb_end_seq j)"
  from assms have t: "tiles 0 ?js" and b: "c = 0 \<or> c \<in> jb_end_seq ` set ?js"
    by (simp_all add: windows_ok_def)
  obtain pre post where js: "?js = pre @ post" "tiles_end 0 pre = c" "tiles c post"
      "\<forall>j \<in> set pre. jb_end_seq j \<le> c"
    by (rule tiles_split [OF t b]) blast
  have "sort_key pending_key ?js = ?js"
    using tiles_pending_sorted [OF t] by (rule sort_key_id_if_sorted)
  then have "validated_frontier s e c st = frontier_scan c c (map ?r pre @ map ?r post)"
    by (simp add: validated_frontier_def js(1))
  also have "\<dots> = Some (tiles_end c post)"
    using js(3,4) by (simp add: frontier_scan_skip frontier_scan_tiles)
  finally show ?thesis by (simp add: js(1,2) tiles_end_append)
qed

section \<open>The ranges cover the unplanned messages\<close>

fun chained :: "int \<Rightarrow> (int \<times> int) list \<Rightarrow> bool" where
  "chained c [] \<longleftrightarrow> True"
| "chained c ((lo, hi) # rs) \<longleftrightarrow> lo = c \<and> c < hi \<and> chained hi rs"

fun chain_end :: "int \<Rightarrow> (int \<times> int) list \<Rightarrow> int" where
  "chain_end c [] = c"
| "chain_end c ((lo, hi) # rs) = chain_end hi rs"

lemma plan_ranges_covers:
  assumes "2 \<le> width" "start \<le> observed"
  shows "chained start (plan_ranges width start observed)"
    and "observed - 1 \<le> chain_end start (plan_ranges width start observed)"
    and "chain_end start (plan_ranges width start observed) \<le> observed"
    and "\<forall>(lo, hi) \<in> set (plan_ranges width start observed). 2 \<le> hi - lo \<and> hi - lo \<le> width"
  using assms
proof (atomize (full), induction width start observed rule: plan_ranges.induct)
  case (1 width start observed)
  show ?case
  proof (cases "start + width \<le> observed")
    case True
    with 1 show ?thesis
      by (auto simp: plan_ranges.simps [of width start observed])
  next
    case False
    with 1 show ?thesis
      by (auto simp: plan_ranges.simps [of width start observed])
  qed
qed

lemma plan_ranges_done: "observed \<le> start + 1 \<Longrightarrow> 2 \<le> width \<Longrightarrow> plan_ranges width start observed = []"
  by (simp add: plan_ranges.simps)

section \<open>What a plan adds\<close>

text \<open>The rows a plan inserts are unclaimed and unattempted windows of the planned epoch.\<close>

definition planned_job :: "host \<Rightarrow> window_context \<Rightarrow> int \<Rightarrow> job \<Rightarrow> bool" where
  "planned_job h c epoch j \<longleftrightarrow>
     in_epoch (cx_session_id c) epoch j \<and> jb_status j \<in> {Queued, Blocked} \<and>
     jb_claim_token j = None \<and> jb_lease_until j = None \<and> jb_attempt_count j = 0 \<and>
     jb_worker_generation j = 0 \<and> job_checks (ho_json h) j"

text \<open>The source of a window is all there and still has the digest it was planned with.\<close>

definition source_intact :: "host \<Rightarrow> store \<Rightarrow> job \<Rightarrow> bool" where
  "source_intact h st j \<longleftrightarrow>
     (let rows = source_rows (jb_session_id j) (jb_start_seq j) (jb_end_seq j) st in
      window_complete (jb_start_seq j) (jb_end_seq j) rows \<and> rows_digest h rows = Some (jb_source_digest j))"

lemma source_intact_cong: "st_messages st' = st_messages st \<Longrightarrow> source_intact h st' j = source_intact h st j"
  by (simp add: source_intact_def source_rows_def)

lemma plan_window_adds:
  assumes plan: "plan_window h c epoch now uuid st (lo, hi) ps = Some ps'"
    and free: "\<forall>j \<in> set (ps_jobs ps). in_epoch (cx_session_id c) epoch j \<longrightarrow> jb_end_seq j \<le> lo"
  obtains j where "ps_jobs ps' = ps_jobs ps @ [j]" "planned_job h c epoch j"
    "jb_start_seq j = lo" "jb_end_seq j = hi" "jb_job_id j \<notin> set (map jb_job_id (ps_jobs ps))"
    "ps_duplicates ps' = ps_duplicates ps" "jb_job_id j = uuid lo hi"
    "jb_status j = Queued \<longrightarrow> source_intact h st j"
proof -
  have "\<not> list_ex (\<lambda>j. in_epoch (cx_session_id c) epoch j \<and> jb_start_seq j < hi \<and> lo < jb_end_seq j)
      (ps_jobs ps)" using free by (force simp: list_ex_iff)
  then obtain d status r js where ins:
    "insert_job (ho_json h) (window_job c epoch now (uuid lo hi) lo hi d status r) (ps_jobs ps)
       = Some js" "ps_jobs ps' = js" "status \<in> {Queued, Blocked}"
    "ps_duplicates ps' = ps_duplicates ps"
    "status = Queued \<longrightarrow> window_complete lo hi (source_rows (cx_session_id c) lo hi st) \<and>
       rows_digest h (source_rows (cx_session_id c) lo hi st) = Some d"
    using plan
    by (auto simp: plan_window_def Let_def bind_eq_Some_conv split: if_splits)
  note ok = insert_job_Some [OF ins(1)]
  show ?thesis
    by (rule that [of "window_job c epoch now (uuid lo hi) lo hi d status r"])
      (use ok ins in \<open>auto simp: planned_job_def in_epoch_def window_job_def source_intact_def Let_def\<close>)
qed

lemma plan_windows_adds:
  assumes "plan_windows h c epoch now uuid st rs ps = Some ps'"
    and "chained lo rs" "distinct (map jb_job_id (ps_jobs ps))"
    and "\<forall>j \<in> set (ps_jobs ps). in_epoch (cx_session_id c) epoch j \<longrightarrow> jb_end_seq j \<le> lo"
  shows "\<exists>new. ps_jobs ps' = ps_jobs ps @ new \<and>
     map (\<lambda>j. (jb_start_seq j, jb_end_seq j)) new = rs \<and>
     (\<forall>j \<in> set new. planned_job h c epoch j \<and> (jb_status j = Queued \<longrightarrow> source_intact h st j)) \<and>
     distinct (map jb_job_id (ps_jobs ps')) \<and> ps_duplicates ps' = ps_duplicates ps"
  using assms
proof (induction rs arbitrary: ps lo)
  case Nil
  then show ?case by auto
next
  case (Cons r rs)
  obtain hi where r: "r = (lo, hi)" "lo < hi" "chained hi rs" using Cons.prems(2) by (cases r) auto
  from Cons.prems(1) obtain ps1 where p1: "plan_window h c epoch now uuid st (lo, hi) ps = Some ps1"
    and p2: "plan_windows h c epoch now uuid st rs ps1 = Some ps'"
    using r(1) by (auto split: option.splits)
  obtain j where j: "ps_jobs ps1 = ps_jobs ps @ [j]" "planned_job h c epoch j"
    "jb_start_seq j = lo" "jb_end_seq j = hi" "jb_job_id j \<notin> set (map jb_job_id (ps_jobs ps))"
    "ps_duplicates ps1 = ps_duplicates ps"
    "jb_status j = Queued \<longrightarrow> source_intact h st j"
    by (rule plan_window_adds [OF p1 Cons.prems(4)])
  have "distinct (map jb_job_id (ps_jobs ps1))" using j(1,5) Cons.prems(3) by simp
  moreover have "\<forall>k \<in> set (ps_jobs ps1). in_epoch (cx_session_id c) epoch k \<longrightarrow> jb_end_seq k \<le> hi"
    using j(1,4) Cons.prems(4) r(2) by auto
  ultimately obtain new where "ps_jobs ps' = ps_jobs ps1 @ new"
    "map (\<lambda>j. (jb_start_seq j, jb_end_seq j)) new = rs"
    "\<forall>j \<in> set new. planned_job h c epoch j \<and> (jb_status j = Queued \<longrightarrow> source_intact h st j)"
    "distinct (map jb_job_id (ps_jobs ps'))" "ps_duplicates ps' = ps_duplicates ps1"
    using Cons.IH [OF p2 r(3)] by blast
  then show ?case using j r by (intro exI [of _ "j # new"]) auto
qed

lemma tiles_of_chain:
  "chained c (map (\<lambda>j. (jb_start_seq j, jb_end_seq j)) js) \<longleftrightarrow> tiles c js"
  "chain_end c (map (\<lambda>j. (jb_start_seq j, jb_end_seq j)) js) = tiles_end c js"
  by (induction js arbitrary: c) auto

lemma windows_ok_extend:
  assumes "windows_ok c js" "tiles (tiles_end 0 js) new"
  shows "windows_ok c (js @ new)"
proof -
  have "c \<le> tiles_end 0 js" using windows_ok_cursor_le [OF assms(1)] by simp
  moreover have "\<forall>j \<in> set new. tiles_end 0 js < jb_end_seq j"
    using tiles_bounds [OF assms(2)] by fastforce
  ultimately show ?thesis using assms by (fastforce simp: windows_ok_def tiles_append)
qed

end
