(* ===== verification/Summary_Invariant.thy ===== *)
theory Summary_Invariant
  imports Summary_Planner
begin

text \<open>
  The invariant of the store: job identifiers are unique, every job belongs to an epoch the session
  has reached, the current epoch of every session satisfies the window invariant, and every job row
  is consistent (exactly the running jobs hold a claim token and a lease, and no job has been
  attempted more than three times). The lemmas lift a change of one table to the whole store.
\<close>

definition max_attempts :: int where "max_attempts = 3"

definition job_ok :: "job \<Rightarrow> bool" where
  "job_ok j \<longleftrightarrow>
     (jb_status j = Running \<longleftrightarrow> jb_claim_token j \<noteq> None) \<and>
     (jb_status j = Running \<longleftrightarrow> jb_lease_until j \<noteq> None) \<and>
     0 \<le> jb_attempt_count j \<and> jb_attempt_count j \<le> max_attempts \<and>
     (jb_status j = Running \<longrightarrow> 1 \<le> jb_attempt_count j \<and> 1 \<le> jb_worker_generation j) \<and>
     0 \<le> jb_worker_generation j"

definition epoch_ok :: "store \<Rightarrow> string \<Rightarrow> epoch_row \<Rightarrow> bool" where
  "epoch_ok st s r \<longleftrightarrow> 0 < eo_epoch r \<and> windows_ok (eo_cursor_seq r) (epoch_jobs st s (eo_epoch r))"

definition known_epoch :: "(string \<Rightarrow> epoch_row option) \<Rightarrow> job \<Rightarrow> bool" where
  "known_epoch es j \<longleftrightarrow> (\<exists>r. es (jb_session_id j) = Some r \<and> jb_session_epoch j \<le> eo_epoch r)"

definition store_ok :: "store \<Rightarrow> bool" where
  "store_ok st \<longleftrightarrow>
     distinct (map jb_job_id (st_jobs st)) \<and>
     (\<forall>j \<in> set (st_jobs st). job_ok j \<and> known_epoch (st_epochs st) j) \<and>
     (\<forall>s r. st_epochs st s = Some r \<longrightarrow> epoch_ok st s r)"

definition empty_store :: store where
  "empty_store = \<lparr>st_connected = True, st_jobs = [], st_candidates = [], st_epochs = (\<lambda>_. None),
     st_messages = [], st_sessions = (\<lambda>_. None),
     st_counters = map_of (map (\<lambda>n. (n, 0))
       [''canonical_total'', ''quarantine_total'', ''discard_total'', ''mark_write_total'',
        ''merged_total'', ''failed_candidate_total'', ''skipped_idempotent_total'']),
     st_meta = (\<lambda>_. None)\<rparr>"

lemma store_ok_empty: "store_ok empty_store"
  by (simp add: store_ok_def empty_store_def)

lemma store_okD:
  assumes "store_ok st"
  shows "distinct (map jb_job_id (st_jobs st))"
    and "j \<in> set (st_jobs st) \<Longrightarrow> job_ok j"
    and "j \<in> set (st_jobs st) \<Longrightarrow> known_epoch (st_epochs st) j"
    and "st_epochs st s = Some r \<Longrightarrow> windows_ok (eo_cursor_seq r) (epoch_jobs st s (eo_epoch r))"
    and "st_epochs st s = Some r \<Longrightarrow> 0 < eo_epoch r"
  using assms by (auto simp: store_ok_def epoch_ok_def)

text \<open>Only the job and epoch tables matter to the invariant.\<close>

lemma store_ok_cong:
  assumes "store_ok st" "st_jobs st' = st_jobs st" "st_epochs st' = st_epochs st"
  shows "store_ok st'"
  using assms by (simp add: store_ok_def epoch_ok_def epoch_jobs_def)

section \<open>What a step may do\<close>

text \<open>
  A job is never deleted and keeps its identity, range and source digest; its worker generation never
  falls, it never becomes active again, and it is running only if it already was under the same token,
  or if its generation rose. So a claim that has stopped matching its row never matches it again.
\<close>

definition active_status :: "job_status \<Rightarrow> bool" where
  "active_status s \<longleftrightarrow> s \<in> {Queued, Running, Failed}"

lemma active_status_simps [simp]:
  "active_status Queued" "active_status Running" "active_status Failed" "\<not> active_status Blocked"
  "\<not> active_status Unknown" "\<not> active_status Cancelled" "\<not> active_status Completed"
  "\<not> active_status Abandoned"
  by (simp_all add: active_status_def)

definition claim_evolves :: "job \<Rightarrow> job \<Rightarrow> bool" where
  "claim_evolves j k \<longleftrightarrow>
     jb_worker_generation j \<le> jb_worker_generation k \<and>
     (active_status (jb_status k) \<longrightarrow> active_status (jb_status j)) \<and>
     (jb_status k = Running \<longrightarrow>
        jb_worker_generation j < jb_worker_generation k \<or>
        (jb_status j = Running \<and> jb_claim_token k = jb_claim_token j))"

definition job_evolves :: "job \<Rightarrow> job \<Rightarrow> bool" where
  "job_evolves j k \<longleftrightarrow>
     jb_job_id k = jb_job_id j \<and> jb_session_id k = jb_session_id j \<and>
     jb_session_epoch k = jb_session_epoch j \<and> jb_start_seq k = jb_start_seq j \<and>
     jb_end_seq k = jb_end_seq j \<and> jb_expected_count k = jb_expected_count j \<and>
     jb_source_digest k = jb_source_digest j \<and> claim_evolves j k"

definition epoch_evolves :: "epoch_row \<Rightarrow> epoch_row \<Rightarrow> bool" where
  "epoch_evolves r q \<longleftrightarrow>
     eo_epoch r < eo_epoch q \<or> (eo_epoch r = eo_epoch q \<and> eo_cursor_seq r \<le> eo_cursor_seq q)"

definition store_evolves :: "store \<Rightarrow> store \<Rightarrow> bool" where
  "store_evolves st st' \<longleftrightarrow>
     (\<forall>j \<in> set (st_jobs st). \<exists>k \<in> set (st_jobs st'). job_evolves j k) \<and>
     (\<forall>s r. st_epochs st s = Some r \<longrightarrow> (\<exists>q. st_epochs st' s = Some q \<and> epoch_evolves r q))"

lemma job_evolves_refl [simp]: "job_evolves j j"
  by (simp add: job_evolves_def claim_evolves_def)

lemma job_evolves_trans: "job_evolves i j \<Longrightarrow> job_evolves j k \<Longrightarrow> job_evolves i k"
  by (auto simp: job_evolves_def claim_evolves_def)

lemma epoch_evolves_refl [simp]: "epoch_evolves r r"
  by (simp add: epoch_evolves_def)

lemma epoch_evolves_trans: "epoch_evolves p q \<Longrightarrow> epoch_evolves q r \<Longrightarrow> epoch_evolves p r"
  by (auto simp: epoch_evolves_def)

lemma store_evolves_refl [simp]: "store_evolves st st"
  unfolding store_evolves_def by (blast intro: job_evolves_refl epoch_evolves_refl)

lemma store_evolves_trans: "store_evolves a b \<Longrightarrow> store_evolves b c \<Longrightarrow> store_evolves a c"
  unfolding store_evolves_def by (meson job_evolves_trans epoch_evolves_trans)

text \<open>The two together are what every operation guarantees; guarantees compose.\<close>

definition safe_step :: "store \<Rightarrow> store \<Rightarrow> bool" where
  "safe_step st st' \<longleftrightarrow> (store_ok st \<longrightarrow> store_ok st' \<and> store_evolves st st')"

lemma safe_stepI:
  assumes "store_ok st \<Longrightarrow> store_ok st'" "store_ok st \<Longrightarrow> store_evolves st st'"
  shows "safe_step st st'"
  using assms by (simp add: safe_step_def)

lemma safe_step_refl [simp]: "safe_step st st"
  by (simp add: safe_step_def)

lemma safe_step_trans: "safe_step a b \<Longrightarrow> safe_step b c \<Longrightarrow> safe_step a c"
  unfolding safe_step_def by (metis store_evolves_trans)

lemma safe_step_same:
  assumes "st_jobs st' = st_jobs st" "st_epochs st' = st_epochs st"
  shows "safe_step st st'"
proof (rule safe_stepI)
  show "store_ok st \<Longrightarrow> store_ok st'" by (rule store_ok_cong [OF _ assms])
  show "store_evolves st st'"
    unfolding store_evolves_def assms by (blast intro: job_evolves_refl epoch_evolves_refl)
qed

lemma safe_step_cong:
  assumes "safe_step st st1" "st_jobs st2 = st_jobs st1" "st_epochs st2 = st_epochs st1"
  shows "safe_step st st2"
  by (rule safe_step_trans [OF assms(1) safe_step_same [OF assms(2,3)]])

section \<open>Updating jobs\<close>

text \<open>
  The contract every operation on job rows meets: a window update that keeps rows consistent and
  evolves claims.
\<close>

locale job_update = window_update +
  assumes keeps_ok: "guard j \<Longrightarrow> job_ok j \<Longrightarrow> job_ok (upd j)"
    and evolves: "guard j \<Longrightarrow> job_ok j \<Longrightarrow> claim_evolves j (upd j)"
begin

lemma store_update:
  assumes "store_ok st"
  shows "store_ok (st\<lparr>st_jobs := update_where guard upd (st_jobs st)\<rparr>)"
proof -
  have "distinct (map jb_job_id (update_where guard upd (st_jobs st)))"
    using assms by (simp add: ids store_ok_def)
  moreover have "job_ok k \<and> known_epoch (st_epochs st) k"
    if "k \<in> set (update_where guard upd (st_jobs st))" for k
    using that
  proof (rule frame_rows)
    fix j assume j: "j \<in> set (st_jobs st)" "jb_session_id k = jb_session_id j"
      "jb_session_epoch k = jb_session_epoch j" "k = j \<or> guard j \<and> k = upd j"
    from store_okD(2,3) [OF assms j(1)] have "job_ok j" "known_epoch (st_epochs st) j" by auto
    with j keeps_ok show ?thesis by (auto simp: known_epoch_def)
  qed
  moreover have "windows_ok c (filter (in_epoch s e) (update_where guard upd (st_jobs st)))"
    if "windows_ok c (filter (in_epoch s e) (st_jobs st))" for c s e
    using windows [OF that] by (simp add: epochs)
  ultimately show ?thesis
    using assms by (simp add: store_ok_def epoch_ok_def epoch_jobs_def)
qed

lemma row_evolves: "job_ok j \<Longrightarrow> job_evolves j (if guard j then upd j else j)"
  using frame evolves by (auto simp: job_evolves_def job_frame_def) (simp add: claim_evolves_def)

theorem safe:
  assumes "st_jobs st' = update_where guard upd (st_jobs st)" "st_epochs st' = st_epochs st"
  shows "safe_step st st'"
proof (rule safe_stepI)
  assume ok: "store_ok st"
  show "store_ok st'"
    by (rule store_ok_cong [OF store_update [OF ok]]) (simp_all add: assms)
  have "\<forall>j \<in> set (st_jobs st). \<exists>k \<in> set (st_jobs st'). job_evolves j k"
  proof
    fix j assume j: "j \<in> set (st_jobs st)"
    then have "(if guard j then upd j else j) \<in> set (st_jobs st')"
      by (auto simp: assms(1) update_where_def)
    with row_evolves [OF store_okD(2) [OF ok j]]
    show "\<exists>k \<in> set (st_jobs st'). job_evolves j k" by blast
  qed
  then show "store_evolves st st'"
    by (auto simp: store_evolves_def assms(2))
qed

end

section \<open>Cursor and epochs\<close>

lemma advance_cursor_ok:
  assumes "store_ok st"
  shows "store_ok (snd (advance_cursor s e now st))"
proof (cases "epoch_at st s e")
  case None
  with assms show ?thesis by (simp add: advance_cursor_def Let_def)
next
  case (Some r)
  then have r: "st_epochs st s = Some r" "eo_epoch r = e"
    by (auto simp: epoch_at_def split: option.splits if_splits)
  let ?js = "epoch_jobs st s e"
  let ?r = "r\<lparr>eo_cursor_seq := settled_prefix ?js (eo_cursor_seq r),
      eo_pending := pending_at ?js (settled_prefix ?js (eo_cursor_seq r)), eo_updated_at := now\<rparr>"
  have st': "snd (advance_cursor s e now st) = st\<lparr>st_epochs := (st_epochs st)(s \<mapsto> ?r)\<rparr>"
    using Some by (simp add: advance_cursor_def Let_def)
  have "windows_ok (settled_prefix ?js (eo_cursor_seq r)) ?js"
    using store_okD(4) [OF assms r(1)] r(2) by (simp add: windows_ok_settled_prefix)
  moreover have "known_epoch ((st_epochs st)(s \<mapsto> ?r)) j" if "j \<in> set (st_jobs st)" for j
    using store_okD(3) [OF assms that] r by (auto simp: known_epoch_def)
  ultimately show ?thesis
    using assms r unfolding st'
    by (auto simp: store_ok_def epoch_ok_def epoch_jobs_def)
qed

lemma ensure_epoch_ok:
  assumes "store_ok st"
  shows "store_ok (snd (ensure_epoch s now st))"
proof (cases "st_epochs st s")
  case None
  have "epoch_jobs st s 1 = []"
    using store_okD(3) [OF assms] None
    by (fastforce simp: epoch_jobs_def filter_empty_conv in_epoch_def known_epoch_def)
  with assms None show ?thesis
    by (fastforce simp: ensure_epoch_def store_ok_def epoch_ok_def epoch_jobs_def known_epoch_def)
next
  case (Some r)
  with assms show ?thesis by (simp add: ensure_epoch_def)
qed

text \<open>Opening the next epoch: it has no jobs yet, so the cursor may restart at 0.\<close>

lemma bump_epoch_ok:
  assumes "store_ok st" "st_epochs st s = Some r"
    "st_jobs st' = st_jobs st"
    "st_epochs st' = (st_epochs st)(s \<mapsto> r')" "eo_epoch r' = eo_epoch r + 1" "eo_cursor_seq r' = 0"
  shows "store_ok st'"
proof -
  have "epoch_jobs st' s (eo_epoch r') = []"
    using store_okD(3) [OF assms(1)] assms(2-5)
    by (fastforce simp: epoch_jobs_def filter_empty_conv in_epoch_def known_epoch_def)
  moreover have "known_epoch (st_epochs st') j" if "j \<in> set (st_jobs st)" for j
    using store_okD(3) [OF assms(1) that] assms(2,4,5) by (auto simp: known_epoch_def)
  moreover have "0 < eo_epoch r'" using store_okD(5) [OF assms(1,2)] assms(5) by simp
  ultimately show ?thesis
    using assms by (auto simp: store_ok_def epoch_ok_def epoch_jobs_def)
qed

text \<open>As guarantees; no job row changes, so only the epoch table is at issue.\<close>

lemma store_evolves_epochs:
  assumes "st_jobs st' = st_jobs st"
    and "\<And>s r. st_epochs st s = Some r \<Longrightarrow> \<exists>q. st_epochs st' s = Some q \<and> epoch_evolves r q"
  shows "store_evolves st st'"
  unfolding store_evolves_def assms(1) using assms(2) by (blast intro: job_evolves_refl)

lemma advance_cursor_safe: "safe_step st (snd (advance_cursor s e now st))"
proof (rule safe_stepI [OF advance_cursor_ok])
  show "store_evolves st (snd (advance_cursor s e now st))"
    by (rule store_evolves_epochs)
      (auto simp: advance_cursor_def Let_def epoch_at_def epoch_evolves_def settled_prefix_ge
        split: option.splits if_splits)
qed

lemma ensure_epoch_safe: "safe_step st (snd (ensure_epoch s now st))"
proof (rule safe_stepI [OF ensure_epoch_ok])
  show "store_evolves st (snd (ensure_epoch s now st))"
    by (rule store_evolves_epochs) (auto simp: ensure_epoch_def split: option.splits)
qed

lemma bump_epoch_safe:
  assumes "st_epochs st s = Some r" "st_jobs st' = st_jobs st"
    "st_epochs st' = (st_epochs st)(s \<mapsto> r')" "eo_epoch r' = eo_epoch r + 1" "eo_cursor_seq r' = 0"
  shows "safe_step st st'"
proof (rule safe_stepI)
  show "store_ok st \<Longrightarrow> store_ok st'" by (rule bump_epoch_ok [OF _ assms])
  show "store_evolves st st'"
    by (rule store_evolves_epochs [OF assms(2)]) (use assms in \<open>auto simp: epoch_evolves_def\<close>)
qed

section \<open>Planning keeps the invariant\<close>

lemma plan_windows_ok:
  assumes ok: "store_ok st" and r: "st_epochs st (cx_session_id c) = Some r" "eo_epoch r = epoch"
    and plan: "plan_windows h c epoch now uuid st (plan_ranges width start observed)
        \<lparr>ps_jobs = st_jobs st, ps_queued = 0, ps_duplicates = d, ps_blocked = False\<rparr> = Some ps"
    and start: "start = tiles_end 0 (epoch_jobs st (cx_session_id c) epoch)" "start \<le> observed"
    and width: "2 \<le> width"
  shows "store_ok (st\<lparr>st_jobs := ps_jobs ps\<rparr>)"
proof -
  let ?s = "cx_session_id c" and ?js = "epoch_jobs st (cx_session_id c) epoch"
  have w: "windows_ok (eo_cursor_seq r) ?js" using store_okD(4) [OF ok r(1)] r(2) by simp
  then have t: "tiles 0 ?js" by (simp add: windows_ok_def)
  have "\<forall>j \<in> set (st_jobs st). in_epoch ?s epoch j \<longrightarrow> jb_end_seq j \<le> start"
    using tiles_bounds [OF t] start(1) by (auto simp: epoch_jobs_def)
  then obtain new where new: "ps_jobs ps = st_jobs st @ new"
    "map (\<lambda>j. (jb_start_seq j, jb_end_seq j)) new = plan_ranges width start observed"
    "\<forall>j \<in> set new. planned_job h c epoch j" "distinct (map jb_job_id (ps_jobs ps))"
    using plan_windows_adds [OF plan plan_ranges_covers(1) [OF width start(2)]] store_okD(1) [OF ok]
    by auto
  have tn: "tiles (tiles_end 0 ?js) new"
    using plan_ranges_covers(1) [OF width start(2)] start(1) new(2) tiles_of_chain(1) by metis
  have own: "filter (in_epoch ?s epoch) new = new"
    using new(3) by (simp add: filter_id_conv planned_job_def)
  have other: "filter (in_epoch s e) new = []" if "(s, e) \<noteq> (?s, epoch)" for s e
    using new(3) that by (auto simp: filter_empty_conv planned_job_def in_epoch_def)
  have "windows_ok (eo_cursor_seq q) (filter (in_epoch s (eo_epoch q)) (ps_jobs ps))"
    if q: "st_epochs st s = Some q" for s q
  proof (cases "s = ?s")
    case True
    with q r windows_ok_extend [OF w tn] own show ?thesis by (simp add: new(1) epoch_jobs_def)
  next
    case False
    with other store_okD(4) [OF ok q] show ?thesis by (simp add: new(1) epoch_jobs_def)
  qed
  moreover have "job_ok j \<and> known_epoch (st_epochs st) j" if "j \<in> set new" for j
    using new(3) that r
    by (auto simp: planned_job_def job_ok_def known_epoch_def in_epoch_def max_attempts_def)
  ultimately show ?thesis
    using ok new(1,4) by (auto simp: store_ok_def epoch_ok_def epoch_jobs_def)
qed

lemma plan_from_ok:
  assumes ok: "store_ok st" and r: "st_epochs st (cx_session_id c) = Some r" "eo_epoch r = epoch"
    "eo_cursor_seq r = cx_start_seq c"
    and f: "validated_frontier (cx_session_id c) epoch (eo_cursor_seq r) st = Some frontier"
      "frontier \<le> observed"
    and plan: "plan_from h c epoch now active_now uuid frontier observed st = Some (st', res)"
  shows "store_ok st'"
proof -
  have w: "windows_ok (eo_cursor_seq r) (epoch_jobs st (cx_session_id c) epoch)"
    using store_okD(4) [OF ok r(1)] r(2) by simp
  with f(1) have fe: "frontier = tiles_end 0 (epoch_jobs st (cx_session_id c) epoch)"
    by (simp add: validated_frontier_windows)
  have start: "max frontier (cx_start_seq c) = frontier"
    using windows_ok_cursor_le [OF w] fe r(3) by simp
  from plan obtain ps d where ps: "plan_windows h c epoch now uuid st
      (plan_ranges (max 2 (cx_window_size c)) frontier observed)
      \<lparr>ps_jobs = st_jobs st, ps_queued = 0, ps_duplicates = d, ps_blocked = False\<rparr> = Some ps"
    and st': "st' = snd (advance_cursor (cx_session_id c) epoch now (st\<lparr>st_jobs := ps_jobs ps\<rparr>))"
    by (auto simp: plan_from_def Let_def start split: option.splits)
  show ?thesis unfolding st'
    by (rule advance_cursor_ok)
      (rule plan_windows_ok [OF ok r(1,2) ps fe f(2)], simp)
qed

lemma ensure_epoch_row:
  "\<exists>r. st_epochs (snd (ensure_epoch s now st)) s = Some r \<and>
     eo_epoch r = fst (fst (ensure_epoch s now st)) \<and>
     eo_cursor_seq r = snd (fst (ensure_epoch s now st))"
  by (cases "st_epochs st s") (simp_all add: ensure_epoch_def)

theorem plan_and_enqueue_ok:
  assumes "store_ok st"
  shows "store_ok (fst (plan_and_enqueue_windows h c observed strict now active_now uuid st))"
proof -
  let ?es = "ensure_epoch (cx_session_id c) now st"
  have ok1: "store_ok (snd ?es)" by (rule ensure_epoch_ok [OF assms])
  obtain r where r: "st_epochs (snd ?es) (cx_session_id c) = Some r" "eo_epoch r = fst (fst ?es)"
    "eo_cursor_seq r = snd (fst ?es)"
    using ensure_epoch_row by blast
  show ?thesis
  proof (cases "\<exists>st2 frontier st3 res. snd (fst ?es) = cx_start_seq c \<and>
      persist_scope_snapshot c (snd ?es) = Inr st2 \<and>
      validated_frontier (cx_session_id c) (fst (fst ?es)) (snd (fst ?es)) st2 = Some frontier \<and>
      frontier \<le> observed \<and>
      plan_from h c (fst (fst ?es)) now active_now uuid frontier observed st2 = Some (st3, res) \<and>
      fst (plan_and_enqueue_windows h c observed strict now active_now uuid st) = st3")
    case True
    then obtain st2 frontier st3 res where p: "snd (fst ?es) = cx_start_seq c"
      "persist_scope_snapshot c (snd ?es) = Inr st2"
      "validated_frontier (cx_session_id c) (fst (fst ?es)) (snd (fst ?es)) st2 = Some frontier"
      "frontier \<le> observed"
      "plan_from h c (fst (fst ?es)) now active_now uuid frontier observed st2 = Some (st3, res)"
      "fst (plan_and_enqueue_windows h c observed strict now active_now uuid st) = st3" by blast
    note fr = persist_scope_frame [OF p(2)]
    have ok2: "store_ok st2" by (rule store_ok_cong [OF ok1]) (simp_all add: fr)
    have "store_ok st3"
      by (rule plan_from_ok [OF ok2 _ _ _ _ p(4) p(5)]) (use r fr p in auto)
    with p(6) show ?thesis by simp
  next
    case False
    then have "fst (plan_and_enqueue_windows h c observed strict now active_now uuid st) = st"
      by (auto simp: plan_and_enqueue_windows_def planning_error_def Let_def
          split: sum.splits option.splits if_splits)
    with assms show ?thesis by simp
  qed
qed

text \<open>A plan only appends rows and moves the cursor, so it is a safe step as well.\<close>

lemma plan_window_extends:
  "plan_window h c epoch now uuid st rng ps = Some ps' \<Longrightarrow> \<exists>new. ps_jobs ps' = ps_jobs ps @ new"
  by (auto simp: plan_window_def Let_def bind_eq_Some_conv dest: insert_job_Some split: if_splits)

lemma plan_windows_extends:
  "plan_windows h c epoch now uuid st rs ps = Some ps' \<Longrightarrow> \<exists>new. ps_jobs ps' = ps_jobs ps @ new"
proof (induction rs arbitrary: ps)
  case (Cons r rs)
  then obtain p1 where p1: "plan_window h c epoch now uuid st r ps = Some p1"
    and "plan_windows h c epoch now uuid st rs p1 = Some ps'" by (auto split: option.splits)
  with Cons.IH plan_window_extends [OF p1] show ?case by fastforce
qed simp

lemma plan_from_evolves:
  assumes "plan_from h c epoch now active_now uuid frontier observed st = Some (st', res)"
  shows "store_evolves st st'"
proof -
  obtain rs ps0 ps where ps: "plan_windows h c epoch now uuid st rs ps0 = Some ps"
    "ps_jobs ps0 = st_jobs st"
    and st': "st' = snd (advance_cursor (cx_session_id c) epoch now (st\<lparr>st_jobs := ps_jobs ps\<rparr>))"
    using assms by (auto simp: plan_from_def Let_def split: option.splits)
  have "set (st_jobs st) \<subseteq> set (ps_jobs ps)"
    using plan_windows_extends [OF ps(1)] ps(2) by auto
  then have 1: "store_evolves st (st\<lparr>st_jobs := ps_jobs ps\<rparr>)"
    by (auto simp: store_evolves_def intro!: epoch_evolves_refl)
      (use job_evolves_refl in blast)
  have 2: "store_evolves (st\<lparr>st_jobs := ps_jobs ps\<rparr>) st'"
    unfolding st'
    by (rule store_evolves_epochs)
      (auto simp: advance_cursor_def Let_def epoch_at_def epoch_evolves_def settled_prefix_ge
        split: option.splits if_splits)
  from 1 2 show ?thesis by (rule store_evolves_trans)
qed

lemma plan_and_enqueue_cases:
  "fst (plan_and_enqueue_windows h c observed strict now active_now uuid st) = st \<or>
   (\<exists>st2 frontier st3 res.
      persist_scope_snapshot c (snd (ensure_epoch (cx_session_id c) now st)) = Inr st2 \<and>
      plan_from h c (fst (fst (ensure_epoch (cx_session_id c) now st))) now active_now uuid frontier
        observed st2 = Some (st3, res) \<and>
      fst (plan_and_enqueue_windows h c observed strict now active_now uuid st) = st3)"
  by (auto simp: plan_and_enqueue_windows_def planning_error_def Let_def
      split: sum.splits option.splits if_splits)

lemma plan_and_enqueue_safe:
  "safe_step st (fst (plan_and_enqueue_windows h c observed strict now active_now uuid st))"
proof (rule safe_stepI [OF plan_and_enqueue_ok])
  assume ok: "store_ok st"
  let ?st1 = "snd (ensure_epoch (cx_session_id c) now st)"
  have 1: "store_evolves st ?st1"
    using ensure_epoch_safe ok by (simp add: safe_step_def)
  show "store_evolves st (fst (plan_and_enqueue_windows h c observed strict now active_now uuid st))"
    using plan_and_enqueue_cases [of h c observed strict now active_now uuid st]
  proof (elim disjE exE conjE)
    assume "fst (plan_and_enqueue_windows h c observed strict now active_now uuid st) = st"
    then show ?thesis by simp
  next
    fix st2 frontier st3 res
    assume p: "persist_scope_snapshot c ?st1 = Inr st2"
      "plan_from h c (fst (fst (ensure_epoch (cx_session_id c) now st))) now active_now uuid
         frontier observed st2 = Some (st3, res)"
      "fst (plan_and_enqueue_windows h c observed strict now active_now uuid st) = st3"
    have "store_evolves ?st1 st2"
      by (rule store_evolves_epochs)
        (use persist_scope_frame [OF p(1)] in \<open>auto intro: epoch_evolves_refl\<close>)
    with 1 plan_from_evolves [OF p(2)] p(3) show ?thesis
      by (metis store_evolves_trans)
  qed
qed

end
