(* ===== verification/Summary_Claims.thy ===== *)
theory Summary_Claims
  imports Summary_Invariant
begin

text \<open>
  Claiming (\<open>summary_store_claim.py\<close>): the mapping of a row to its data object, \<open>claim_ready\<close> with
  its session order, round-robin cursor and parallelism limits, the claim fence that every later
  operation checks, and the candidate intents written under a claim. The lemmas show that a claim
  is exclusive, that it matches as soon as it is handed out, and that the limits hold.
\<close>

section \<open>Rows as data objects\<close>

text \<open>The arguments \<open>_job\<close> passes to the \<open>SummaryJob\<close> constructor.\<close>

definition job_dto :: "job \<Rightarrow> summary_job" where
  "job_dto j =
     \<lparr>sj_job_id = jb_job_id j, sj_session_id = jb_session_id j,
      sj_session_epoch = jb_session_epoch j, sj_start_seq = jb_start_seq j,
      sj_end_seq = jb_end_seq j, sj_expected_count = jb_expected_count j,
      sj_source_digest = jb_source_digest j, sj_status = jb_status j,
      sj_persona_id = jb_persona_id j, sj_chat_type = jb_chat_type j,
      sj_group_id = jb_group_id j, sj_scope_id = jb_scope_id j,
      sj_gate_revision = jb_gate_revision j,
      sj_gate_snapshot_json =
        (if jb_gate_snapshot_json j = [] then ''{}'' else jb_gate_snapshot_json j),
      sj_triggered_by = jb_triggered_by j, sj_attempt_count = jb_attempt_count j,
      sj_next_attempt_at = jb_next_attempt_at j, sj_lease_until = jb_lease_until j,
      sj_worker_generation = jb_worker_generation j, sj_failed_stage = jb_failed_stage j,
      sj_reason_code = jb_reason_code j, sj_exception_type = jb_exception_type j,
      sj_operator_action = jb_operator_action j, sj_canonical_count = jb_canonical_count j,
      sj_quarantine_count = jb_quarantine_count j, sj_discard_count = jb_discard_count j,
      sj_mark_write_count = jb_mark_write_count j, sj_failed_count = jb_failed_count j,
      sj_skipped_count = jb_skipped_count j, sj_created_at = jb_created_at j,
      sj_updated_at = jb_updated_at j, sj_scope_key = coalesce [] (jb_scope_key j),
      sj_privacy_level = jb_privacy_level j,
      sj_resolver_revision = coalesce [] (jb_resolver_revision j),
      sj_scope_reason_code =
        (if jb_scope_complete j then ''scope_resolved'' else ''scope_unavailable''),
      sj_scope_provenance_complete = Some (jb_scope_complete j)\<rparr>"

definition row_job :: "(string \<Rightarrow> json_kind option) \<Rightarrow> job \<Rightarrow> summary_job result" where
  "row_job json j = make_job json (job_dto j)"

section \<open>The source fence\<close>

text \<open>
  \<open>SummarySourceFence\<close> (\<open>core/shared/summary_source_fence.py\<close>): the immutable description of a
  claim that is handed to other stores.
\<close>

record source_fence =
  fn_job_id :: string
  fn_session_id :: string
  fn_session_epoch :: int
  fn_start_seq :: int
  fn_end_seq :: int
  fn_expected_count :: int
  fn_source_digest :: string
  fn_worker_generation :: int
  fn_claim_token :: string
  fn_scope_key :: "string option"
  fn_privacy_level :: "string option"
  fn_resolver_revision :: "string option"
  fn_scope_provenance_complete :: "bool option"

definition fence_error :: py_error where
  "fence_error = ValueError ''summary_source_fence_invalid''"

definition fence_identity_ok :: "source_fence \<Rightarrow> bool" where
  "fence_identity_ok f \<longleftrightarrow>
     py_strip (fn_job_id f) \<noteq> [] \<and> py_strip (fn_session_id f) \<noteq> [] \<and>
     0 < fn_session_epoch f \<and> 0 \<le> fn_start_seq f \<and> fn_start_seq f < fn_end_seq f \<and>
     fn_expected_count f = fn_end_seq f - fn_start_seq f \<and> 0 < fn_worker_generation f \<and>
     py_strip (fn_source_digest f) \<noteq> [] \<and> length (py_strip (fn_source_digest f)) \<le> 128 \<and>
     py_strip (fn_claim_token f) \<noteq> []"

definition make_source_fence :: "source_fence \<Rightarrow> source_fence result" where
  "make_source_fence f =
     (let key = map_option py_strip (fn_scope_key f);
          priv = map_option py_strip (fn_privacy_level f);
          rv = map_option py_strip (fn_resolver_revision f);
          full = (\<forall>v \<in> {key, priv, rv}. coalesce [] v \<noteq> []);
          marker = fn_scope_provenance_complete f in
      bind_result (guard_result (fence_identity_ok f) fence_error) (\<lambda>_.
      bind_result (guard_result ((\<forall>v \<in> {key, priv, rv}. v = None) \<or> full) fence_error) (\<lambda>_.
      bind_result (guard_result (priv = None \<or> coalesce [] priv \<in> set privacy_levels) fence_error) (\<lambda>_.
      bind_result (guard_result (marker = Some True \<longrightarrow> full) fence_error) (\<lambda>_.
      Inr (f\<lparr>fn_scope_key := key, fn_privacy_level := priv, fn_resolver_revision := rv,
            fn_scope_provenance_complete :=
              (if marker = None \<and> full then Some True else marker)\<rparr>))))))"

definition has_exact_scope :: "source_fence \<Rightarrow> bool" where
  "has_exact_scope f \<longleftrightarrow> fn_scope_provenance_complete f = Some True \<and>
     coalesce [] (fn_scope_key f) \<noteq> [] \<and> coalesce [] (fn_privacy_level f) \<noteq> [] \<and>
     coalesce [] (fn_resolver_revision f) \<noteq> []"

text \<open>The fields of a claim the fence query compares.\<close>

definition claim_fence :: "claimed_job \<Rightarrow> source_fence" where
  "claim_fence c = (let j = cj_job c in
     \<lparr>fn_job_id = sj_job_id j, fn_session_id = sj_session_id j,
      fn_session_epoch = sj_session_epoch j, fn_start_seq = sj_start_seq j,
      fn_end_seq = sj_end_seq j, fn_expected_count = sj_expected_count j,
      fn_source_digest = sj_source_digest j, fn_worker_generation = cj_worker_generation c,
      fn_claim_token = cj_claim_token c, fn_scope_key = Some (sj_scope_key j),
      fn_privacy_level = sj_privacy_level j, fn_resolver_revision = Some (sj_resolver_revision j),
      fn_scope_provenance_complete = sj_scope_provenance_complete j\<rparr>)"

text \<open>The \<open>WHERE\<close> clause of \<open>_claim_matches\<close> and of \<open>summary_source_fence_is_active\<close>.\<close>

definition fence_row :: "source_fence \<Rightarrow> real \<Rightarrow> store \<Rightarrow> job \<Rightarrow> bool" where
  "fence_row f now st j \<longleftrightarrow>
     current_job st j \<and> jb_job_id j = fn_job_id f \<and> jb_session_id j = fn_session_id f \<and>
     jb_session_epoch j = fn_session_epoch f \<and> jb_start_seq j = fn_start_seq f \<and>
     jb_end_seq j = fn_end_seq f \<and> jb_expected_count j = fn_expected_count f \<and>
     jb_source_digest j = fn_source_digest f \<and>
     coalesce [] (jb_scope_key j) = coalesce [] (fn_scope_key f) \<and>
     coalesce [] (jb_privacy_level j) = coalesce [] (fn_privacy_level f) \<and>
     coalesce [] (jb_resolver_revision j) = coalesce [] (fn_resolver_revision f) \<and>
     jb_scope_complete j = (fn_scope_provenance_complete f = Some True) \<and>
     jb_status j = Running \<and> jb_claim_token j = Some (fn_claim_token f) \<and>
     jb_worker_generation j = fn_worker_generation f \<and>
     (case jb_lease_until j of None \<Rightarrow> False | Some t \<Rightarrow> now < t)"

definition summary_source_fence_is_active :: "source_fence \<Rightarrow> real \<Rightarrow> store \<Rightarrow> bool" where
  "summary_source_fence_is_active f now st \<longleftrightarrow>
     st_connected st \<and> list_ex (fence_row f now st) (st_jobs st)"

definition claim_matches :: "claimed_job \<Rightarrow> real \<Rightarrow> store \<Rightarrow> bool" where
  "claim_matches c now st \<longleftrightarrow> list_ex (fence_row (claim_fence c) now st) (st_jobs st)"

definition claim_is_active :: "claimed_job \<Rightarrow> real \<Rightarrow> store \<Rightarrow> bool" where
  "claim_is_active c now st \<longleftrightarrow> st_connected st \<and> claim_matches c now st"

section \<open>Claiming ready jobs\<close>

definition round_robin_key :: string where "round_robin_key = ''summary_round_robin_cursor''"

text \<open>\<open>{item: index for index, item in enumerate(session_order)}.get(s, len(order))\<close>.\<close>

definition order_index :: "string list \<Rightarrow> string \<Rightarrow> int" where
  "order_index xs s =
     (case map_of (rev (zip xs [0..<length xs])) s of
        Some i \<Rightarrow> int i
      | None \<Rightarrow> int (length (remdups xs)))"

text \<open>\<open>persisted_after or after\<close>: the cursor of the last call wins over the caller's hint.\<close>

definition claim_after :: "store \<Rightarrow> string option \<Rightarrow> string option" where
  "claim_after st hint =
     (let persisted = coalesce [] (st_meta st round_robin_key) in
      if persisted \<noteq> [] then Some persisted else none_if_empty (coalesce [] hint))"

definition claim_key ::
  "string option \<Rightarrow> string list \<Rightarrow> job \<Rightarrow> int \<times> real \<times> int \<times> string" where
  "claim_key after order j =
     ((case after of
         Some a \<Rightarrow> if a < jb_session_id j then 0 else 1
       | None \<Rightarrow> order_index order (jb_session_id j)),
      jb_created_at j, jb_start_seq j, jb_job_id j)"

definition ready_row :: "store \<Rightarrow> real \<Rightarrow> job \<Rightarrow> bool" where
  "ready_row st stamp j \<longleftrightarrow>
     current_job st j \<and> jb_status j \<in> {Queued, Failed} \<and> jb_attempt_count j < 3 \<and>
     jb_next_attempt_at j \<le> stamp"

definition active_row :: "store \<Rightarrow> real \<Rightarrow> job \<Rightarrow> bool" where
  "active_row st stamp j \<longleftrightarrow>
     current_job st j \<and> jb_status j = Running \<and>
     (case jb_lease_until j of None \<Rightarrow> False | Some t \<Rightarrow> stamp < t)"

text \<open>The guarded update of one candidate row, and the update that blocks a row with invalid data.\<close>

definition claim_guard :: "job \<Rightarrow> real \<Rightarrow> job \<Rightarrow> bool" where
  "claim_guard item stamp j \<longleftrightarrow>
     jb_job_id j = jb_job_id item \<and> jb_session_id j = jb_session_id item \<and>
     jb_session_epoch j = jb_session_epoch item \<and> jb_status j \<in> {Queued, Failed} \<and>
     jb_attempt_count j < 3 \<and> jb_next_attempt_at j \<le> stamp"

definition claim_update :: "job \<Rightarrow> string \<Rightarrow> real \<Rightarrow> real \<Rightarrow> job \<Rightarrow> job" where
  "claim_update item token lease stamp j = j\<lparr>jb_status := Running,
     jb_attempt_count := jb_attempt_count j + 1, jb_claim_token := Some token,
     jb_lease_until := Some lease, jb_worker_generation := jb_worker_generation item + 1,
     jb_updated_at := stamp\<rparr>"

definition invalid_guard :: "string \<Rightarrow> string \<Rightarrow> job \<Rightarrow> bool" where
  "invalid_guard jid token j \<longleftrightarrow>
     jb_job_id j = jid \<and> jb_status j = Running \<and> jb_claim_token j = Some token"

definition invalid_update :: "real \<Rightarrow> job \<Rightarrow> job" where
  "invalid_update stamp j = j\<lparr>jb_status := Blocked, jb_failed_stage := Some ''claim_validate'',
     jb_reason_code := RBlocked, jb_claim_token := None, jb_lease_until := None,
     jb_updated_at := stamp\<rparr>"

record claim_params =
  cp_json :: "string \<Rightarrow> json_kind option"
  cp_scheduler :: string
  cp_token :: "string \<Rightarrow> string"
  cp_stamp :: real
  cp_lease :: real
  cp_limit :: int
  cp_per_session :: int
  cp_available :: "int option"

record claim_state =
  cs_jobs :: "job list"
  cs_claims :: "claimed_job list"
  cs_sessions :: "string list"
  cs_active :: "string \<Rightarrow> int"

text \<open>
  The body of the loop after the limits: the guarded update, the re-read, the validation. The result
  \<open>None\<close> is an exception that aborts the whole call. \<open>cp_token\<close> gives the token drawn for a job.
\<close>

definition claim_one :: "claim_params \<Rightarrow> job \<Rightarrow> claim_state \<Rightarrow> claim_state option" where
  "claim_one cp item cs =
     (let token = cp_token cp (jb_job_id item); stamp = cp_stamp cp; s = jb_session_id item in
      if rowcount (claim_guard item stamp) (cs_jobs cs) \<noteq> 1 then Some cs
      else (let jobs = update_where (claim_guard item stamp)
                   (claim_update item token (cp_lease cp) stamp) (cs_jobs cs);
                cs1 = cs\<lparr>cs_jobs := jobs\<rparr> in
        case fetch_one (\<lambda>j. jb_job_id j = jb_job_id item) jobs of
          None \<Rightarrow> Some cs1
        | Some fresh \<Rightarrow> (case row_job (cp_json cp) fresh of
            Inl _ \<Rightarrow>
              if rowcount (invalid_guard (jb_job_id item) token) jobs \<noteq> 1 then None
              else Some (cs\<lparr>cs_jobs :=
                update_where (invalid_guard (jb_job_id item) token) (invalid_update stamp) jobs\<rparr>)
          | Inr dto \<Rightarrow>
             (case make_claim dto token (cp_scheduler cp) (cp_lease cp)
                 (jb_worker_generation item + 1) of
                Inl _ \<Rightarrow> None
              | Inr claim \<Rightarrow> Some \<lparr>cs_jobs = jobs, cs_claims = cs_claims cs @ [claim],
                  cs_sessions = s # cs_sessions cs,
                  cs_active = (cs_active cs)(s := cs_active cs s + 1)\<rparr>))))"

definition claims_full :: "claim_params \<Rightarrow> claim_state \<Rightarrow> bool" where
  "claims_full cp cs \<longleftrightarrow>
     cp_limit cp \<le> int (length (cs_claims cs)) \<or>
     (case cp_available cp of None \<Rightarrow> False | Some n \<Rightarrow> n \<le> int (length (cs_claims cs)))"

definition session_busy :: "claim_params \<Rightarrow> claim_state \<Rightarrow> string \<Rightarrow> bool" where
  "session_busy cp cs s \<longleftrightarrow>
     s \<in> set (cs_sessions cs) \<or> max 1 (cp_per_session cp) \<le> cs_active cs s"

fun claim_loop :: "claim_params \<Rightarrow> job list \<Rightarrow> claim_state \<Rightarrow> claim_state option" where
  "claim_loop cp [] cs = Some cs"
| "claim_loop cp (item # items) cs =
     (if claims_full cp cs then Some cs
      else if session_busy cp cs (jb_session_id item) then claim_loop cp items cs
      else case claim_one cp item cs of
             None \<Rightarrow> None
           | Some cs' \<Rightarrow> claim_loop cp items cs')"

definition claim_ready ::
  "(string \<Rightarrow> json_kind option) \<Rightarrow> real \<Rightarrow> string \<Rightarrow> int \<Rightarrow> int \<Rightarrow> int \<Rightarrow> string list \<Rightarrow>
   string option \<Rightarrow> int option \<Rightarrow> (string \<Rightarrow> string) \<Rightarrow> store \<Rightarrow> store \<times> claimed_job list result" where
  "claim_ready json now scheduler limit per_session lease_seconds order hint global_limit token st =
     (if \<not> st_connected st \<or> limit \<le> 0 then (st, Inr [])
      else (let stamp = max 0 now;
                rows = sort_key (claim_key (claim_after st hint) order)
                         (filter (ready_row st stamp) (st_jobs st));
                active = (\<lambda>s. rowcount (\<lambda>j. active_row st stamp j \<and> jb_session_id j = s) (st_jobs st));
                total = rowcount (active_row st stamp) (st_jobs st);
                cp = \<lparr>cp_json = json, cp_scheduler = scheduler, cp_token = token, cp_stamp = stamp,
                      cp_lease = stamp + of_int (max 1 lease_seconds), cp_limit = limit,
                      cp_per_session = per_session,
                      cp_available = map_option (\<lambda>g. max 0 (g - total)) global_limit\<rparr>
            in case claim_loop cp rows
                 \<lparr>cs_jobs = st_jobs st, cs_claims = [], cs_sessions = [], cs_active = active\<rparr> of
                 None \<Rightarrow> (st, Inl (RuntimeError ''summary_claim_failed''))
               | Some cs \<Rightarrow>
                   (st\<lparr>st_jobs := cs_jobs cs,
                      st_meta := (if cs_claims cs = [] then st_meta st
                        else (st_meta st)(round_robin_key \<mapsto>
                          sj_session_id (cj_job (last (cs_claims cs)))))\<rparr>,
                    Inr (cs_claims cs))))"

section \<open>Claiming keeps the store safe\<close>

interpretation claiming: job_update
  "\<lambda>j. claim_guard item stamp j \<and> jb_worker_generation j = jb_worker_generation item"
  "claim_update item token lease stamp"
  for item stamp token lease
  by unfold_locales
    (auto simp: job_frame_def claim_guard_def claim_update_def spent_status_def job_ok_def
      claim_evolves_def max_attempts_def)

interpretation invalidating: job_update "invalid_guard jid token" "invalid_update stamp"
  for jid token stamp
  by unfold_locales
    (auto simp: job_frame_def invalid_guard_def invalid_update_def spent_status_def job_ok_def
      claim_evolves_def)

text \<open>A ready row of the table is the only row its guard selects.\<close>

lemma claim_guard_unique:
  assumes "distinct (map jb_job_id js)" "item \<in> set js" "ready_row st stamp item" "j \<in> set js"
  shows "claim_guard item stamp j \<longleftrightarrow> jb_job_id j = jb_job_id item"
  using key_unique [OF assms(1,2,4)] assms(3) by (auto simp: claim_guard_def ready_row_def)

definition claimed_row :: "claim_params \<Rightarrow> job \<Rightarrow> job" where
  "claimed_row cp item = claim_update item (cp_token cp (jb_job_id item)) (cp_lease cp) (cp_stamp cp) item"

lemma claim_one_eval:
  assumes d: "distinct (map jb_job_id (cs_jobs cs))" and item: "item \<in> set (cs_jobs cs)"
    and ready: "ready_row st (cp_stamp cp) item"
  shows "claim_one cp item cs = (case row_job (cp_json cp) (claimed_row cp item) of
      Inl _ \<Rightarrow> Some (cs\<lparr>cs_jobs := update_where (\<lambda>j. jb_job_id j = jb_job_id item)
           (\<lambda>_. invalid_update (cp_stamp cp) (claimed_row cp item)) (cs_jobs cs)\<rparr>)
    | Inr dto \<Rightarrow> (case make_claim dto (cp_token cp (jb_job_id item)) (cp_scheduler cp) (cp_lease cp)
          (jb_worker_generation item + 1) of
        Inl _ \<Rightarrow> None
      | Inr claim \<Rightarrow> Some \<lparr>cs_jobs = update_where (\<lambda>j. jb_job_id j = jb_job_id item)
           (\<lambda>_. claimed_row cp item) (cs_jobs cs),
         cs_claims = cs_claims cs @ [claim], cs_sessions = jb_session_id item # cs_sessions cs,
         cs_active = (cs_active cs)(jb_session_id item := cs_active cs (jb_session_id item) + 1)\<rparr>))"
proof -
  let ?tok = "cp_token cp (jb_job_id item)" and ?id = "jb_job_id item"
  let ?jobs = "update_where (\<lambda>j. jb_job_id j = ?id) (\<lambda>_. claimed_row cp item) (cs_jobs cs)"
  have "rowcount (claim_guard item (cp_stamp cp)) (cs_jobs cs) =
      rowcount (\<lambda>j. jb_job_id j = ?id) (cs_jobs cs)"
    by (rule rowcount_cong) (rule claim_guard_unique [OF d item ready])
  then have 1: "rowcount (claim_guard item (cp_stamp cp)) (cs_jobs cs) = 1"
    using rowcount_key [OF d item] by simp
  have 2: "update_where (claim_guard item (cp_stamp cp))
      (claim_update item ?tok (cp_lease cp) (cp_stamp cp)) (cs_jobs cs) = ?jobs"
    by (rule update_where_cong)
      (use claim_guard_unique [OF d item ready] key_unique [OF d item] in
        \<open>auto simp: claimed_row_def\<close>)
  have id: "jb_job_id (claimed_row cp item) = ?id" by (simp add: claimed_row_def claim_update_def)
  have d': "distinct (map jb_job_id ?jobs)"
  proof -
    have "map jb_job_id ?jobs = map jb_job_id (cs_jobs cs)" by (auto simp: update_where_def id)
    with d show ?thesis by simp
  qed
  have mem: "claimed_row cp item \<in> set ?jobs" using item by (auto simp: set_update_where)
  have 3: "fetch_one (\<lambda>j. jb_job_id j = ?id) ?jobs = Some (claimed_row cp item)"
    using fetch_one_key [OF d' mem] by (simp add: id)
  have g: "invalid_guard ?id ?tok j \<longleftrightarrow> jb_job_id j = ?id" if "j \<in> set ?jobs" for j
    using key_unique [OF d' mem that]
    by (auto simp: invalid_guard_def id) (auto simp: claimed_row_def claim_update_def)
  have "rowcount (invalid_guard ?id ?tok) ?jobs = rowcount (\<lambda>j. jb_job_id j = ?id) ?jobs"
    by (rule rowcount_cong) (rule g)
  then have 4: "rowcount (invalid_guard ?id ?tok) ?jobs = 1"
    using rowcount_key [OF d' mem] by (simp add: id)
  have 5: "update_where (invalid_guard ?id ?tok) (invalid_update (cp_stamp cp)) ?jobs =
      update_where (\<lambda>j. jb_job_id j = ?id) (\<lambda>_. invalid_update (cp_stamp cp) (claimed_row cp item))
        (cs_jobs cs)"
    using g by (auto simp: update_where_def id)
  show ?thesis by (simp add: claim_one_def 1 2 3 4 5 Let_def split: sum.splits)
qed

lemma claim_one_cases:
  assumes one: "claim_one cp item cs = Some cs'"
    and d: "distinct (map jb_job_id (cs_jobs cs))" and item: "item \<in> set (cs_jobs cs)"
    and ready: "ready_row st (cp_stamp cp) item"
  obtains
    (claimed) dto claim where "row_job (cp_json cp) (claimed_row cp item) = Inr dto"
      "make_claim dto (cp_token cp (jb_job_id item)) (cp_scheduler cp) (cp_lease cp)
         (jb_worker_generation item + 1) = Inr claim"
      "cs' = \<lparr>cs_jobs = update_where (\<lambda>j. jb_job_id j = jb_job_id item)
           (\<lambda>_. claimed_row cp item) (cs_jobs cs),
         cs_claims = cs_claims cs @ [claim], cs_sessions = jb_session_id item # cs_sessions cs,
         cs_active = (cs_active cs)(jb_session_id item := cs_active cs (jb_session_id item) + 1)\<rparr>"
  | (blocked) e where "row_job (cp_json cp) (claimed_row cp item) = Inl e"
      "cs' = cs\<lparr>cs_jobs := update_where (\<lambda>j. jb_job_id j = jb_job_id item)
           (\<lambda>_. invalid_update (cp_stamp cp) (claimed_row cp item)) (cs_jobs cs)\<rparr>"
  using one unfolding claim_one_eval [OF d item ready]
  by (cases "row_job (cp_json cp) (claimed_row cp item)") (auto split: sum.splits)

section \<open>The loop\<close>

lemma active_row_jobs [simp]: "active_row (st\<lparr>st_jobs := js\<rparr>) = active_row st"
  by (simp add: fun_eq_iff active_row_def current_job_def epoch_at_def)

text \<open>One iteration, on the tables: a safe step that touches no other job.\<close>

lemma claim_row_safe:
  assumes ok: "store_ok st" and item: "item \<in> set (st_jobs st)"
    and ready: "ready_row st0 stamp item"
  shows "safe_step st (st\<lparr>st_jobs := update_where (\<lambda>j. jb_job_id j = jb_job_id item)
      (\<lambda>_. claim_update item token lease stamp item) (st_jobs st)\<rparr>)"
proof -
  note d = store_okD(1) [OF ok]
  have "update_where (\<lambda>j. jb_job_id j = jb_job_id item)
      (\<lambda>_. claim_update item token lease stamp item) (st_jobs st) =
    update_where (\<lambda>j. claim_guard item stamp j \<and> jb_worker_generation j = jb_worker_generation item)
      (claim_update item token lease stamp) (st_jobs st)"
    by (rule update_where_cong)
      (use claim_guard_unique [OF d item ready] key_unique [OF d item] in auto)
  then show ?thesis by (intro claiming.safe) auto
qed

lemma block_row_safe:
  assumes ok: "store_ok st" and item: "item \<in> set (st_jobs st)"
    and ready: "ready_row st0 stamp item"
  shows "safe_step st (st\<lparr>st_jobs := update_where (\<lambda>j. jb_job_id j = jb_job_id item)
      (\<lambda>_. invalid_update stamp (claim_update item token lease stamp item)) (st_jobs st)\<rparr>)"
proof -
  let ?r = "claim_update item token lease stamp item"
  let ?js = "update_where (\<lambda>j. jb_job_id j = jb_job_id item) (\<lambda>_. ?r) (st_jobs st)"
  note d = store_okD(1) [OF ok]
  have r: "jb_job_id ?r = jb_job_id item" "invalid_guard (jb_job_id item) token ?r"
    by (simp_all add: claim_update_def invalid_guard_def)
  have "update_where (\<lambda>j. jb_job_id j = jb_job_id item) (\<lambda>_. invalid_update stamp ?r) (st_jobs st)
      = update_where (invalid_guard (jb_job_id item) token) (invalid_update stamp) ?js"
    using r by (auto simp: update_where_def) (simp add: invalid_guard_def)
  then have "safe_step (st\<lparr>st_jobs := ?js\<rparr>) (st\<lparr>st_jobs := update_where
      (\<lambda>j. jb_job_id j = jb_job_id item) (\<lambda>_. invalid_update stamp ?r) (st_jobs st)\<rparr>)"
    by (intro invalidating.safe) auto
  with claim_row_safe [OF assms] show ?thesis by (rule safe_step_trans)
qed

text \<open>What a claim that was handed out stands on.\<close>

definition granted :: "claim_params \<Rightarrow> store \<Rightarrow> job list \<Rightarrow> claimed_job \<Rightarrow> bool" where
  "granted cp st js c \<longleftrightarrow> (\<exists>item dto. item \<in> set (st_jobs st) \<and> ready_row st (cp_stamp cp) item \<and>
     claimed_row cp item \<in> set js \<and> row_job (cp_json cp) (claimed_row cp item) = Inr dto \<and>
     make_claim dto (cp_token cp (jb_job_id item)) (cp_scheduler cp) (cp_lease cp)
       (jb_worker_generation item + 1) = Inr c)"

definition claim_inv :: "claim_params \<Rightarrow> store \<Rightarrow> claim_state \<Rightarrow> bool" where
  "claim_inv cp st cs \<longleftrightarrow>
     store_ok (st\<lparr>st_jobs := cs_jobs cs\<rparr>) \<and> store_evolves st (st\<lparr>st_jobs := cs_jobs cs\<rparr>) \<and>
     (\<forall>c \<in> set (cs_claims cs). granted cp st (cs_jobs cs) c) \<and>
     length (cs_sessions cs) = length (cs_claims cs) \<and> distinct (cs_sessions cs) \<and>
     rowcount (active_row st (cp_stamp cp)) (cs_jobs cs) =
       rowcount (active_row st (cp_stamp cp)) (st_jobs st) + int (length (cs_claims cs)) \<and>
     (\<forall>s. cs_active cs s =
       rowcount (\<lambda>j. active_row st (cp_stamp cp) j \<and> jb_session_id j = s) (cs_jobs cs)) \<and>
     (\<forall>s. cs_active cs s \<le> max (max 1 (cp_per_session cp))
       (rowcount (\<lambda>j. active_row st (cp_stamp cp) j \<and> jb_session_id j = s) (st_jobs st))) \<and>
     (cs_claims cs \<noteq> [] \<longrightarrow> int (length (cs_claims cs)) \<le> cp_limit cp \<and>
       (\<forall>n. cp_available cp = Some n \<longrightarrow> int (length (cs_claims cs)) \<le> n))"

lemma claimed_row_facts [simp]:
  "jb_job_id (claimed_row cp item) = jb_job_id item"
  "jb_session_id (claimed_row cp item) = jb_session_id item"
  "jb_status (claimed_row cp item) = Running"
  "jb_job_id (invalid_update s (claimed_row cp item)) = jb_job_id item"
  "jb_session_id (invalid_update s (claimed_row cp item)) = jb_session_id item"
  "jb_status (invalid_update s (claimed_row cp item)) = Blocked"
  by (simp_all add: claimed_row_def claim_update_def invalid_update_def)

lemma ready_not_active: "ready_row st stamp j \<Longrightarrow> \<not> active_row st stamp j"
  by (auto simp: ready_row_def active_row_def)

lemma claimed_active:
  "ready_row st (cp_stamp cp) item \<Longrightarrow> cp_stamp cp < cp_lease cp \<Longrightarrow>
     active_row st (cp_stamp cp) (claimed_row cp item)"
  by (auto simp: ready_row_def active_row_def current_job_def claimed_row_def claim_update_def)

lemma blocked_not_active: "\<not> active_row st stamp (invalid_update s (claimed_row cp item))"
  by (simp add: active_row_def)

lemma granted_frame:
  assumes g: "granted cp st js c" and d: "distinct (map jb_job_id js)"
    and item: "item \<in> set js" "ready_row st0 stamp item"
  shows "granted cp st (update_where (\<lambda>j. jb_job_id j = jb_job_id item) (\<lambda>_. new) js) c"
proof -
  from g obtain i dto where i: "i \<in> set (st_jobs st)" "ready_row st (cp_stamp cp) i"
    "claimed_row cp i \<in> set js" "row_job (cp_json cp) (claimed_row cp i) = Inr dto"
    "make_claim dto (cp_token cp (jb_job_id i)) (cp_scheduler cp) (cp_lease cp)
       (jb_worker_generation i + 1) = Inr c"
    unfolding granted_def by blast
  have "jb_job_id (claimed_row cp i) \<noteq> jb_job_id item"
  proof
    assume "jb_job_id (claimed_row cp i) = jb_job_id item"
    from key_unique [OF d item(1) i(3) this] have "jb_status item = Running"
      by (metis claimed_row_facts(3))
    with item(2) show False by (simp add: ready_row_def)
  qed
  then have "claimed_row cp i \<in> set (update_where (\<lambda>j. jb_job_id j = jb_job_id item) (\<lambda>_. new) js)"
    using i(3) by (simp add: mem_update_key [OF d item(1)])
  with i show ?thesis unfolding granted_def by blast
qed

text \<open>A row that may be claimed stays available while other rows are rewritten.\<close>

lemma claim_one_others:
  assumes "claim_one cp item cs = Some cs'" "distinct (map jb_job_id (cs_jobs cs))"
    "item \<in> set (cs_jobs cs)" "ready_row st (cp_stamp cp) item"
    "j \<in> set (cs_jobs cs)" "jb_job_id j \<noteq> jb_job_id item"
  shows "j \<in> set (cs_jobs cs')"
  by (rule claim_one_cases [OF assms(1-4)])
    (use assms(5,6) in \<open>auto simp: mem_update_key [OF assms(2,3)]\<close>)

lemma claim_one_inv:
  assumes inv: "claim_inv cp st cs" and st: "store_ok st"
    and item: "item \<in> set (cs_jobs cs)" "item \<in> set (st_jobs st)"
    and ready: "ready_row st (cp_stamp cp) item" and lease: "cp_stamp cp < cp_lease cp"
    and room: "\<not> claims_full cp cs" "\<not> session_busy cp cs (jb_session_id item)"
    and one: "claim_one cp item cs = Some cs'"
  shows "claim_inv cp st cs'"
proof -
  let ?A = "active_row st (cp_stamp cp)" and ?s = "jb_session_id item"
  have ok: "store_ok (st\<lparr>st_jobs := cs_jobs cs\<rparr>)"
    and ev: "store_evolves st (st\<lparr>st_jobs := cs_jobs cs\<rparr>)"
    using inv by (simp_all add: claim_inv_def)
  have d: "distinct (map jb_job_id (cs_jobs cs))" using store_okD(1) [OF ok] by simp
  have step: "store_ok (st\<lparr>st_jobs := js\<rparr>) \<and> store_evolves st (st\<lparr>st_jobs := js\<rparr>)"
    if "safe_step (st\<lparr>st_jobs := cs_jobs cs\<rparr>) (st\<lparr>st_jobs := js\<rparr>)" for js
    using that ok ev store_evolves_trans unfolding safe_step_def by blast
  note cnt = rowcount_update_key [OF d item(1)]
  note na = ready_not_active [OF ready] and ca = claimed_active [OF ready lease]
  from one d item(1) ready show ?thesis
  proof (cases rule: claim_one_cases)
    case (claimed dto claim)
    let ?js = "update_where (\<lambda>j. jb_job_id j = jb_job_id item) (\<lambda>_. claimed_row cp item) (cs_jobs cs)"
    have s1: "store_ok (st\<lparr>st_jobs := ?js\<rparr>) \<and> store_evolves st (st\<lparr>st_jobs := ?js\<rparr>)"
      by (rule step) (use claim_row_safe [OF ok _ ready] item(1) in \<open>simp add: claimed_row_def\<close>)
    have "granted cp st ?js claim"
      unfolding granted_def using item ready claimed(1,2)
      by (intro exI [of _ item] exI [of _ dto]) (simp add: mem_update_key [OF d item(1)])
    then have g: "\<forall>c \<in> set (cs_claims cs @ [claim]). granted cp st ?js c"
      using inv granted_frame [OF _ d item(1) ready] by (auto simp: claim_inv_def)
    have n1: "rowcount ?A ?js = rowcount ?A (cs_jobs cs) + 1"
      using cnt [of "\<lambda>_. claimed_row cp item" ?A] na ca by simp
    have n2: "rowcount (\<lambda>j. ?A j \<and> jb_session_id j = s) ?js =
        rowcount (\<lambda>j. ?A j \<and> jb_session_id j = s) (cs_jobs cs) + (if s = ?s then 1 else 0)" for s
      using cnt [of "\<lambda>_. claimed_row cp item" "\<lambda>j. ?A j \<and> jb_session_id j = s"] na ca by simp
    have n3: "((cs_active cs)(?s := cs_active cs ?s + 1)) s =
        rowcount (\<lambda>j. ?A j \<and> jb_session_id j = s) ?js" for s
      using inv n2 [of s] by (simp add: claim_inv_def)
    have b: "((cs_active cs)(?s := cs_active cs ?s + 1)) s \<le> max (max 1 (cp_per_session cp))
        (rowcount (\<lambda>j. ?A j \<and> jb_session_id j = s) (st_jobs st))" for s
    proof (cases "s = ?s")
      case True
      have "cs_active cs ?s + 1 \<le> max 1 (cp_per_session cp)"
        using room(2) by (auto simp: session_busy_def max_def split: if_splits)
      with True show ?thesis by simp
    next
      case False
      have "cs_active cs s \<le> max (max 1 (cp_per_session cp))
        (rowcount (\<lambda>j. ?A j \<and> jb_session_id j = s) (st_jobs st))"
        using inv unfolding claim_inv_def by blast
      with False show ?thesis by simp
    qed
    have lim: "int (length (cs_claims cs @ [claim])) \<le> cp_limit cp"
      "\<forall>n. cp_available cp = Some n \<longrightarrow> int (length (cs_claims cs @ [claim])) \<le> n"
      using room(1) by (auto simp: claims_full_def)
    have n4: "rowcount ?A ?js = rowcount ?A (st_jobs st) + int (length (cs_claims cs @ [claim]))"
      using inv n1 by (simp add: claim_inv_def)
    have ses: "length (?s # cs_sessions cs) = length (cs_claims cs @ [claim])"
      "distinct (?s # cs_sessions cs)"
      using inv room(2) by (simp_all add: claim_inv_def session_busy_def)
    show ?thesis
      unfolding claim_inv_def claimed(3) using s1 g n3 b lim n4 ses
      by (simp del: fun_upd_apply)
  next
    case (blocked e)
    let ?new = "invalid_update (cp_stamp cp) (claimed_row cp item)"
    let ?js = "update_where (\<lambda>j. jb_job_id j = jb_job_id item) (\<lambda>_. ?new) (cs_jobs cs)"
    have s1: "store_ok (st\<lparr>st_jobs := ?js\<rparr>) \<and> store_evolves st (st\<lparr>st_jobs := ?js\<rparr>)"
      by (rule step) (use block_row_safe [OF ok _ ready] item(1) in \<open>simp add: claimed_row_def\<close>)
    have g: "\<forall>c \<in> set (cs_claims cs). granted cp st ?js c"
      using inv granted_frame [OF _ d item(1) ready] by (auto simp: claim_inv_def)
    have n: "rowcount (\<lambda>j. ?A j \<and> q j) ?js = rowcount (\<lambda>j. ?A j \<and> q j) (cs_jobs cs)" for q
      using cnt [of "\<lambda>_. ?new" "\<lambda>j. ?A j \<and> q j"] na blocked_not_active by simp
    from n [of "\<lambda>_. True"] have n0: "rowcount ?A ?js = rowcount ?A (cs_jobs cs)" by simp
    have same: "length (cs_sessions cs) = length (cs_claims cs)" "distinct (cs_sessions cs)"
      "rowcount ?A (cs_jobs cs) = rowcount ?A (st_jobs st) + int (length (cs_claims cs))"
      "\<forall>s. cs_active cs s \<le> max (max 1 (cp_per_session cp))
         (rowcount (\<lambda>j. ?A j \<and> jb_session_id j = s) (st_jobs st))"
      "cs_claims cs \<noteq> [] \<longrightarrow> int (length (cs_claims cs)) \<le> cp_limit cp \<and>
         (\<forall>n. cp_available cp = Some n \<longrightarrow> int (length (cs_claims cs)) \<le> n)"
      using inv unfolding claim_inv_def by blast+
    have act: "\<forall>s. cs_active cs s = rowcount (\<lambda>j. ?A j \<and> jb_session_id j = s) ?js"
      using inv n unfolding claim_inv_def by presburger
    show ?thesis
      unfolding claim_inv_def blocked(2) using s1 g same act n0 by simp
  qed
qed

lemma claim_loop_inv:
  assumes "claim_loop cp items cs = Some cs'" "claim_inv cp st cs" "store_ok st"
    and "cp_stamp cp < cp_lease cp" "distinct (map jb_job_id items)"
    and "\<forall>i \<in> set items. i \<in> set (cs_jobs cs) \<and> i \<in> set (st_jobs st) \<and> ready_row st (cp_stamp cp) i"
  shows "claim_inv cp st cs'"
  using assms
proof (induction items arbitrary: cs)
  case (Cons item items)
  have d: "distinct (map jb_job_id (cs_jobs cs))"
    using Cons.prems(2) store_okD(1) by (fastforce simp: claim_inv_def)
  show ?case
  proof (cases "claims_full cp cs \<or> session_busy cp cs (jb_session_id item)")
    case True
    with Cons show ?thesis by (auto split: if_splits)
  next
    case False
    with Cons.prems(1) obtain c1 where c1: "claim_one cp item cs = Some c1"
      "claim_loop cp items c1 = Some cs'" by (auto split: option.splits)
    have "claim_inv cp st c1"
      by (rule claim_one_inv [OF Cons.prems(2,3) _ _ _ _ _ _ c1(1)]) (use Cons.prems False in auto)
    moreover have "i \<in> set (cs_jobs c1)" if i: "i \<in> set items" for i
      by (rule claim_one_others [OF c1(1) d])
        (use i Cons.prems(5,6) key_fresh [of jb_job_id item items i] in auto)
    ultimately show ?thesis using Cons.IH [OF c1(2)] Cons.prems by simp
  qed
qed simp

section \<open>The whole call\<close>

definition claim_call :: "(string \<Rightarrow> json_kind option) \<Rightarrow> real \<Rightarrow> string \<Rightarrow> int \<Rightarrow> int \<Rightarrow> int \<Rightarrow>
   int option \<Rightarrow> (string \<Rightarrow> string) \<Rightarrow> store \<Rightarrow> claim_params" where
  "claim_call json now scheduler limit per_session lease_seconds global_limit token st =
     \<lparr>cp_json = json, cp_scheduler = scheduler, cp_token = token, cp_stamp = max 0 now,
      cp_lease = max 0 now + of_int (max 1 lease_seconds), cp_limit = limit,
      cp_per_session = per_session,
      cp_available = map_option
        (\<lambda>g. max 0 (g - rowcount (active_row st (max 0 now)) (st_jobs st))) global_limit\<rparr>"

lemma claim_ready_result:
  assumes ok: "store_ok st"
    and call: "claim_ready json now scheduler limit per_session lease_seconds order hint global_limit
      token st = (st', Inr claims)"
  shows "(claims = [] \<and> st' = st) \<or>
    (\<exists>cs. claim_inv (claim_call json now scheduler limit per_session lease_seconds global_limit token st)
       st cs \<and> cs_claims cs = claims \<and> st_jobs st' = cs_jobs cs \<and> st_epochs st' = st_epochs st)"
proof (cases "\<not> st_connected st \<or> limit \<le> 0")
  case True
  with call show ?thesis by (auto simp: claim_ready_def)
next
  case False
  let ?cp = "claim_call json now scheduler limit per_session lease_seconds global_limit token st"
  let ?A = "active_row st (max 0 now)"
  let ?rows = "sort_key (claim_key (claim_after st hint) order) (filter (ready_row st (max 0 now)) (st_jobs st))"
  let ?cs0 = "\<lparr>cs_jobs = st_jobs st, cs_claims = [], cs_sessions = [],
      cs_active = (\<lambda>s. rowcount (\<lambda>j. ?A j \<and> jb_session_id j = s) (st_jobs st))\<rparr>"
  from call False obtain cs where loop: "claim_loop ?cp ?rows ?cs0 = Some cs"
    and res: "claims = cs_claims cs" "st_jobs st' = cs_jobs cs" "st_epochs st' = st_epochs st"
    by (auto simp: claim_ready_def claim_call_def Let_def split: option.splits)
  have d: "distinct (map jb_job_id ?rows)"
    using distinct_map_filter [OF store_okD(1) [OF ok], of "ready_row st (max 0 now)"]
    by (simp add: distinct_map)
  have "claim_inv ?cp st cs"
    by (rule claim_loop_inv [OF loop _ ok _ d])
      (use ok in \<open>auto simp: claim_inv_def claim_call_def\<close>)
  with res show ?thesis by blast
qed

lemma claim_ready_safe:
  "safe_step st (fst (claim_ready json now scheduler limit per_session lease_seconds order hint
     global_limit token st))"
proof (rule safe_stepI)
  let ?r = "claim_ready json now scheduler limit per_session lease_seconds order hint global_limit token st"
  have both: "store_ok (fst ?r) \<and> store_evolves st (fst ?r)" if ok: "store_ok st"
  proof (cases "snd ?r")
    case (Inl e)
    then have "fst ?r = st"
      by (auto simp: claim_ready_def Let_def split: if_splits option.splits)
    with ok show ?thesis by simp
  next
    case (Inr claims)
    then have "?r = (fst ?r, Inr claims)" by (metis prod.collapse)
    from claim_ready_result [OF ok this] show ?thesis
    proof (elim disjE exE conjE)
      fix cs
      assume cs: "claim_inv (claim_call json now scheduler limit per_session lease_seconds
          global_limit token st) st cs" "st_jobs (fst ?r) = cs_jobs cs"
        "st_epochs (fst ?r) = st_epochs st"
      have "safe_step (st\<lparr>st_jobs := cs_jobs cs\<rparr>) (fst ?r)"
        by (rule safe_step_same) (simp_all add: cs)
      with cs(1) show ?thesis
        unfolding claim_inv_def safe_step_def by (blast intro: store_evolves_trans)
    qed (use ok in simp)
  qed
  then show "store_ok st \<Longrightarrow> store_ok (fst ?r)" "store_ok st \<Longrightarrow> store_evolves st (fst ?r)" by auto
qed

section \<open>A granted claim matches\<close>

text \<open>What the constructor keeps of the row: the numbers as they are, the texts stripped.\<close>

lemma job_identity_fields:
  assumes "job_identity json a = Inr j"
  shows "sj_job_id j = py_strip (sj_job_id a)" "sj_session_id j = py_strip (sj_session_id a)"
    "sj_source_digest j = py_strip (sj_source_digest a)"
    "sj_session_epoch j = sj_session_epoch a" "sj_start_seq j = sj_start_seq a"
    "sj_end_seq j = sj_end_seq a" "sj_expected_count j = sj_expected_count a"
    "sj_scope_key j = sj_scope_key a" "sj_privacy_level j = sj_privacy_level a"
    "sj_resolver_revision j = sj_resolver_revision a"
    "sj_scope_provenance_complete j = sj_scope_provenance_complete a"
    "sj_attempt_count j = sj_attempt_count a"
    "sj_chat_type j = none_if_empty (py_strip (coalesce [] (sj_chat_type a)))"
  using assms unfolding job_identity_def bind_result_Inr
  by (auto simp: text_required_Inr text_or_empty_Inr text_field_optional_Inr)

lemma scope_marker_simps [simp]:
  "sv_scope_key (scope_marker chat key priv rv r m) = key"
  "sv_privacy_level (scope_marker chat key priv rv r m) = priv"
  "sv_resolver_revision (scope_marker chat key priv rv r m) = rv"
  "sv_marker (scope_marker chat key priv rv r m) =
     (if m = Some False then Some False
      else if scope_all key priv rv \<and> chat \<noteq> None then Some True else None)"
  by (auto simp: scope_marker_def Let_def)

lemma job_scope_fields:
  assumes "job_scope j = Inr sv"
  shows "sv_scope_key sv = py_strip (sj_scope_key j)"
    "sv_privacy_level sv = none_if_empty (py_strip (coalesce [] (sj_privacy_level j)))"
    "sv_resolver_revision sv = py_strip (sj_resolver_revision j)"
    "sv_marker sv = (if sj_scope_provenance_complete j = Some False then Some False
       else if scope_all (sv_scope_key sv) (sv_privacy_level sv) (sv_resolver_revision sv) \<and>
               sj_chat_type j \<noteq> None then Some True else None)"
  using assms unfolding job_scope_def bind_result_Inr
  by (auto simp: text_or_empty_Inr text_field_optional_Inr)

lemma make_job_fields:
  assumes "make_job json a = Inr j"
  shows "sj_job_id j = py_strip (sj_job_id a)" "sj_session_id j = py_strip (sj_session_id a)"
    "sj_source_digest j = py_strip (sj_source_digest a)"
    "sj_session_epoch j = sj_session_epoch a" "sj_start_seq j = sj_start_seq a"
    "sj_end_seq j = sj_end_seq a" "sj_expected_count j = sj_expected_count a"
    "sj_attempt_count j = sj_attempt_count a"
    "sj_scope_key j = py_strip (sj_scope_key a)"
    "sj_privacy_level j = none_if_empty (py_strip (coalesce [] (sj_privacy_level a)))"
    "sj_resolver_revision j = py_strip (sj_resolver_revision a)"
    "sj_scope_provenance_complete j = (if sj_scope_provenance_complete a = Some False then Some False
       else if scope_all (sj_scope_key j) (sj_privacy_level j) (sj_resolver_revision j) \<and>
               py_strip (coalesce [] (sj_chat_type a)) \<noteq> [] then Some True else None)"
proof -
  from assms obtain j1 act sv where j1: "job_identity json a = Inr j1" and sv: "job_scope j1 = Inr sv"
    and j: "j = j1\<lparr>sj_operator_action := act,
           sj_scope_key := sv_scope_key sv, sj_privacy_level := sv_privacy_level sv,
           sj_resolver_revision := sv_resolver_revision sv,
           sj_scope_reason_code := sv_reason sv,
           sj_scope_provenance_complete := sv_marker sv\<rparr>"
    by (auto simp: make_job_def bind_result_Inr)
  note f = job_identity_fields [OF j1] and g = job_scope_fields [OF sv]
  show "sj_job_id j = py_strip (sj_job_id a)" "sj_session_id j = py_strip (sj_session_id a)"
    "sj_source_digest j = py_strip (sj_source_digest a)"
    "sj_session_epoch j = sj_session_epoch a" "sj_start_seq j = sj_start_seq a"
    "sj_end_seq j = sj_end_seq a" "sj_expected_count j = sj_expected_count a"
    "sj_attempt_count j = sj_attempt_count a"
    "sj_scope_key j = py_strip (sj_scope_key a)"
    "sj_privacy_level j = none_if_empty (py_strip (coalesce [] (sj_privacy_level a)))"
    "sj_resolver_revision j = py_strip (sj_resolver_revision a)"
    by (simp_all add: j f g)
  show "sj_scope_provenance_complete j = (if sj_scope_provenance_complete a = Some False then Some False
       else if scope_all (sj_scope_key j) (sj_privacy_level j) (sj_resolver_revision j) \<and>
               py_strip (coalesce [] (sj_chat_type a)) \<noteq> [] then Some True else None)"
    using g(4) by (simp add: j f none_if_empty_def)
qed

text \<open>
  The rows a plan writes are normal: their identity and scope texts carry no outer white space, and
  the provenance marker is set only with a complete scope.
\<close>

definition row_normal :: "job \<Rightarrow> bool" where
  "row_normal j \<longleftrightarrow>
     py_strip (jb_job_id j) = jb_job_id j \<and> py_strip (jb_session_id j) = jb_session_id j \<and>
     py_strip (jb_source_digest j) = jb_source_digest j \<and>
     py_strip (coalesce [] (jb_scope_key j)) = coalesce [] (jb_scope_key j) \<and>
     py_strip (coalesce [] (jb_privacy_level j)) = coalesce [] (jb_privacy_level j) \<and>
     py_strip (coalesce [] (jb_resolver_revision j)) = coalesce [] (jb_resolver_revision j) \<and>
     (jb_scope_complete j \<longrightarrow>
        scope_all (coalesce [] (jb_scope_key j)) (jb_privacy_level j)
          (coalesce [] (jb_resolver_revision j)) \<and> py_strip (coalesce [] (jb_chat_type j)) \<noteq> [])"

lemma make_claim_Inr:
  "make_claim job token scheduler lease generation = Inr c \<longleftrightarrow>
     c = \<lparr>cj_job = job, cj_claim_token = py_strip token, cj_scheduler_id = py_strip scheduler,
          cj_lease_until = lease, cj_worker_generation = generation\<rparr> \<and>
     py_strip token \<noteq> [] \<and> length (py_strip token) \<le> max_text_length \<and>
     py_strip scheduler \<noteq> [] \<and> length (py_strip scheduler) \<le> max_text_length \<and> 0 < generation"
  by (auto simp: make_claim_def bind_result_Inr text_required_Inr)

lemma granted_row_matches:
  assumes row: "row_job json j = Inr dto" and normal: "row_normal j"
    and claim: "make_claim dto token scheduler lease (jb_worker_generation j) = Inr c"
    and run: "jb_status j = Running" "jb_claim_token j = Some token" "jb_lease_until j = Some lease"
    and tok: "py_strip token = token" and t: "t < lease" and cur: "current_job st j"
  shows "fence_row (claim_fence c) t st j"
proof -
  note f = make_job_fields [OF row [unfolded row_job_def]]
  have priv: "coalesce [] (none_if_empty x) = x" for x by simp
  show ?thesis
    using claim run tok t cur normal
    by (auto simp: fence_row_def claim_fence_def Let_def make_claim_Inr f job_dto_def row_normal_def
        scope_all_def)
qed

end
