(* ===== verification/Summary_Intents.thy ===== *)
theory Summary_Intents
  imports Summary_Claims
begin

text \<open>
  Candidate intents (\<open>begin_candidate_intents\<close> and \<open>begin_candidate_write\<close> of
  \<open>summary_store_claim.py\<close>, the slot keys of \<open>summary_store_keys.py\<close>): before a worker touches
  another store it records, per candidate slot, the digest and the idempotency key it is going to
  use. The lemmas show that the recorded evidence is write-once and that a retry with the same
  intents is accepted and changes nothing.
\<close>

section \<open>Slot keys\<close>

definition secret_key :: string where "secret_key = ''slot_hmac_secret''"

text \<open>\<open>fresh\<close> is the secret that would be drawn if none is stored.\<close>

definition ensure_summary_secret :: "string \<Rightarrow> store \<Rightarrow> string \<times> store" where
  "ensure_summary_secret fresh st = (case st_meta st secret_key of
      Some s \<Rightarrow> (s, st)
    | None \<Rightarrow> (fresh, st\<lparr>st_meta := (st_meta st)(secret_key \<mapsto> fresh)\<rparr>))"

definition owned_slot_key :: "host \<Rightarrow> string \<Rightarrow> string \<Rightarrow> int \<Rightarrow> string \<Rightarrow> store \<Rightarrow> string \<times> store" where
  "owned_slot_key h fresh jid slot digest st =
     (let r = ensure_summary_secret fresh st in (ho_hmac h (fst r) jid slot digest, snd r))"

lemma owned_slot_key_frame [simp]:
  "st_jobs (snd (owned_slot_key h f jid slot d st)) = st_jobs st"
  "st_epochs (snd (owned_slot_key h f jid slot d st)) = st_epochs st"
  "st_candidates (snd (owned_slot_key h f jid slot d st)) = st_candidates st"
  "st_messages (snd (owned_slot_key h f jid slot d st)) = st_messages st"
  "st_counters (snd (owned_slot_key h f jid slot d st)) = st_counters st"
  "st_connected (snd (owned_slot_key h f jid slot d st)) = st_connected st"
  by (simp_all add: owned_slot_key_def ensure_summary_secret_def Let_def split: option.splits)

section \<open>Recording intents\<close>

text \<open>The loop that normalises the intents: no slot twice, no over-long key.\<close>

fun normalize_intents ::
  "host \<Rightarrow> string \<Rightarrow> string \<Rightarrow> candidate_intent list \<Rightarrow> int list \<Rightarrow> store \<Rightarrow>
   ((string \<times> candidate_intent) list \<times> store) option" where
  "normalize_intents h fresh jid [] seen st = Some ([], st)"
| "normalize_intents h fresh jid (i # is) seen st =
     (if ci_slot i \<in> set seen \<or> 256 < length (ci_idempotency_key i) then None
      else (let k = owned_slot_key h fresh jid (ci_slot i) (ci_content_digest i) st in
        map_option (\<lambda>r. ((fst k, i) # fst r, snd r))
          (normalize_intents h fresh jid is (ci_slot i # seen) (snd k))))"

definition job_ledger :: "string \<Rightarrow> candidate list \<Rightarrow> candidate list" where
  "job_ledger jid cs = filter (\<lambda>c. cd_job_id c = jid) cs"

definition ledger_entry :: "string \<Rightarrow> int \<Rightarrow> candidate list \<Rightarrow> candidate option" where
  "ledger_entry jid slot cs = fetch_one (\<lambda>c. cd_job_id c = jid \<and> cd_slot c = slot) cs"

definition intent_row :: "string \<Rightarrow> real \<Rightarrow> string \<Rightarrow> candidate_intent \<Rightarrow> candidate" where
  "intent_row jid now key i =
     \<lparr>cd_job_id = jid, cd_slot = ci_slot i, cd_slot_key = key,
      cd_content_digest = ci_content_digest i, cd_idempotency_key = ci_idempotency_key i,
      cd_disposition = ci_disposition i, cd_status = ci_status i,
      cd_canonical_id = ci_canonical_id i, cd_updated_at = now\<rparr>"

definition same_evidence :: "candidate \<Rightarrow> string \<Rightarrow> candidate_intent \<Rightarrow> bool" where
  "same_evidence c key i \<longleftrightarrow> cd_slot_key c = key \<and> cd_content_digest c = ci_content_digest i \<and>
     cd_idempotency_key c = ci_idempotency_key i"

text \<open>
  The loop over the normalised intents. \<open>existing\<close> is the ledger as read before the loop; \<open>None\<close> is a
  refusal or an \<open>IntegrityError\<close>, both of which roll back.
\<close>

fun write_intents ::
  "string \<Rightarrow> real \<Rightarrow> candidate list \<Rightarrow> (string \<times> candidate_intent) list \<Rightarrow> candidate list \<Rightarrow>
   candidate list option" where
  "write_intents jid now existing [] cs = Some cs"
| "write_intents jid now existing ((key, i) # is) cs =
     (case ledger_entry jid (ci_slot i) existing of
        Some c \<Rightarrow> if same_evidence c key i then write_intents jid now existing is cs else None
      | None \<Rightarrow> (case insert_candidate (intent_row jid now key i) cs of
          None \<Rightarrow> None
        | Some cs' \<Rightarrow> write_intents jid now existing is cs'))"

definition begin_candidate_intents ::
  "host \<Rightarrow> string \<Rightarrow> claimed_job \<Rightarrow> candidate_intent list \<Rightarrow> real \<Rightarrow> real \<Rightarrow> store \<Rightarrow> store \<times> bool" where
  "begin_candidate_intents h fresh claim intents now match_now st =
     (let jid = sj_job_id (cj_job claim) in
      if \<not> st_connected st \<or> \<not> claim_matches claim match_now st then (st, False)
      else case normalize_intents h fresh jid intents [] st of
        None \<Rightarrow> (st, False)
      | Some (normalized, st1) \<Rightarrow>
          (let existing = st_candidates st1 in
           if job_ledger jid existing \<noteq> [] \<and>
              cd_slot ` set (job_ledger jid existing) \<noteq> (\<lambda>(k, i). ci_slot i) ` set normalized
           then (st, False)
           else case write_intents jid now existing normalized existing of
             None \<Rightarrow> (st, False)
           | Some cs \<Rightarrow> (st1\<lparr>st_candidates := cs\<rparr>, True)))"

definition writable_status :: "ledger_status \<Rightarrow> bool" where
  "writable_status s \<longleftrightarrow> s \<in> {Planned, Writing, Committed, LFailed}"

definition write_guard :: "string \<Rightarrow> string \<Rightarrow> candidate_intent \<Rightarrow> candidate \<Rightarrow> bool" where
  "write_guard jid key i c \<longleftrightarrow> cd_job_id c = jid \<and> cd_slot c = ci_slot i \<and>
     same_evidence c key i \<and> writable_status (cd_status c)"

definition write_mark :: "real \<Rightarrow> candidate \<Rightarrow> candidate" where
  "write_mark now c = c\<lparr>cd_status := (if cd_status c = Planned then Writing else cd_status c),
     cd_updated_at := now\<rparr>"

definition begin_candidate_write ::
  "host \<Rightarrow> string \<Rightarrow> claimed_job \<Rightarrow> candidate_intent \<Rightarrow> real \<Rightarrow> real \<Rightarrow> store \<Rightarrow> store \<times> bool" where
  "begin_candidate_write h fresh claim i now match_now st =
     (let jid = sj_job_id (cj_job claim) in
      if \<not> st_connected st \<or> \<not> claim_matches claim match_now st then (st, False)
      else (let k = owned_slot_key h fresh jid (ci_slot i) (ci_content_digest i) st;
                st1 = snd k in
        if rowcount (write_guard jid (fst k) i) (st_candidates st1) \<noteq> 1 then (st, False)
        else (st1\<lparr>st_candidates :=
                update_where (write_guard jid (fst k) i) (write_mark now) (st_candidates st1)\<rparr>,
              True)))"

section \<open>Both keep the store safe\<close>

lemma normalize_intents_frame:
  "normalize_intents h fresh jid is seen st = Some (r, st') \<Longrightarrow>
     st_jobs st' = st_jobs st \<and> st_epochs st' = st_epochs st \<and>
     st_candidates st' = st_candidates st \<and> st_connected st' = st_connected st"
proof (induction "is" arbitrary: seen st r)
  case (Cons i "is")
  then show ?case by (fastforce simp: Let_def split: if_splits)
qed simp

lemma begin_candidate_intents_safe:
  "safe_step st (fst (begin_candidate_intents h fresh claim is now mnow st))"
  by (rule safe_step_same)
    (auto simp: begin_candidate_intents_def Let_def dest!: normalize_intents_frame
      split: option.splits)

lemma begin_candidate_write_safe:
  "safe_step st (fst (begin_candidate_write h fresh claim i now mnow st))"
  by (rule safe_step_same) (auto simp: begin_candidate_write_def Let_def)

section \<open>The ledger is keyed and write-once\<close>

definition ledger_key :: "candidate \<Rightarrow> string \<times> int" where
  "ledger_key c = (cd_job_id c, cd_slot c)"

definition keyed :: "candidate list \<Rightarrow> bool" where
  "keyed cs \<longleftrightarrow> distinct (map ledger_key cs)"

text \<open>A later ledger holds every earlier slot with the same evidence.\<close>

definition evidence_kept :: "candidate \<Rightarrow> candidate \<Rightarrow> bool" where
  "evidence_kept c d \<longleftrightarrow> ledger_key d = ledger_key c \<and> cd_slot_key d = cd_slot_key c \<and>
     cd_content_digest d = cd_content_digest c \<and> cd_idempotency_key d = cd_idempotency_key c"

definition ledger_extends :: "candidate list \<Rightarrow> candidate list \<Rightarrow> bool" where
  "ledger_extends cs ds \<longleftrightarrow>
     (keyed cs \<longrightarrow> keyed ds) \<and> (\<forall>c \<in> set cs. \<exists>d \<in> set ds. evidence_kept c d)"

lemma ledger_extends_refl [simp]: "ledger_extends cs cs"
  unfolding ledger_extends_def evidence_kept_def by blast

lemma ledger_extends_trans:
  "ledger_extends a b \<Longrightarrow> ledger_extends b c \<Longrightarrow> ledger_extends a c"
  unfolding ledger_extends_def evidence_kept_def by (metis (no_types, lifting))

text \<open>The contract of an update of ledger rows: it leaves the key and the evidence alone.\<close>

locale ledger_update =
  fixes upd :: "candidate \<Rightarrow> candidate"
  assumes evidence: "evidence_kept c (upd c)"
begin

lemma keyed_update: "keyed (update_where p upd cs) \<longleftrightarrow> keyed cs"
  using evidence by (simp add: keyed_def evidence_kept_def map_update_where_frame)

lemma extends: "ledger_extends cs (update_where p upd cs)"
proof -
  have "\<exists>d \<in> set (update_where p upd cs). evidence_kept c d" if "c \<in> set cs" for c
  proof (cases "p c")
    case True
    with that evidence show ?thesis by (auto simp: set_update_where)
  next
    case False
    with that show ?thesis
      by (intro bexI [of _ c]) (auto simp: set_update_where evidence_kept_def)
  qed
  then show ?thesis by (simp add: ledger_extends_def keyed_update)
qed

lemma ledger_slots:
  "cd_slot ` set (job_ledger jid (update_where p upd cs)) = cd_slot ` set (job_ledger jid cs)"
proof -
  have "map cd_slot (job_ledger jid (update_where p upd cs)) = map cd_slot (job_ledger jid cs)"
    using evidence unfolding job_ledger_def
    by (simp add: filter_update_where_frame map_update_where_frame evidence_kept_def ledger_key_def)
  then show ?thesis by (metis list.set_map)
qed

end

interpretation write_mark: ledger_update "write_mark now" for now
  by unfold_locales (simp add: write_mark_def evidence_kept_def ledger_key_def)

lemma insert_candidate_Some:
  "insert_candidate c cs = Some cs' \<Longrightarrow> cs' = cs @ [c] \<and> ledger_key c \<notin> set (map ledger_key cs)"
  by (auto simp: insert_candidate_def ledger_key_def split: if_splits)

lemma keyed_snoc: "keyed cs \<Longrightarrow> ledger_key c \<notin> set (map ledger_key cs) \<Longrightarrow> keyed (cs @ [c])"
  by (simp add: keyed_def)

text \<open>What a successful loop leaves behind.\<close>

lemma write_intents_result:
  assumes "write_intents jid now ex ns cs = Some cs'" "keyed cs" "set ex \<subseteq> set cs"
  shows "keyed cs' \<and> (\<exists>new. cs' = cs @ new \<and> (\<forall>c \<in> set new. cd_job_id c = jid)) \<and>
    (\<forall>(k, i) \<in> set ns. \<exists>c \<in> set cs'. cd_job_id c = jid \<and> cd_slot c = ci_slot i \<and> same_evidence c k i) \<and>
    cd_slot ` set (job_ledger jid cs') \<subseteq>
      cd_slot ` set (job_ledger jid cs) \<union> (\<lambda>(k, i). ci_slot i) ` set ns"
  using assms
proof (induction ns arbitrary: cs)
  case Nil
  then show ?case by simp
next
  case (Cons n ns)
  obtain k i where n: "n = (k, i)" by (cases n)
  show ?case
  proof (cases "ledger_entry jid (ci_slot i) ex")
    case (Some c)
    then have c: "c \<in> set ex" "cd_job_id c = jid" "cd_slot c = ci_slot i"
      by (auto simp: ledger_entry_def dest: fetch_one_Some_iff)
    from Cons.prems(1) Some n have "same_evidence c k i" "write_intents jid now ex ns cs = Some cs'"
      by (auto split: if_splits)
    moreover from Cons.IH [OF this(2) Cons.prems(2,3)] obtain new where "cs' = cs @ new" by blast
    moreover have "c \<in> set cs" using c(1) Cons.prems(3) by blast
    ultimately show ?thesis using Cons.IH [OF _ Cons.prems(2,3)] c n by (auto 0 4)
  next
    case None
    with Cons.prems(1) n obtain c1 where c1: "insert_candidate (intent_row jid now k i) cs = Some c1"
      "write_intents jid now ex ns c1 = Some cs'" by (auto split: option.splits)
    note ins = insert_candidate_Some [OF c1(1)]
    have "keyed c1" "set ex \<subseteq> set c1" using ins keyed_snoc [OF Cons.prems(2)] Cons.prems(3) by auto
    note IH = Cons.IH [OF c1(2) this]
    have row: "cd_job_id (intent_row jid now k i) = jid" "cd_slot (intent_row jid now k i) = ci_slot i"
      "same_evidence (intent_row jid now k i) k i"
      by (simp_all add: intent_row_def same_evidence_def)
    have "intent_row jid now k i \<in> set cs'" using IH ins by auto
    moreover have "cd_slot ` set (job_ledger jid c1) \<subseteq>
        cd_slot ` set (job_ledger jid cs) \<union> {ci_slot i}"
      using ins row by (auto simp: job_ledger_def)
    moreover obtain new where "cs' = cs @ intent_row jid now k i # new"
      "\<forall>c \<in> set new. cd_job_id c = jid" using IH ins by auto
    ultimately show ?thesis using IH row n by (auto 0 4)
  qed
qed

lemma write_intents_extends:
  "write_intents jid now ex ns cs = Some cs' \<Longrightarrow> ledger_extends cs cs'"
proof (induction ns arbitrary: cs)
  case (Cons n ns)
  obtain k i where n: "n = (k, i)" by (cases n)
  from Cons.prems n consider "write_intents jid now ex ns cs = Some cs'"
    | c1 where "insert_candidate (intent_row jid now k i) cs = Some c1"
        "write_intents jid now ex ns c1 = Some cs'"
    by (auto split: option.splits if_splits)
  then show ?case
  proof cases
    case 1
    then show ?thesis by (rule Cons.IH)
  next
    case 2
    have "ledger_extends cs c1"
      using insert_candidate_Some [OF 2(1)] keyed_snoc
      by (auto simp: ledger_extends_def evidence_kept_def)
    with Cons.IH [OF 2(2)] show ?thesis by (blast intro: ledger_extends_trans)
  qed
qed simp

lemma begin_candidate_intents_extends:
  "ledger_extends (st_candidates st)
     (st_candidates (fst (begin_candidate_intents h fresh claim is now mnow st)))"
  by (auto simp: begin_candidate_intents_def Let_def dest!: normalize_intents_frame
      write_intents_extends split: option.splits)

lemma begin_candidate_write_extends:
  "ledger_extends (st_candidates st)
     (st_candidates (fst (begin_candidate_write h fresh claim i now mnow st)))"
  using write_mark.extends by (auto simp: begin_candidate_write_def Let_def)

section \<open>A retry with the same intents is accepted and changes nothing\<close>

definition keys_of :: "host \<Rightarrow> string \<Rightarrow> string \<Rightarrow> candidate_intent list \<Rightarrow>
    (string \<times> candidate_intent) list" where
  "keys_of h secret jid is =
     map (\<lambda>i. (ho_hmac h secret jid (ci_slot i) (ci_content_digest i), i)) is"

lemma normalize_with_secret:
  "st_meta st secret_key = Some s \<Longrightarrow> normalize_intents h fresh jid is seen st = Some (r, st') \<Longrightarrow>
     r = keys_of h s jid is \<and> st' = st"
proof (induction "is" arbitrary: seen r)
  case (Cons i "is")
  then show ?case
    by (fastforce simp: owned_slot_key_def ensure_summary_secret_def Let_def keys_of_def
        split: if_splits)
qed (simp add: keys_of_def)

lemma normalize_again:
  "normalize_intents h fresh jid is seen st = Some (r, st') \<Longrightarrow>
     st_meta st2 secret_key = Some s \<Longrightarrow>
     normalize_intents h fresh2 jid is seen st2 = Some (keys_of h s jid is, st2)"
proof (induction "is" arbitrary: seen st r)
  case (Cons i "is")
  from Cons.prems(1) obtain r1 where "normalize_intents h fresh jid is (ci_slot i # seen)
      (snd (owned_slot_key h fresh jid (ci_slot i) (ci_content_digest i) st)) = Some (r1, st')"
    by (auto simp: Let_def split: if_splits)
  from Cons.IH [OF this Cons.prems(2)] Cons.prems show ?case
    by (auto simp: owned_slot_key_def ensure_summary_secret_def Let_def keys_of_def
        split: if_splits)
qed (simp add: keys_of_def)

lemma normalize_secret:
  assumes "normalize_intents h fresh jid is seen st = Some (r, st')" "is \<noteq> []"
  obtains s where "st_meta st' secret_key = Some s" "r = keys_of h s jid is"
proof -
  obtain i rest where i: "is = i # rest" using assms(2) by (cases "is") auto
  let ?k = "owned_slot_key h fresh jid (ci_slot i) (ci_content_digest i) st"
  obtain s where s: "st_meta (snd ?k) secret_key = Some s"
    "fst ?k = ho_hmac h s jid (ci_slot i) (ci_content_digest i)"
    by (cases "st_meta st secret_key")
      (auto simp: owned_slot_key_def ensure_summary_secret_def Let_def)
  from assms(1) i obtain r1 where r1: "r = (fst ?k, i) # r1"
    "normalize_intents h fresh jid rest (ci_slot i # seen) (snd ?k) = Some (r1, st')"
    by (auto simp: Let_def split: if_splits)
  from normalize_with_secret [OF s(1) r1(2)] s r1(1) i show ?thesis
    by (intro that [of s]) (auto simp: keys_of_def)
qed

lemma write_intents_again:
  assumes "keyed cs" "\<forall>(k, i) \<in> set ns. \<exists>c \<in> set cs. cd_job_id c = jid \<and> cd_slot c = ci_slot i \<and> same_evidence c k i"
  shows "write_intents jid now cs ns ds = Some ds"
  using assms(2)
proof (induction ns)
  case (Cons n ns)
  obtain k i where n: "n = (k, i)" by (cases n)
  with Cons.prems obtain c where c: "c \<in> set cs" "cd_job_id c = jid" "cd_slot c = ci_slot i"
    "same_evidence c k i" by auto
  have "(\<lambda>d. cd_job_id d = jid \<and> cd_slot d = ci_slot i) = (\<lambda>d. ledger_key d = ledger_key c)"
    using c by (auto simp: ledger_key_def)
  then have "ledger_entry jid (ci_slot i) cs = Some c"
    using fetch_one_key [OF assms(1) [unfolded keyed_def] c(1)] by (simp add: ledger_entry_def)
  with c(4) n Cons show ?case by simp
qed simp

theorem begin_candidate_intents_retry:
  assumes first: "begin_candidate_intents h fresh claim is now mnow st = (st1, True)"
    and keyed: "keyed (st_candidates st)"
    and live: "claim_matches claim mnow2 st1"
  shows "begin_candidate_intents h fresh2 claim is now2 mnow2 st1 = (st1, True)"
proof -
  let ?jid = "sj_job_id (cj_job claim)"
  from first obtain r st' cs where f: "st_connected st" "normalize_intents h fresh ?jid is [] st = Some (r, st')"
    "job_ledger ?jid (st_candidates st') = [] \<or>
       cd_slot ` set (job_ledger ?jid (st_candidates st')) = (\<lambda>(k, i). ci_slot i) ` set r"
    "write_intents ?jid now (st_candidates st') r (st_candidates st') = Some cs"
    "st1 = st'\<lparr>st_candidates := cs\<rparr>"
    by (auto simp: begin_candidate_intents_def Let_def split: if_splits option.splits)
  note fr = normalize_intents_frame [OF f(2)]
  show ?thesis
  proof (cases "is = []")
    case True
    with f have "r = []" "st' = st" by simp_all
    with f(3-5) have st1: "st1 = st" "job_ledger ?jid (st_candidates st) = []" by auto
    with True f(1) live show ?thesis by (simp add: begin_candidate_intents_def Let_def)
  next
    case False
    obtain s where s: "st_meta st' secret_key = Some s" "r = keys_of h s ?jid is"
      by (rule normalize_secret [OF f(2) False])
    have norm: "normalize_intents h fresh2 ?jid is [] st1 = Some (r, st1)"
      using normalize_again [OF f(2), of st1 s] s f(5) by simp
    have k: "keyed (st_candidates st')" using keyed fr by simp
    note res = write_intents_result [OF f(4) k subset_refl]
    have ev: "\<forall>(k, i) \<in> set r. \<exists>c \<in> set cs. cd_job_id c = ?jid \<and> cd_slot c = ci_slot i \<and> same_evidence c k i"
      and kcs: "keyed cs" using res by blast+
    have slots: "cd_slot ` set (job_ledger ?jid cs) = (\<lambda>(k, i). ci_slot i) ` set r"
    proof
      show "cd_slot ` set (job_ledger ?jid cs) \<subseteq> (\<lambda>(k, i). ci_slot i) ` set r"
      proof -
        have "cd_slot ` set (job_ledger ?jid (st_candidates st')) \<subseteq> (\<lambda>(k, i). ci_slot i) ` set r"
          using f(3) by auto
        then show ?thesis using res by blast
      qed
      show "(\<lambda>(k, i). ci_slot i) ` set r \<subseteq> cd_slot ` set (job_ledger ?jid cs)"
      proof
        fix x assume "x \<in> (\<lambda>(k, i). ci_slot i) ` set r"
        then obtain k i where "(k, i) \<in> set r" "x = ci_slot i" by auto
        with ev obtain c where "c \<in> set cs" "cd_job_id c = ?jid" "cd_slot c = x" by blast
        then show "x \<in> cd_slot ` set (job_ledger ?jid cs)" by (auto simp: job_ledger_def)
      qed
    qed
    have "write_intents ?jid now2 cs r cs = Some cs"
      by (rule write_intents_again [OF kcs ev])
    with norm slots f(1,5) fr live show ?thesis
      by (simp add: begin_candidate_intents_def Let_def)
  qed
qed

end
