(* ===== verification/Summary_Commit.thy ===== *)
theory Summary_Commit
  imports Summary_Intents
begin

text \<open>
  Closing a window (\<open>commit_window\<close> in \<open>summary_store_terminal.py\<close>, \<open>valid_window_outcome\<close> in
  \<open>summary_store_outcomes.py\<close>, \<open>_mark_unknown_claim\<close> in \<open>summary_store_reconcile.py\<close>): the outcome
  is checked against itself and against the ledger, the ledger and the job are rewritten under the
  claim, the totals grow and the cursor advances, all in one transaction; anything inconsistent ends
  in \<open>unknown\<close>, anything stale in a rollback.
\<close>

section \<open>Consistency of an outcome\<close>

definition dispositions :: "disposition list" where
  "dispositions = [Canonical, Quarantined, Discard, MarkWrite, Merged, DFailed, SkippedIdempotent]"

fun expected_count :: "window_outcome \<Rightarrow> disposition \<Rightarrow> int" where
  "expected_count w Canonical = wo_canonical_count w"
| "expected_count w Quarantined = wo_quarantine_count w"
| "expected_count w Discard = wo_discard_count w"
| "expected_count w MarkWrite = wo_mark_write_count w"
| "expected_count w Merged = wo_merged_count w"
| "expected_count w DFailed = wo_failed_count w"
| "expected_count w SkippedIdempotent = wo_skipped_idempotent_count w"

fun scan_slots ::
  "candidate_intent list \<Rightarrow> (disposition \<Rightarrow> int) \<Rightarrow> int \<Rightarrow> ((disposition \<Rightarrow> int) \<times> int) option" where
  "scan_slots [] actual unknown = Some (actual, unknown)"
| "scan_slots (i # is) actual unknown =
     (if ci_status i = LUnknown then
        (if ci_disposition i \<noteq> None then None else scan_slots is actual (unknown + 1))
      else if ci_status i = LFailed \<and> ci_disposition i \<noteq> None \<and> ci_disposition i \<noteq> Some DFailed then None
      else if ci_status i \<noteq> LFailed \<and> ci_status i \<noteq> Committed then None
      else if ci_status i = Committed \<and> ci_disposition i = Some DFailed then None
      else (case ci_disposition i of
              None \<Rightarrow> None
            | Some d \<Rightarrow> scan_slots is (actual(d := actual d + 1)) unknown))"

definition valid_window_outcome :: "window_outcome \<Rightarrow> bool" where
  "valid_window_outcome w =
     (case scan_slots (wo_candidate_slots w) (\<lambda>_. 0) 0 of
        None \<Rightarrow> False
      | Some (actual, unknown) \<Rightarrow>
          unknown = wo_unknown_count w \<and>
          (\<forall>d \<in> set dispositions. actual d = expected_count w d) \<and>
          (wo_can_advance w \<longrightarrow> unknown = 0 \<and> wo_failed_count w = 0))"

section \<open>The claim as a compare-and-set\<close>

definition close_guard :: "claimed_job \<Rightarrow> job \<Rightarrow> bool" where
  "close_guard c j \<longleftrightarrow>
     jb_job_id j = sj_job_id (cj_job c) \<and> jb_session_id j = sj_session_id (cj_job c) \<and>
     jb_session_epoch j = sj_session_epoch (cj_job c) \<and> jb_status j = Running \<and>
     jb_claim_token j = Some (cj_claim_token c) \<and> jb_worker_generation j = cj_worker_generation c"

definition completion :: "bool \<Rightarrow> job_status \<Rightarrow> int \<Rightarrow> reason \<Rightarrow> completion_result" where
  "completion ok s c r =
     \<lparr>cr_accepted = ok, cr_status = s, cr_cursor = c, cr_reason_code = r\<rparr>"

definition claim_lost :: completion_result where
  "claim_lost = completion False Unknown 0 RClaimLost"

section \<open>Degrading to unknown\<close>

definition unresolved_row :: "string \<Rightarrow> candidate \<Rightarrow> bool" where
  "unresolved_row jid c \<longleftrightarrow> cd_job_id c = jid \<and> cd_status c \<notin> {Committed, LFailed}"

definition forget_row :: "real \<Rightarrow> candidate \<Rightarrow> candidate" where
  "forget_row now c = c\<lparr>cd_status := LUnknown, cd_disposition := None, cd_canonical_id := None,
     cd_updated_at := now\<rparr>"

definition unknown_update :: "reason \<Rightarrow> string option \<Rightarrow> real \<Rightarrow> job \<Rightarrow> job" where
  "unknown_update r e now j = j\<lparr>jb_status := Unknown, jb_reason_code := r,
     jb_failed_stage := Some ''candidate_reconcile'',
     jb_exception_type := Some (coalesce ''unknown'' (normalize_exception_type e)),
     jb_lease_until := None, jb_claim_token := None, jb_updated_at := now\<rparr>"

text \<open>
  \<open>_mark_unknown_claim\<close>: \<open>st0\<close> is what a rollback restores, \<open>st\<close> the state inside the transaction,
  \<open>mnow\<close> the clock reading of \<open>_claim_matches\<close>.
\<close>

definition mark_unknown_claim ::
  "claimed_job \<Rightarrow> real \<Rightarrow> reason \<Rightarrow> string option \<Rightarrow> real \<Rightarrow> store \<Rightarrow> store \<Rightarrow> store \<times> completion_result"
where
  "mark_unknown_claim c now r e mnow st0 st =
     (let jid = sj_job_id (cj_job c) in
      if \<not> claim_matches c mnow st then (st0, claim_lost)
      else if rowcount (close_guard c) (st_jobs st) \<noteq> 1 then (st0, claim_lost)
      else (st\<lparr>st_candidates := update_where (unresolved_row jid) (forget_row now) (st_candidates st),
              st_jobs := update_where (close_guard c) (unknown_update r e now) (st_jobs st)\<rparr>,
            completion True Unknown 0 r))"

section \<open>Committing\<close>

text \<open>Status, reason and next attempt; \<open>None\<close> is the \<open>ValueError\<close> of a non-positive attempt count.\<close>

definition commit_status ::
  "window_outcome \<Rightarrow> int \<Rightarrow> real \<Rightarrow> (job_status \<times> reason \<times> real option) option" where
  "commit_status w attempts now =
     (if wo_unknown_count w \<noteq> 0 \<or> (\<not> wo_can_advance w \<and> wo_failed_count w = 0)
      then Some (Unknown, wo_reason_code w, None)
      else if wo_can_advance w then Some (Completed, wo_reason_code w, None)
      else if 3 \<le> attempts then Some (Blocked, RRetryExhausted, None)
      else (case retry_delay_seconds attempts 5 300 of
              Inl _ \<Rightarrow> None
            | Inr d \<Rightarrow> Some (Failed, RRetryScheduled, Some (now + of_int d))))"

definition owner_disposition :: "disposition option \<Rightarrow> bool" where
  "owner_disposition d \<longleftrightarrow> d \<in> {Some Canonical, Some MarkWrite, Some Merged, Some SkippedIdempotent}"

text \<open>The intents with their slot keys; \<open>None\<close> is a repeated slot.\<close>

fun key_intents ::
  "host \<Rightarrow> string \<Rightarrow> string \<Rightarrow> candidate_intent list \<Rightarrow> int list \<Rightarrow> store \<Rightarrow>
   (string \<times> candidate_intent) list option \<times> store" where
  "key_intents h fresh jid [] seen st = (Some [], st)"
| "key_intents h fresh jid (i # is) seen st =
     (if ci_slot i \<in> set seen then (None, st)
      else (let k = owned_slot_key h fresh jid (ci_slot i) (ci_content_digest i) st;
                r = key_intents h fresh jid is (ci_slot i # seen) (snd k)
            in (map_option (\<lambda>ks. (fst k, i) # ks) (fst r), snd r)))"

definition slot_consistent :: "candidate \<Rightarrow> string \<Rightarrow> candidate_intent \<Rightarrow> bool" where
  "slot_consistent c key i \<longleftrightarrow>
     same_evidence c key i \<and>
     \<not> (cd_status c = LUnknown \<and> ci_status i \<noteq> LUnknown) \<and>
     (owner_disposition (ci_disposition i) \<longleftrightarrow> ci_canonical_id i \<noteq> None) \<and>
     (cd_canonical_id c = None \<or> cd_canonical_id c = ci_canonical_id i)"

definition ledger_agrees :: "string \<Rightarrow> (string \<times> candidate_intent) list \<Rightarrow> candidate list \<Rightarrow> bool" where
  "ledger_agrees jid ks cs \<longleftrightarrow>
     cd_slot ` set (job_ledger jid cs) = (\<lambda>(k, i). ci_slot i) ` set ks \<and>
     (\<forall>(k, i) \<in> set ks. case ledger_entry jid (ci_slot i) cs of
        None \<Rightarrow> False | Some c \<Rightarrow> slot_consistent c k i)"

definition slot_guard :: "string \<Rightarrow> string \<Rightarrow> candidate_intent \<Rightarrow> candidate \<Rightarrow> bool" where
  "slot_guard jid key i c \<longleftrightarrow> cd_job_id c = jid \<and> cd_slot c = ci_slot i \<and> same_evidence c key i"

definition settle_row :: "real \<Rightarrow> candidate_intent \<Rightarrow> candidate \<Rightarrow> candidate" where
  "settle_row now i c = c\<lparr>cd_disposition := ci_disposition i,
     cd_status := (if ci_status i \<in> {Planned, Writing, Committed} then Committed else ci_status i),
     cd_canonical_id := (case ci_canonical_id i of None \<Rightarrow> cd_canonical_id c | Some n \<Rightarrow> Some n),
     cd_updated_at := now\<rparr>"

text \<open>The loop of slot updates: it stops at the first update that does not hit exactly one row.\<close>

fun settle_slots ::
  "string \<Rightarrow> real \<Rightarrow> (string \<times> candidate_intent) list \<Rightarrow> candidate list \<Rightarrow> bool \<times> candidate list" where
  "settle_slots jid now [] cs = (True, cs)"
| "settle_slots jid now ((key, i) # ks) cs =
     (let cs' = update_where (slot_guard jid key i) (settle_row now i) cs in
      if rowcount (slot_guard jid key i) cs \<noteq> 1 then (False, cs')
      else settle_slots jid now ks cs')"

definition commit_update ::
  "window_outcome \<Rightarrow> job_status \<Rightarrow> reason \<Rightarrow> real option \<Rightarrow> real \<Rightarrow> job \<Rightarrow> job" where
  "commit_update w status r next_at now j = j\<lparr>jb_status := status, jb_reason_code := r,
     jb_next_attempt_at := coalesce (jb_next_attempt_at j) next_at,
     jb_failed_stage := wo_failed_stage w,
     jb_exception_type := (if status = Unknown
        then Some (coalesce ''unknown'' (none_if_empty (coalesce [] (wo_exception_type w)))) else None),
     jb_lease_until := None, jb_claim_token := None,
     jb_canonical_count := wo_canonical_count w, jb_quarantine_count := wo_quarantine_count w,
     jb_discard_count := wo_discard_count w, jb_mark_write_count := wo_mark_write_count w,
     jb_merged_count := wo_merged_count w, jb_facts_rejected_count := wo_facts_rejected_count w,
     jb_failed_count := wo_failed_count w, jb_skipped_count := wo_skipped_idempotent_count w,
     jb_updated_at := now\<rparr>"

text \<open>\<open>UPDATE summary_task_counters SET value=value+? WHERE counter_name=?\<close> for each non-zero total.\<close>

fun bump_counters :: "(string \<times> int) list \<Rightarrow> (string \<Rightarrow> int option) \<Rightarrow> (string \<Rightarrow> int option)" where
  "bump_counters [] m = m"
| "bump_counters ((name, inc) # rs) m =
     bump_counters rs (if inc = 0 then m else m(name := map_option (\<lambda>v. v + inc) (m name)))"

definition outcome_totals :: "window_outcome \<Rightarrow> (string \<times> int) list" where
  "outcome_totals w =
     [(''canonical_total'', wo_canonical_count w), (''quarantine_total'', wo_quarantine_count w),
      (''discard_total'', wo_discard_count w), (''mark_write_total'', wo_mark_write_count w),
      (''merged_total'', wo_merged_count w), (''failed_candidate_total'', wo_failed_count w),
      (''skipped_idempotent_total'', wo_skipped_idempotent_count w)]"

text \<open>The last part of the transaction, once the ledger is settled.\<close>

definition commit_job ::
  "host \<Rightarrow> claimed_job \<Rightarrow> window_outcome \<Rightarrow> real \<Rightarrow> job_status \<times> reason \<times> real option \<Rightarrow>
   store \<Rightarrow> store \<Rightarrow> store \<times> completion_result" where
  "commit_job h c w now target st0 st =
     (let (status, r, next_at) = target in
      case checked_update (job_checks (ho_json h)) (close_guard c)
             (commit_update w status r next_at now) (st_jobs st) of
        None \<Rightarrow> (st0, completion False Unknown 0 RUnknown)
      | Some js \<Rightarrow>
          if rowcount (close_guard c) (st_jobs st) \<noteq> 1 then (st0, claim_lost)
          else (let st1 = st\<lparr>st_jobs := js, st_counters :=
                      (if status = Completed then bump_counters (outcome_totals w) (st_counters st)
                       else st_counters st)\<rparr>;
                    adv = advance_cursor (sj_session_id (cj_job c)) (sj_session_epoch (cj_job c)) now st1
                in (snd adv, completion True status (fst adv) r)))"

definition commit_window ::
  "host \<Rightarrow> string \<Rightarrow> claimed_job \<Rightarrow> window_outcome \<Rightarrow> real \<Rightarrow> real \<Rightarrow> real \<Rightarrow> store \<Rightarrow>
   store \<times> completion_result" where
  "commit_window h fresh c w now mnow mnow2 st =
     (let jid = sj_job_id (cj_job c);
          unresolved = mark_unknown_claim c now RLedgerUnresolved (wo_exception_type w) mnow2 st in
      if \<not> st_connected st then (st, completion False Unknown 0 RStoreUnavailable)
      else if \<not> claim_matches c mnow st then (st, claim_lost)
      else if \<not> valid_window_outcome w
      then mark_unknown_claim c now RInvalidAction (Some ''unknown'') mnow2 st st
      else case commit_status w (sj_attempt_count (cj_job c)) now of
        None \<Rightarrow> (st, completion False Unknown 0 RUnknown)
      | Some target \<Rightarrow>
          (case key_intents h fresh jid (wo_candidate_slots w) [] st of
             (None, st1) \<Rightarrow> unresolved st1
           | (Some ks, st1) \<Rightarrow>
               if \<not> ledger_agrees jid ks (st_candidates st1) then unresolved st1
               else (case settle_slots jid now ks (st_candidates st1) of
                       (False, cs) \<Rightarrow> unresolved (st1\<lparr>st_candidates := cs\<rparr>)
                     | (True, cs) \<Rightarrow> commit_job h c w now target st (st1\<lparr>st_candidates := cs\<rparr>))))"

section \<open>Updates that close a claim\<close>

text \<open>
  The contract of every update behind \<open>close_guard\<close>: the job leaves \<open>running\<close>, drops token and
  lease, keeps its generation and gains no attempt. It is a job update, and it ends the claim.
\<close>

locale closing_update =
  fixes upd :: "job \<Rightarrow> job"
  assumes closing_frame: "job_frame upd"
    and closes: "jb_status (upd j) \<noteq> Running \<and> jb_claim_token (upd j) = None \<and>
      jb_lease_until (upd j) = None \<and> jb_worker_generation (upd j) = jb_worker_generation j"
    and attempts: "0 \<le> jb_attempt_count j \<Longrightarrow>
      0 \<le> jb_attempt_count (upd j) \<and> jb_attempt_count (upd j) \<le> jb_attempt_count j"

sublocale closing_update \<subseteq> closed: job_update "close_guard c" upd for c
proof unfold_locales
  fix j
  show "job_frame upd" by (rule closing_frame)
  show "close_guard c j \<Longrightarrow> spent_status (jb_status j) \<Longrightarrow> spent_status (jb_status (upd j))"
    by (simp add: close_guard_def spent_status_def)
  show "close_guard c j \<Longrightarrow> job_ok j \<Longrightarrow> job_ok (upd j)"
    using closes [of j] attempts [of j] by (auto simp: job_ok_def)
  show "close_guard c j \<Longrightarrow> job_ok j \<Longrightarrow> claim_evolves j (upd j)"
    using closes [of j] by (simp add: claim_evolves_def close_guard_def)
qed

text \<open>A claim whose job has a higher generation, or is not running, is dead; it stays dead.\<close>

definition claim_dead :: "claimed_job \<Rightarrow> store \<Rightarrow> bool" where
  "claim_dead c st \<longleftrightarrow> (\<exists>j \<in> set (st_jobs st). jb_job_id j = sj_job_id (cj_job c) \<and>
     (cj_worker_generation c < jb_worker_generation j \<or>
      (cj_worker_generation c = jb_worker_generation j \<and> jb_status j \<noteq> Running)))"

lemma claim_dead_evolves: "claim_dead c st \<Longrightarrow> store_evolves st st' \<Longrightarrow> claim_dead c st'"
  unfolding claim_dead_def store_evolves_def job_evolves_def claim_evolves_def
  by (metis order_less_le_trans order_le_imp_less_or_eq)

lemma claim_dead_no_match:
  assumes "claim_dead c st" "store_ok st"
  shows "\<not> claim_matches c t st" and "rowcount (close_guard c) (st_jobs st) = 0"
proof -
  from assms(1) obtain j where j: "j \<in> set (st_jobs st)" "jb_job_id j = sj_job_id (cj_job c)"
    "cj_worker_generation c < jb_worker_generation j \<or>
      (cj_worker_generation c = jb_worker_generation j \<and> jb_status j \<noteq> Running)"
    by (auto simp: claim_dead_def)
  have k: "k = j" if "k \<in> set (st_jobs st)" "jb_job_id k = sj_job_id (cj_job c)" for k
    using key_unique [OF store_okD(1) [OF assms(2)] j(1) that(1)] that(2) j(2) by simp
  show "\<not> claim_matches c t st"
  proof
    assume "claim_matches c t st"
    then obtain i where i: "i \<in> set (st_jobs st)" "fence_row (claim_fence c) t st i"
      by (auto simp: claim_matches_def list_ex_iff)
    then have "jb_job_id i = sj_job_id (cj_job c)" "jb_status i = Running"
      "jb_worker_generation i = cj_worker_generation c"
      by (simp_all add: fence_row_def claim_fence_def Let_def)
    with k [OF i(1)] j(3) show False by auto
  qed
  show "rowcount (close_guard c) (st_jobs st) = 0"
    unfolding rowcount_zero
  proof (intro ballI notI)
    fix i assume i: "i \<in> set (st_jobs st)" "close_guard c i"
    with k [OF i(1)] j(3) show False by (auto simp: close_guard_def)
  qed
qed

context closing_update
begin

lemma closed_safe:
  "st_jobs st' = update_where (close_guard c) upd (st_jobs st) \<Longrightarrow> st_epochs st' = st_epochs st \<Longrightarrow>
     safe_step st st'"
  by (rule closed.safe)

lemma claim_ends:
  assumes "rowcount (close_guard c) (st_jobs st) = 1"
    and "st_jobs st' = update_where (close_guard c) upd (st_jobs st)"
  shows "claim_dead c st'"
proof -
  from assms(1) have "rowcount (close_guard c) (st_jobs st) \<noteq> 0" by simp
  then obtain j where j: "j \<in> set (st_jobs st)" "close_guard c j"
    unfolding rowcount_zero by blast
  then have "upd j \<in> set (st_jobs st')" by (auto simp: assms(2) set_update_where)
  with j(2) closes [of j] closing_frame show ?thesis
    unfolding claim_dead_def by (intro bexI [of _ "upd j"]) (auto simp: close_guard_def job_frame_def)
qed

end

interpretation unknown: closing_update "unknown_update r e now" for r e now
  by unfold_locales (simp_all add: unknown_update_def job_frame_def)

lemma commit_closing: "status \<noteq> Running \<Longrightarrow> closing_update (commit_update w status r n now)"
  by unfold_locales (simp_all add: commit_update_def job_frame_def)

lemma commit_status_not_running: "commit_status w a now = Some target \<Longrightarrow> fst target \<noteq> Running"
  by (auto simp: commit_status_def split: if_splits sum.splits)

section \<open>Committing is safe and final\<close>

lemma claim_matches_frame:
  "st_jobs st' = st_jobs st \<Longrightarrow> st_epochs st' = st_epochs st \<Longrightarrow> claim_matches c t st' = claim_matches c t st"
  by (simp add: claim_matches_def fence_row_def [abs_def] current_job_def epoch_at_def)

lemma key_intents_frame:
  "st_jobs (snd (key_intents h fresh jid is seen st)) = st_jobs st \<and>
   st_epochs (snd (key_intents h fresh jid is seen st)) = st_epochs st \<and>
   st_candidates (snd (key_intents h fresh jid is seen st)) = st_candidates st \<and>
   st_counters (snd (key_intents h fresh jid is seen st)) = st_counters st \<and>
   st_messages (snd (key_intents h fresh jid is seen st)) = st_messages st \<and>
   st_connected (snd (key_intents h fresh jid is seen st)) = st_connected st"
  by (induction "is" arbitrary: seen st) (simp_all add: Let_def)

text \<open>Either nothing is stored and the call is refused, or the claim is closed.\<close>

definition closes_claim :: "claimed_job \<Rightarrow> store \<Rightarrow> store \<times> completion_result \<Rightarrow> bool" where
  "closes_claim c st res \<longleftrightarrow>
     (\<not> cr_accepted (snd res) \<and> fst res = st) \<or>
     (cr_accepted (snd res) \<and> safe_step st (fst res) \<and>
        (store_ok st \<longrightarrow> claim_dead c (fst res)))"

lemma mark_unknown_closes:
  assumes "st_jobs st = st_jobs st0" "st_epochs st = st_epochs st0"
  shows "closes_claim c st0 (mark_unknown_claim c now r e mnow st0 st)"
proof (cases "claim_matches c mnow st \<and> rowcount (close_guard c) (st_jobs st) = 1")
  case True
  let ?st' = "fst (mark_unknown_claim c now r e mnow st0 st)"
  from True have jobs: "st_jobs ?st' = update_where (close_guard c) (unknown_update r e now) (st_jobs st0)"
    "st_epochs ?st' = st_epochs st0"
    by (simp_all add: mark_unknown_claim_def Let_def assms)
  have "safe_step st0 ?st'" by (rule unknown.closed.safe [OF jobs])
  moreover have "claim_dead c ?st'"
    using True by (intro unknown.claim_ends [OF _ jobs(1)]) (simp add: assms)
  ultimately show ?thesis
    using True by (simp add: closes_claim_def mark_unknown_claim_def Let_def completion_def)
next
  case False
  then show ?thesis
    by (auto simp: closes_claim_def mark_unknown_claim_def Let_def claim_lost_def completion_def)
qed

lemma commit_job_closes:
  assumes "st_jobs st = st_jobs st0" "st_epochs st = st_epochs st0" "fst target \<noteq> Running"
  shows "closes_claim c st0 (commit_job h c w now target st0 st)"
proof -
  obtain status r n where t: "target = (status, r, n)" by (cases target)
  show ?thesis
  proof (cases "rowcount (close_guard c) (st_jobs st) = 1 \<and>
      (\<forall>j \<in> set (st_jobs st). close_guard c j \<longrightarrow> job_checks (ho_json h) (commit_update w status r n now j))")
    case True
    let ?u = "commit_update w status r n now"
    have cu: "closing_update ?u" using assms(3) t by (intro commit_closing) simp
    let ?st1 = "st\<lparr>st_jobs := update_where (close_guard c) ?u (st_jobs st),
      st_counters := (if status = Completed then bump_counters (outcome_totals w) (st_counters st)
        else st_counters st)\<rparr>"
    let ?st' = "snd (advance_cursor (sj_session_id (cj_job c)) (sj_session_epoch (cj_job c)) now ?st1)"
    have res: "commit_job h c w now target st0 st = (?st', completion True status
        (fst (advance_cursor (sj_session_id (cj_job c)) (sj_session_epoch (cj_job c)) now ?st1)) r)"
      using True by (simp add: commit_job_def t checked_update_def Let_def)
    have "safe_step st0 ?st1"
      by (rule closing_update.closed_safe [OF cu]) (simp_all add: assms)
    moreover have "safe_step ?st1 ?st'" by (rule advance_cursor_safe)
    ultimately have "safe_step st0 ?st'" by (rule safe_step_trans)
    moreover have "claim_dead c ?st'"
      by (rule closing_update.claim_ends [OF cu, of c st]) (use True in simp_all)
    ultimately show ?thesis by (simp add: res closes_claim_def completion_def)
  next
    case False
    then show ?thesis
      by (auto simp: closes_claim_def commit_job_def t checked_update_def claim_lost_def
          completion_def Let_def)
  qed
qed

theorem commit_window_closes: "closes_claim c st (commit_window h fresh c w now mnow mnow2 st)"
proof -
  let ?jid = "sj_job_id (cj_job c)"
  obtain ko st1 where k: "key_intents h fresh ?jid (wo_candidate_slots w) [] st = (ko, st1)"
    by (cases "key_intents h fresh ?jid (wo_candidate_slots w) [] st")
  have fr: "st_jobs st1 = st_jobs st" "st_epochs st1 = st_epochs st"
    using key_intents_frame [of h fresh ?jid "wo_candidate_slots w" "[]" st] k by simp_all
  have lost: "closes_claim c st (st, claim_lost)" "closes_claim c st (st, completion False s n r)"
    for s n r by (simp_all add: closes_claim_def claim_lost_def completion_def)
  have m0: "closes_claim c st (mark_unknown_claim c now r e m st st)" for r e m
    by (rule mark_unknown_closes) simp_all
  have m1: "closes_claim c st (mark_unknown_claim c now r e m st st1)" for r e m
    by (rule mark_unknown_closes) (simp_all add: fr)
  have m2: "closes_claim c st (mark_unknown_claim c now r e m st (st1\<lparr>st_candidates := cs\<rparr>))"
    for r e m cs by (rule mark_unknown_closes) (simp_all add: fr)
  have j: "closes_claim c st (commit_job h c w now target st (st1\<lparr>st_candidates := cs\<rparr>))"
    if "commit_status w a now = Some target" for a target cs
    by (rule commit_job_closes) (simp_all add: fr commit_status_not_running [OF that])
  show ?thesis
    using lost m0 m1 m2 j unfolding commit_window_def Let_def k
    by (simp split: option.split prod.split bool.split)
qed

text \<open>A window is closed at most once: after an accepted commit, every later commit, whatever happened
  in between, is refused as stale and leaves the store as it is.\<close>

lemma commit_window_once:
  assumes "commit_window h fresh c w now mnow mnow2 st = (st1, r1)" "cr_accepted r1"
    and "store_ok st" "store_evolves st1 st2" "store_ok st2" "st_connected st2"
  shows "commit_window h' fresh' c w' now' mnow' mnow2' st2 = (st2, claim_lost)"
proof -
  have "claim_dead c st1"
    using commit_window_closes [of c st h fresh w now mnow mnow2] assms(1-3)
    by (auto simp: closes_claim_def)
  then have "claim_dead c st2" using assms(4) by (rule claim_dead_evolves)
  then have "\<not> claim_matches c mnow' st2" using assms(5) by (rule claim_dead_no_match)
  with assms(6) show ?thesis by (simp add: commit_window_def Let_def)
qed

end
