(* ===== verification/Summary_Ledger.thy ===== *)
theory Summary_Ledger
  imports Summary_Commit
begin

text \<open>
  Ledger evidence (\<open>summary_store_ledger.py\<close>): when the candidate ledger of an epoch forbids deleting
  its source messages, and when the ledger of a closed job matches the job's counters. The main
  result joins it to \<open>commit_window\<close>: a window committed as completed leaves a ledger that does not
  block the trim.
\<close>

section \<open>The four queries\<close>

definition owner_dispositions :: "disposition list" where
  "owner_dispositions = [Canonical, MarkWrite, Merged, SkippedIdempotent]"

fun job_count :: "job \<Rightarrow> disposition \<Rightarrow> int" where
  "job_count j Canonical = jb_canonical_count j"
| "job_count j Quarantined = jb_quarantine_count j"
| "job_count j Discard = jb_discard_count j"
| "job_count j MarkWrite = jb_mark_write_count j"
| "job_count j Merged = jb_merged_count j"
| "job_count j DFailed = jb_failed_count j"
| "job_count j SkippedIdempotent = jb_skipped_count j"

definition job_total :: "job \<Rightarrow> int" where
  "job_total j = sum_list (map (job_count j) dispositions)"

definition ledger_count :: "candidate list \<Rightarrow> disposition \<Rightarrow> int" where
  "ledger_count rows d = rowcount (\<lambda>c. cd_disposition c = Some d) rows"

text \<open>An open job with an unsettled slot.\<close>

definition open_slot_blocks :: "candidate list \<Rightarrow> job \<Rightarrow> bool" where
  "open_slot_blocks cs j \<longleftrightarrow> \<not> settled_status (jb_status j) \<and>
     list_ex (\<lambda>c. cd_status c \<in> {Planned, Writing, LFailed, LUnknown}) (job_ledger (jb_job_id j) cs)"

text \<open>A closed job with a slot whose state, disposition and owner do not fit together.\<close>

definition bad_terminal_row :: "candidate \<Rightarrow> bool" where
  "bad_terminal_row c \<longleftrightarrow>
     cd_status c \<notin> {Committed, LFailed} \<or> cd_disposition c = None \<or>
     (\<exists>d \<in> set owner_dispositions. cd_disposition c = Some d \<and>
        (cd_status c \<noteq> Committed \<or> cd_canonical_id c = None)) \<or>
     (cd_disposition c \<in> {Some Quarantined, Some Discard} \<and>
        (cd_status c \<noteq> Committed \<or> cd_canonical_id c \<noteq> None)) \<or>
     (cd_disposition c = Some DFailed \<and> cd_status c \<noteq> LFailed)"

definition bad_slot_blocks :: "candidate list \<Rightarrow> job \<Rightarrow> bool" where
  "bad_slot_blocks cs j \<longleftrightarrow> settled_status (jb_status j) \<and>
     list_ex bad_terminal_row (job_ledger (jb_job_id j) cs)"

text \<open>A closed job that counted results and has no ledger.\<close>

definition missing_ledger_blocks :: "candidate list \<Rightarrow> job \<Rightarrow> bool" where
  "missing_ledger_blocks cs j \<longleftrightarrow>
     settled_status (jb_status j) \<and> 0 < job_total j \<and> job_ledger (jb_job_id j) cs = []"

text \<open>A closed job whose counters differ from its ledger.\<close>

definition count_mismatch_blocks :: "candidate list \<Rightarrow> job \<Rightarrow> bool" where
  "count_mismatch_blocks cs j \<longleftrightarrow> settled_status (jb_status j) \<and>
     (int (length (job_ledger (jb_job_id j) cs)) \<noteq> job_total j \<or>
      (\<exists>d \<in> set dispositions. ledger_count (job_ledger (jb_job_id j) cs) d \<noteq> job_count j d))"

definition job_blocks_trim :: "candidate list \<Rightarrow> job \<Rightarrow> bool" where
  "job_blocks_trim cs j \<longleftrightarrow> open_slot_blocks cs j \<or> bad_slot_blocks cs j \<or>
     missing_ledger_blocks cs j \<or> count_mismatch_blocks cs j"

definition ledger_blocks_trim :: "store \<Rightarrow> string \<Rightarrow> int \<Rightarrow> bool" where
  "ledger_blocks_trim st s e \<longleftrightarrow>
     list_ex (open_slot_blocks (st_candidates st)) (epoch_jobs st s e) \<or>
     list_ex (bad_slot_blocks (st_candidates st)) (epoch_jobs st s e) \<or>
     list_ex (missing_ledger_blocks (st_candidates st)) (epoch_jobs st s e) \<or>
     list_ex (count_mismatch_blocks (st_candidates st)) (epoch_jobs st s e)"

lemma ledger_blocks_trim_iff:
  "ledger_blocks_trim st s e \<longleftrightarrow> (\<exists>j \<in> set (epoch_jobs st s e). job_blocks_trim (st_candidates st) j)"
  by (auto simp: ledger_blocks_trim_def job_blocks_trim_def list_ex_iff)

text \<open>\<open>_terminal_ledger_matches_job\<close>: non-negative counters, and the ledger counts them all.\<close>

fun tally :: "candidate list \<Rightarrow> (disposition \<Rightarrow> int) \<Rightarrow> (disposition \<Rightarrow> int) option" where
  "tally [] actual = Some actual"
| "tally (c # cs) actual = (case cd_disposition c of
      None \<Rightarrow> None
    | Some d \<Rightarrow> tally cs (actual(d := actual d + 1)))"

definition terminal_ledger_matches_job :: "job \<Rightarrow> candidate list \<Rightarrow> bool" where
  "terminal_ledger_matches_job j rows \<longleftrightarrow>
     (\<forall>d \<in> set dispositions. 0 \<le> job_count j d) \<and>
     (case tally rows (\<lambda>_. 0) of
        None \<Rightarrow> False
      | Some actual \<Rightarrow> int (length rows) = job_total j \<and>
          (\<forall>d \<in> set dispositions. actual d = job_count j d))"

section \<open>The tally is the SQL count\<close>

lemma tally_count:
  "tally rows a = Some actual \<Longrightarrow>
     (\<forall>c \<in> set rows. cd_disposition c \<noteq> None) \<and> actual d = a d + ledger_count rows d"
proof (induction rows arbitrary: a)
  case Nil
  then show ?case by (simp add: ledger_count_def)
next
  case (Cons c rows)
  then obtain e where e: "cd_disposition c = Some e" by (auto split: option.splits)
  with Cons.prems have "tally rows (a(e := a e + 1)) = Some actual" by simp
  from Cons.IH [OF this] e show ?case by (auto simp: ledger_count_def)
qed

lemma tally_total: "\<forall>c \<in> set rows. cd_disposition c \<noteq> None \<Longrightarrow> \<exists>actual. tally rows a = Some actual"
proof (induction rows arbitrary: a)
  case (Cons c rows)
  then obtain e where "cd_disposition c = Some e" by auto
  with Cons show ?case by simp
qed simp

text \<open>The two readings of a closed job's ledger, in Python and in SQL, agree.\<close>

lemma terminal_ledger_matches_sql:
  assumes "\<forall>d \<in> set dispositions. 0 \<le> job_count j d" "settled_status (jb_status j)"
    and "\<forall>c \<in> set (job_ledger (jb_job_id j) cs). cd_disposition c \<noteq> None"
  shows "terminal_ledger_matches_job j (job_ledger (jb_job_id j) cs) \<longleftrightarrow>
    \<not> count_mismatch_blocks cs j"
proof -
  obtain actual where a: "tally (job_ledger (jb_job_id j) cs) (\<lambda>_. 0) = Some actual"
    using tally_total [OF assms(3)] by blast
  then have "actual d = ledger_count (job_ledger (jb_job_id j) cs) d" for d
    using tally_count [OF a, of d] by simp
  with a assms(1,2) show ?thesis
    by (auto simp: terminal_ledger_matches_job_def count_mismatch_blocks_def)
qed

section \<open>Settling the slots\<close>

interpretation settle: ledger_update "settle_row now i" for now i
  by unfold_locales (simp add: settle_row_def evidence_kept_def ledger_key_def)

interpretation forget: ledger_update "forget_row now" for now
  by unfold_locales (simp add: forget_row_def evidence_kept_def ledger_key_def)

definition settle_one :: "string \<Rightarrow> real \<Rightarrow> string \<times> candidate_intent \<Rightarrow> candidate \<Rightarrow> candidate" where
  "settle_one jid now ki c =
     (if slot_guard jid (fst ki) (snd ki) c then settle_row now (snd ki) c else c)"

lemma settle_slots_map:
  "settle_slots jid now ks cs = (True, cs') \<Longrightarrow> cs' = map (fold (settle_one jid now) ks) cs"
proof (induction ks arbitrary: cs)
  case (Cons ki ks)
  obtain k i where ki: "ki = (k, i)" by (cases ki)
  from Cons.prems ki have "settle_slots jid now ks
      (update_where (slot_guard jid k i) (settle_row now i) cs) = (True, cs')"
    by (auto simp: Let_def split: if_splits)
  from Cons.IH [OF this] ki show ?case
    by (simp add: update_where_def settle_one_def comp_def)
qed simp

lemma slot_guard_settle: "slot_guard jid k i (settle_row now i' c) = slot_guard jid k i c"
  by (simp add: slot_guard_def settle_row_def same_evidence_def)

lemma fold_settle_other:
  "\<forall>(k, i) \<in> set ks. ci_slot i \<noteq> cd_slot c \<or> cd_job_id c \<noteq> jid \<Longrightarrow> fold (settle_one jid now) ks c = c"
proof (induction ks)
  case (Cons ki ks)
  then have "settle_one jid now ki c = c"
    by (cases ki) (auto simp: settle_one_def slot_guard_def)
  with Cons show ?case by simp
qed simp

lemma fold_settle_hit:
  assumes "distinct (map (ci_slot \<circ> snd) ks)" "(k, i) \<in> set ks" "slot_guard jid k i c"
  shows "fold (settle_one jid now) ks c = settle_row now i c"
  using assms(1,2)
proof (induction ks)
  case (Cons ki ks)
  show ?case
  proof (cases "ki = (k, i)")
    case True
    have "\<forall>(k', i') \<in> set ks. ci_slot i' \<noteq> cd_slot c"
      using Cons.prems(1) True assms(3) by (force simp: slot_guard_def)
    then have "\<forall>(k', i') \<in> set ks. ci_slot i' \<noteq> cd_slot (settle_row now i c) \<or>
        cd_job_id (settle_row now i c) \<noteq> jid"
      by (fastforce simp: settle_row_def)
    then have "fold (settle_one jid now) ks (settle_row now i c) = settle_row now i c"
      by (rule fold_settle_other)
    moreover have "settle_one jid now ki c = settle_row now i c"
      using True assms(3) by (simp add: settle_one_def)
    ultimately show ?thesis by simp
  next
    case False
    then have "(k, i) \<in> set ks" using Cons.prems(2) by simp
    moreover have "ci_slot (snd ki) \<noteq> ci_slot i"
      using Cons.prems(1) \<open>(k, i) \<in> set ks\<close> by force
    then have "settle_one jid now ki c = c"
      using assms(3) by (auto simp: settle_one_def slot_guard_def)
    ultimately show ?thesis using Cons by simp
  qed
qed simp

section \<open>A completed window has a ledger that does not block\<close>

text \<open>Counting through a key: two lists with the same keys, and the same property at equal keys.\<close>

lemma count_through_key:
  assumes "distinct (map k1 xs)" "distinct (map k2 ys)" "k1 ` set xs = k2 ` set ys"
    and "\<And>x y. x \<in> set xs \<Longrightarrow> y \<in> set ys \<Longrightarrow> k1 x = k2 y \<Longrightarrow> p x = q y"
  shows "rowcount p xs = rowcount q ys"
proof -
  have "k1 ` set (filter p xs) = k2 ` set (filter q ys)"
  proof (intro equalityI subsetI)
    fix z assume "z \<in> k1 ` set (filter p xs)"
    then obtain x where x: "x \<in> set xs" "p x" "z = k1 x" by auto
    then obtain y where "y \<in> set ys" "k1 x = k2 y" using assms(3) by blast
    with x assms(4) show "z \<in> k2 ` set (filter q ys)" by auto
  next
    fix z assume "z \<in> k2 ` set (filter q ys)"
    then obtain y where y: "y \<in> set ys" "q y" "z = k2 y" by auto
    then obtain x where "x \<in> set xs" "k1 x = k2 y" using assms(3) by (metis image_iff)
    with y assms(4) have "x \<in> set (filter p xs)" "z = k1 x" by auto
    then show "z \<in> k1 ` set (filter p xs)" by blast
  qed
  moreover have "card (k1 ` set (filter p xs)) = length (filter p xs)"
    using distinct_card [OF distinct_map_filter [OF assms(1), of p]] by simp
  moreover have "card (k2 ` set (filter q ys)) = length (filter q ys)"
    using distinct_card [OF distinct_map_filter [OF assms(2), of q]] by simp
  ultimately show ?thesis by (simp add: rowcount_def)
qed

lemma key_intents_distinct:
  "fst (key_intents h fresh jid is seen st) = Some ks \<Longrightarrow>
     map snd ks = is \<and> distinct (map ci_slot is) \<and> set (map ci_slot is) \<inter> set seen = {}"
proof (induction "is" arbitrary: seen st ks)
  case (Cons i "is")
  from Cons.prems obtain ks1 where 1: "fst (key_intents h fresh jid is (ci_slot i # seen)
      (snd (owned_slot_key h fresh jid (ci_slot i) (ci_content_digest i) st))) = Some ks1"
    "map snd ks = i # map snd ks1" "ci_slot i \<notin> set seen"
    by (auto simp: Let_def split: if_splits)
  from Cons.IH [OF 1(1)] 1(2,3) show ?case by auto
qed simp

text \<open>A valid outcome that may advance has only committed slots.\<close>

lemma scan_slots_count:
  "scan_slots is a u = Some (actual, unknown) \<Longrightarrow>
     actual d = a d + rowcount (\<lambda>i. ci_status i \<noteq> LUnknown \<and> ci_disposition i = Some d) is \<and>
     unknown = u + rowcount (\<lambda>i. ci_status i = LUnknown) is \<and>
     (\<forall>i \<in> set is. ci_status i = LUnknown \<or> (\<exists>d. ci_disposition i = Some d \<and>
        (ci_status i = Committed \<and> d \<noteq> DFailed \<or> ci_status i = LFailed \<and> d = DFailed)))"
proof (induction "is" arbitrary: a u)
  case (Cons i "is")
  show ?case
  proof (cases "ci_status i = LUnknown")
    case True
    with Cons.prems have "scan_slots is a (u + 1) = Some (actual, unknown)" by (simp split: if_splits)
    from Cons.IH [OF this] True show ?thesis by simp
  next
    case False
    with Cons.prems obtain e where e: "ci_disposition i = Some e"
      "ci_status i = Committed \<and> e \<noteq> DFailed \<or> ci_status i = LFailed \<and> e = DFailed"
      "scan_slots is (a(e := a e + 1)) u = Some (actual, unknown)"
      by (auto split: if_splits option.splits)
    from Cons.IH [OF e(3)] e(1,2) False show ?thesis by auto
  qed
qed simp

lemma advancing_outcome:
  assumes "valid_window_outcome w" "wo_can_advance w"
  shows "\<forall>i \<in> set (wo_candidate_slots w). \<exists>d. ci_disposition i = Some d \<and> d \<noteq> DFailed \<and> ci_status i = Committed"
    and "expected_count w d = rowcount (\<lambda>i. ci_disposition i = Some d) (wo_candidate_slots w)"
    and "wo_unknown_count w = 0" and "wo_failed_count w = 0"
proof -
  let ?is = "wo_candidate_slots w"
  from assms obtain actual unknown where s: "scan_slots ?is (\<lambda>_. 0) 0 = Some (actual, unknown)"
    "unknown = 0" "wo_unknown_count w = unknown" "wo_failed_count w = 0"
    "\<forall>d \<in> set dispositions. actual d = expected_count w d"
    by (auto simp: valid_window_outcome_def split: option.splits)
  have all: "d \<in> set dispositions" for d by (cases d) (simp_all add: dispositions_def)
  note c = scan_slots_count [OF s(1)]
  show "wo_unknown_count w = 0" "wo_failed_count w = 0" using s by simp_all
  have nu: "\<forall>i \<in> set ?is. ci_status i \<noteq> LUnknown"
    using c s(2) by (simp add: rowcount_zero)
  have "actual DFailed = 0" using s(4,5) all [of DFailed] by simp
  then have nf: "\<forall>i \<in> set ?is. \<not> (ci_status i \<noteq> LUnknown \<and> ci_disposition i = Some DFailed)"
    using c [of DFailed] by (simp add: rowcount_zero)
  show "\<forall>i \<in> set ?is. \<exists>d. ci_disposition i = Some d \<and> d \<noteq> DFailed \<and> ci_status i = Committed"
    using c nu nf by blast
  have "rowcount (\<lambda>i. ci_status i \<noteq> LUnknown \<and> ci_disposition i = Some d) ?is =
      rowcount (\<lambda>i. ci_disposition i = Some d) ?is"
    using nu by (intro rowcount_cong) simp
  with c [of d] s(5) all [of d] show "expected_count w d = rowcount (\<lambda>i. ci_disposition i = Some d) ?is"
    by simp
qed

text \<open>What a commit that ends in \<open>completed\<close> has done.\<close>

definition completed_commit ::
  "claimed_job \<Rightarrow> window_outcome \<Rightarrow> real \<Rightarrow> (string \<times> candidate_intent) list \<Rightarrow> store \<Rightarrow> store \<Rightarrow> bool"
where
  "completed_commit c w now ks st st' \<longleftrightarrow>
     valid_window_outcome w \<and> wo_can_advance w \<and> map snd ks = wo_candidate_slots w \<and>
     distinct (map ci_slot (wo_candidate_slots w)) \<and>
     ledger_agrees (sj_job_id (cj_job c)) ks (st_candidates st) \<and>
     settle_slots (sj_job_id (cj_job c)) now ks (st_candidates st) = (True, st_candidates st') \<and>
     rowcount (close_guard c) (st_jobs st) = 1 \<and>
     st_jobs st' = update_where (close_guard c)
       (commit_update w Completed (wo_reason_code w) None now) (st_jobs st) \<and>
     st_counters st' = bump_counters (outcome_totals w) (st_counters st)"

lemma commit_status_completed:
  "commit_status w a now = Some (Completed, r, n) \<Longrightarrow>
     wo_can_advance w \<and> r = wo_reason_code w \<and> n = None"
  by (auto simp: commit_status_def split: if_splits sum.splits)

lemma mark_unknown_status:
  "cr_status (snd (mark_unknown_claim c now r e m st0 st)) = Unknown"
  by (simp add: mark_unknown_claim_def claim_lost_def completion_def Let_def)

lemma commit_job_completed:
  assumes "commit_job h c w now target st0 st = (st', r)" "cr_accepted r" "cr_status r = Completed"
  obtains rr n where "target = (Completed, rr, n)" "rowcount (close_guard c) (st_jobs st) = 1"
    "st_jobs st' = update_where (close_guard c) (commit_update w Completed rr n now) (st_jobs st)"
    "st_candidates st' = st_candidates st"
    "st_counters st' = bump_counters (outcome_totals w) (st_counters st)"
  using assms
  by (cases target)
    (auto simp: commit_job_def Let_def completion_def claim_lost_def checked_update_Some
      split: option.splits if_splits)

lemma commit_window_completed:
  assumes "commit_window h fresh c w now mnow mnow2 st = (st', r)"
    and "cr_accepted r" "cr_status r = Completed"
  shows "\<exists>ks. completed_commit c w now ks st st'"
proof -
  let ?jid = "sj_job_id (cj_job c)"
  obtain ko st1 where k: "key_intents h fresh ?jid (wo_candidate_slots w) [] st = (ko, st1)"
    by (cases "key_intents h fresh ?jid (wo_candidate_slots w) [] st")
  have fr: "st_jobs st1 = st_jobs st" "st_candidates st1 = st_candidates st"
    "st_counters st1 = st_counters st"
    using key_intents_frame [of h fresh ?jid "wo_candidate_slots w" "[]" st] k by simp_all
  have mu: "mark_unknown_claim c now rr e m s0 s \<noteq> (st', r)" for rr e m s0 s
    using mark_unknown_status [of c now rr e m s0 s] assms(3) by auto
  have lost: "claim_lost \<noteq> r" "completion False s n rr \<noteq> r" for s n rr
    using assms(2) by (auto simp: claim_lost_def completion_def)
  from assms(1) have v: "valid_window_outcome w"
    by (auto simp: commit_window_def Let_def mu lost split: if_splits)
  from assms(1) v obtain target ks where t: "commit_status w (sj_attempt_count (cj_job c)) now = Some target"
    "ko = Some ks" "ledger_agrees ?jid ks (st_candidates st)"
    and s: "fst (settle_slots ?jid now ks (st_candidates st))"
    "commit_job h c w now target st
       (st1\<lparr>st_candidates := snd (settle_slots ?jid now ks (st_candidates st))\<rparr>) = (st', r)"
    by (auto simp: commit_window_def Let_def mu lost k fr split: if_splits option.splits prod.splits bool.splits)
  from commit_job_completed [OF s(2) assms(2,3)] obtain rr n where j:
    "target = (Completed, rr, n)" "rowcount (close_guard c) (st_jobs st) = 1"
    "st_jobs st' = update_where (close_guard c) (commit_update w Completed rr n now) (st_jobs st)"
    "st_candidates st' = snd (settle_slots ?jid now ks (st_candidates st))"
    "st_counters st' = bump_counters (outcome_totals w) (st_counters st)"
    by (auto simp: fr)
  have a: "wo_can_advance w" "rr = wo_reason_code w" "n = None"
    using commit_status_completed [of w _ now rr n] t(1) j(1) by auto
  have "map snd ks = wo_candidate_slots w \<and> distinct (map ci_slot (wo_candidate_slots w))"
    using key_intents_distinct [of h fresh ?jid "wo_candidate_slots w" "[]" st ks] k t(2) by simp
  moreover have "settle_slots ?jid now ks (st_candidates st) = (True, st_candidates st')"
    using s(1) j(4) by (cases "settle_slots ?jid now ks (st_candidates st)") simp
  ultimately show ?thesis using v a t(3) j unfolding completed_commit_def by blast
qed

text \<open>Each row of the job's settled ledger carries its intent.\<close>

lemma settled_rows:
  assumes cc: "completed_commit c w now ks st st'" and keyed: "keyed (st_candidates st)"
    and row: "d \<in> set (job_ledger (sj_job_id (cj_job c)) (st_candidates st'))"
  obtains i where "i \<in> set (wo_candidate_slots w)" "cd_slot d = ci_slot i"
    "cd_disposition d = ci_disposition i" "cd_status d = Committed"
    "cd_canonical_id d = ci_canonical_id i"
    "owner_disposition (ci_disposition i) \<longleftrightarrow> ci_canonical_id i \<noteq> None"
proof -
  let ?jid = "sj_job_id (cj_job c)" and ?cs = "st_candidates st"
  have set: "settle_slots ?jid now ks ?cs = (True, st_candidates st')"
    and agree: "ledger_agrees ?jid ks ?cs" and snd: "map snd ks = wo_candidate_slots w"
    and dist: "distinct (map ci_slot (wo_candidate_slots w))"
    and adv: "valid_window_outcome w" "wo_can_advance w"
    using cc by (simp_all add: completed_commit_def)
  have dks: "distinct (map (ci_slot \<circ> snd) ks)" using dist snd by (metis list.map_comp)
  from row settle_slots_map [OF set] obtain e where e: "e \<in> set ?cs"
    "d = fold (settle_one ?jid now) ks e" "cd_job_id d = ?jid" by (auto simp: job_ledger_def)
  have ej: "cd_job_id e = ?jid"
    using fold_settle_other [of ks e ?jid now] e(2,3) by (cases "cd_job_id e = ?jid") auto
  then have "cd_slot e \<in> cd_slot ` set (job_ledger ?jid ?cs)" using e(1) by (auto simp: job_ledger_def)
  then obtain k i where ki: "(k, i) \<in> set ks" "cd_slot e = ci_slot i"
    using agree by (auto simp: ledger_agrees_def)
  have "(\<lambda>x. cd_job_id x = ?jid \<and> cd_slot x = ci_slot i) = (\<lambda>x. ledger_key x = ledger_key e)"
    using ej ki(2) by (auto simp: ledger_key_def)
  then have "ledger_entry ?jid (ci_slot i) ?cs = Some e"
    using fetch_one_key [OF keyed [unfolded keyed_def] e(1)] by (simp add: ledger_entry_def)
  with agree ki(1) have sc: "slot_consistent e k i" by (auto simp: ledger_agrees_def)
  then have "slot_guard ?jid k i e" using ej ki(2) by (simp add: slot_guard_def slot_consistent_def)
  from fold_settle_hit [OF dks ki(1) this] e(2) have d: "d = settle_row now i e" by simp
  have i: "i \<in> set (wo_candidate_slots w)" using ki(1) snd by (metis image_eqI set_map snd_conv)
  with advancing_outcome(1) [OF adv] have "ci_status i = Committed" by blast
  with d sc ki(2) i show ?thesis
    by (intro that [of i]) (auto simp: settle_row_def slot_consistent_def split: option.splits)
qed

lemma settle_slots_frame:
  "keyed (snd (settle_slots jid now ks cs)) = keyed cs \<and>
   cd_slot ` set (job_ledger j (snd (settle_slots jid now ks cs))) = cd_slot ` set (job_ledger j cs)"
proof (induction ks arbitrary: cs)
  case (Cons ki ks)
  then show ?case
    by (cases ki) (simp add: Let_def settle.keyed_update settle.ledger_slots)
qed simp

lemma keyed_job_slots: "keyed cs \<Longrightarrow> distinct (map cd_slot (job_ledger jid cs))"
  by (auto simp: keyed_def job_ledger_def distinct_map inj_on_def ledger_key_def)

lemma commit_update_counts:
  "job_count (commit_update w s r n now j) d = expected_count w d"
  by (cases d) (simp_all add: commit_update_def)

lemma all_dispositions: "d \<in> set dispositions"
  by (cases d) (simp_all add: dispositions_def)

lemma rows_by_disposition:
  assumes "\<forall>x \<in> set rows. \<exists>d. f x = Some d"
  shows "int (length rows) = sum_list (map (\<lambda>d. rowcount (\<lambda>x. f x = Some d) rows) dispositions)"
  using assms
proof (induction rows)
  case Nil
  then show ?case by (simp add: dispositions_def)
next
  case (Cons x rows)
  then obtain e where "f x = Some e" by auto
  with Cons show ?case by (cases e) (simp_all add: dispositions_def)
qed

lemma completed_commit_ledger:
  assumes cc: "completed_commit c w now ks st st'" and keyed: "keyed (st_candidates st)"
    and j: "close_guard c j0" "j = commit_update w Completed (wo_reason_code w) None now j0"
  shows "\<not> job_blocks_trim (st_candidates st') j"
proof -
  let ?jid = "sj_job_id (cj_job c)" and ?is = "wo_candidate_slots w"
  let ?rows = "job_ledger ?jid (st_candidates st')"
  have id: "jb_job_id j = ?jid" and stat: "jb_status j = Completed"
    using j by (simp_all add: close_guard_def commit_update_def)
  have set: "settle_slots ?jid now ks (st_candidates st) = (True, st_candidates st')"
    and agree: "ledger_agrees ?jid ks (st_candidates st)" and snd: "map snd ks = ?is"
    and dist: "distinct (map ci_slot ?is)" and adv: "valid_window_outcome w" "wo_can_advance w"
    using cc by (simp_all add: completed_commit_def)
  have k': "keyed (st_candidates st')"
    using settle_slots_frame [of ?jid now ks "st_candidates st"] set keyed by simp
  have "cd_slot ` set ?rows = (\<lambda>(k, i). ci_slot i) ` set ks"
    using settle_slots_frame [of ?jid now ks "st_candidates st" ?jid] set agree
    by (simp add: ledger_agrees_def)
  also have "\<dots> = ci_slot ` set ?is" unfolding snd [symmetric] by (force simp: image_image)
  finally have slots: "cd_slot ` set ?rows = ci_slot ` set ?is" .
  note row = settled_rows [OF cc keyed]
  have cnt: "ledger_count ?rows d = job_count j d" for d
  proof -
    have "ledger_count ?rows d = rowcount (\<lambda>i. ci_disposition i = Some d) ?is"
      unfolding ledger_count_def
    proof (rule count_through_key [OF keyed_job_slots [OF k'] dist slots])
      fix x i assume x: "x \<in> set ?rows" "i \<in> set ?is" "cd_slot x = ci_slot i"
      from row [OF x(1)] obtain i' where "i' \<in> set ?is" "cd_slot x = ci_slot i'"
        "cd_disposition x = ci_disposition i'" by blast
      with x(2,3) key_unique [OF dist x(2), of i'] show "(cd_disposition x = Some d) = (ci_disposition i = Some d)"
        by simp
    qed
    with advancing_outcome(2) [OF adv, of d] show ?thesis by (simp add: j(2) commit_update_counts)
  qed
  have ok: "\<not> bad_terminal_row x \<and> (\<exists>d. cd_disposition x = Some d)" if x: "x \<in> set ?rows" for x
  proof -
    from row [OF x] obtain i where i: "i \<in> set ?is" "cd_disposition x = ci_disposition i"
      "cd_status x = Committed" "cd_canonical_id x = ci_canonical_id i"
      "owner_disposition (ci_disposition i) \<longleftrightarrow> ci_canonical_id i \<noteq> None" by blast
    with advancing_outcome(1) [OF adv] obtain d where "ci_disposition i = Some d" "d \<noteq> DFailed" by blast
    with i show ?thesis
      by (auto simp: bad_terminal_row_def owner_dispositions_def owner_disposition_def)
  qed
  have len: "int (length ?rows) = job_total j"
    unfolding job_total_def using rows_by_disposition [of ?rows cd_disposition] ok cnt
    by (simp add: ledger_count_def)
  have "?rows = [] \<Longrightarrow> job_total j = 0" using len by simp
  with ok cnt len show ?thesis
    by (auto simp: job_blocks_trim_def open_slot_blocks_def bad_slot_blocks_def
        missing_ledger_blocks_def count_mismatch_blocks_def id stat settled_status_def list_ex_iff)
qed

end
