(* ===== verification/Summary_Retries.thy ===== *)
theory Summary_Retries
  imports Summary_Ledger
begin

text \<open>
  The other ways a claim or a job ends (\<open>summary_store_terminal.py\<close>): failing with back-off,
  renewing a lease, giving a claim back, recovering expired leases, cancelling the jobs of an epoch,
  resetting the epoch, and clearing a session (\<open>summary_store_reconcile.py\<close>). The lemmas show that
  all keep the store safe, that attempts are bounded, and that recovery leaves no expired lease.
\<close>

section \<open>Failing a window\<close>

definition retry :: "bool \<Rightarrow> job_status \<Rightarrow> int \<Rightarrow> real \<Rightarrow> reason \<Rightarrow> retry_result" where
  "retry ok s n t r = \<lparr>rr_accepted = ok, rr_status = s, rr_attempt_count = n,
     rr_next_attempt_at = t, rr_reason_code = r\<rparr>"

definition fail_target :: "summary_failure \<Rightarrow> int \<Rightarrow> real \<Rightarrow> (job_status \<times> real \<times> reason) option" where
  "fail_target f attempts stamp =
     (if sf_cancelled f then Some (Cancelled, stamp, RCancelled)
      else if \<not> sf_retryable f \<or> 3 \<le> attempts then Some (Blocked, stamp, sf_reason_code f)
      else (case retry_delay_seconds attempts 5 300 of
              Inl _ \<Rightarrow> None
            | Inr d \<Rightarrow> Some (Failed, stamp + of_int d, sf_reason_code f)))"

definition fail_update ::
  "summary_failure \<Rightarrow> job_status \<Rightarrow> real \<Rightarrow> reason \<Rightarrow> real \<Rightarrow> job \<Rightarrow> job" where
  "fail_update f status next_at r stamp j = j\<lparr>jb_status := status, jb_next_attempt_at := next_at,
     jb_lease_until := None, jb_claim_token := None, jb_failed_stage := Some (sf_failed_stage f),
     jb_reason_code := r, jb_exception_type := Some (sf_exception_type f),
     jb_attempt_count := (if sf_cancelled f \<and> 0 < jb_attempt_count j
       then jb_attempt_count j - 1 else jb_attempt_count j),
     jb_updated_at := stamp\<rparr>"

definition fail_window ::
  "host \<Rightarrow> claimed_job \<Rightarrow> summary_failure \<Rightarrow> real \<Rightarrow> real \<Rightarrow> store \<Rightarrow> store \<times> retry_result" where
  "fail_window h c f now mnow st =
     (let stamp = max 0 now; attempts = sj_attempt_count (cj_job c);
          lost = retry False Unknown 0 0 RClaimLost; failed = retry False Unknown 0 0 RUnknown in
      if \<not> st_connected st then (st, retry False Unknown 0 0 RStoreUnavailable)
      else if \<not> claim_matches c mnow st then (st, lost)
      else case fail_target f attempts stamp of
        None \<Rightarrow> (st, failed)
      | Some (status, next_at, r) \<Rightarrow>
          (case checked_update (job_checks (ho_json h)) (close_guard c)
                  (fail_update f status next_at r stamp) (st_jobs st) of
             None \<Rightarrow> (st, failed)
           | Some js \<Rightarrow>
               if rowcount (close_guard c) (st_jobs st) \<noteq> 1 then (st, lost)
               else (snd (advance_cursor (sj_session_id (cj_job c)) (sj_session_epoch (cj_job c))
                       stamp (st\<lparr>st_jobs := js\<rparr>)),
                     retry True status attempts next_at r)))"

section \<open>Renewing and returning a claim\<close>

definition renew_guard :: "claimed_job \<Rightarrow> real \<Rightarrow> job \<Rightarrow> bool" where
  "renew_guard c stamp j \<longleftrightarrow> close_guard c j \<and>
     (case jb_lease_until j of None \<Rightarrow> False | Some t \<Rightarrow> stamp < t)"

definition renew_update :: "real \<Rightarrow> real \<Rightarrow> job \<Rightarrow> job" where
  "renew_update lease stamp j = j\<lparr>jb_lease_until := Some lease, jb_updated_at := stamp\<rparr>"

definition renew_claim :: "claimed_job \<Rightarrow> int \<Rightarrow> real \<Rightarrow> store \<Rightarrow> store \<times> bool" where
  "renew_claim c lease_seconds now st =
     (if \<not> st_connected st \<or> lease_seconds \<le> 0 then (st, False)
      else (let stamp = max 0 now in
        (st\<lparr>st_jobs := update_where (renew_guard c stamp)
              (renew_update (stamp + of_int (max 1 lease_seconds)) stamp) (st_jobs st)\<rparr>,
         rowcount (renew_guard c stamp) (st_jobs st) = 1)))"

definition requeue_update :: "reason \<Rightarrow> real \<Rightarrow> job \<Rightarrow> job" where
  "requeue_update r stamp j = j\<lparr>jb_status := Queued, jb_next_attempt_at := stamp,
     jb_lease_until := None, jb_claim_token := None,
     jb_attempt_count := (if 0 < jb_attempt_count j then jb_attempt_count j - 1 else 0),
     jb_reason_code := r, jb_updated_at := stamp\<rparr>"

definition requeue_claim :: "host \<Rightarrow> claimed_job \<Rightarrow> string \<Rightarrow> real \<Rightarrow> store \<Rightarrow> store \<times> bool" where
  "requeue_claim h c reason_code now st =
     (if \<not> st_connected st then (st, False)
      else (let stamp = max 0 now in
        case checked_update (job_checks (ho_json h)) (close_guard c)
               (requeue_update (reason_of_text reason_code) stamp) (st_jobs st) of
          None \<Rightarrow> (st, False)
        | Some js \<Rightarrow>
            (let st1 = st\<lparr>st_jobs := js\<rparr> in
             if rowcount (close_guard c) (st_jobs st) = 1
             then (snd (advance_cursor (sj_session_id (cj_job c)) (sj_session_epoch (cj_job c))
                     stamp st1), True)
             else (st1, False))))"

section \<open>Recovering expired leases\<close>

definition expired_row :: "real \<Rightarrow> job \<Rightarrow> bool" where
  "expired_row stamp j \<longleftrightarrow> jb_status j = Running \<and>
     (case jb_lease_until j of None \<Rightarrow> False | Some t \<Rightarrow> t \<le> stamp)"

definition recover_update :: "real \<Rightarrow> job \<Rightarrow> job" where
  "recover_update stamp j = j\<lparr>
     jb_status := (if 3 \<le> jb_attempt_count j then Blocked else Queued),
     jb_lease_until := None, jb_claim_token := None,
     jb_worker_generation := jb_worker_generation j + 1,
     jb_reason_code := (if 3 \<le> jb_attempt_count j then RRetryExhausted else RLeaseExpired),
     jb_failed_stage := (if 3 \<le> jb_attempt_count j then Some ''lease_recovery'' else jb_failed_stage j),
     jb_updated_at := stamp\<rparr>"

fun advance_all :: "(string \<times> int) list \<Rightarrow> real \<Rightarrow> store \<Rightarrow> store" where
  "advance_all [] stamp st = st"
| "advance_all ((s, e) # rs) stamp st = advance_all rs stamp (snd (advance_cursor s e stamp st))"

definition recover_expired_claims :: "real \<Rightarrow> store \<Rightarrow> store \<times> int" where
  "recover_expired_claims now st =
     (if \<not> st_connected st then (st, 0)
      else (let stamp = max 0 now;
                affected = remdups (map (\<lambda>j. (jb_session_id j, jb_session_epoch j))
                             (filter (expired_row stamp) (st_jobs st)))
            in (advance_all affected stamp
                  (st\<lparr>st_jobs := update_where (expired_row stamp) (recover_update stamp) (st_jobs st)\<rparr>),
                rowcount (expired_row stamp) (st_jobs st))))"

section \<open>Cancelling, resetting, clearing\<close>

definition cancel_guard :: "string \<Rightarrow> int \<Rightarrow> job \<Rightarrow> bool" where
  "cancel_guard s e j \<longleftrightarrow> in_epoch s e j \<and> jb_status j \<notin> {Completed, Cancelled, Abandoned}"

definition cancel_update :: "reason \<Rightarrow> real \<Rightarrow> job \<Rightarrow> job" where
  "cancel_update r now j = j\<lparr>jb_status := Cancelled, jb_claim_token := None,
     jb_lease_until := None, jb_reason_code := r, jb_updated_at := now\<rparr>"

text \<open>A reason text outside the enumeration is replaced by the operation's default.\<close>

definition reason_or :: "reason \<Rightarrow> string \<Rightarrow> reason" where
  "reason_or d s = (case map_of reason_table s of None \<Rightarrow> d | Some r \<Rightarrow> r)"

definition cancel_session_jobs :: "host \<Rightarrow> string \<Rightarrow> int \<Rightarrow> string \<Rightarrow> real \<Rightarrow> store \<Rightarrow> store \<times> int" where
  "cancel_session_jobs h s e reason_code now st =
     (if \<not> st_connected st then (st, 0)
      else case checked_update (job_checks (ho_json h)) (cancel_guard s e)
                  (cancel_update (reason_or RCancelled reason_code) now) (st_jobs st) of
        None \<Rightarrow> (st, 0)
      | Some js \<Rightarrow> (st\<lparr>st_jobs := js\<rparr>, rowcount (cancel_guard s e) (st_jobs st)))"

definition bump_epoch :: "string \<Rightarrow> int \<Rightarrow> real \<Rightarrow> store \<Rightarrow> store" where
  "bump_epoch s old now st = (case epoch_at st s old of
      None \<Rightarrow> st
    | Some r \<Rightarrow> st\<lparr>st_epochs := (st_epochs st)(s \<mapsto> r\<lparr>eo_epoch := old + 1, eo_cursor_seq := 0,
        eo_pending := None, eo_tombstoned_at := Some now, eo_updated_at := now\<rparr>)\<rparr>)"

definition epoch_answer :: "bool \<Rightarrow> int \<Rightarrow> int \<Rightarrow> reason \<Rightarrow> epoch_result" where
  "epoch_answer ok e n r =
     \<lparr>ep_accepted = ok, ep_epoch = e, ep_cancelled_count = n, ep_reason_code = r\<rparr>"

definition reset_session_epoch :: "host \<Rightarrow> string \<Rightarrow> string \<Rightarrow> real \<Rightarrow> store \<Rightarrow> store \<times> epoch_result" where
  "reset_session_epoch h s reason_code now st =
     (if \<not> st_connected st then (st, epoch_answer False 1 0 RStoreUnavailable)
      else (let es = ensure_epoch s now st; old = fst (fst es); st1 = snd es in
        case checked_update (job_checks (ho_json h)) (cancel_guard s old)
               (cancel_update (reason_or REpochFenced reason_code) now) (st_jobs st1) of
          None \<Rightarrow> (st, epoch_answer False 1 0 RStoreUnavailable)
        | Some js \<Rightarrow> (bump_epoch s old now (st1\<lparr>st_jobs := js\<rparr>),
            epoch_answer True (old + 1) (rowcount (cancel_guard s old) (st_jobs st1)) REpochFenced)))"

text \<open>\<open>protected\<close> is the answer of the quarantine store.\<close>

definition clear_session_atomically ::
  "host \<Rightarrow> string \<Rightarrow> bool \<Rightarrow> real \<Rightarrow> store \<Rightarrow> store \<times> int result" where
  "clear_session_atomically h s protected now st =
     (if \<not> st_connected st then (st, Inl (RuntimeError ''not initialised''))
      else if protected then (st, Inl (RuntimeError ''summary_source_protected''))
      else (let es = ensure_epoch s now st; epoch = fst (fst es); st1 = snd es in
        case checked_update (job_checks (ho_json h)) (cancel_guard s epoch)
               (cancel_update REpochFenced now) (st_jobs st1) of
          None \<Rightarrow> (st, Inl (RuntimeError ''IntegrityError''))
        | Some js \<Rightarrow>
            (bump_epoch s epoch now (st1\<lparr>st_jobs := js,
               st_messages := filter (\<lambda>m. ms_session_id m \<noteq> s) (st_messages st1),
               st_sessions := (st_sessions st1)(s := map_option
                 (\<lambda>r. r\<lparr>se_message_count := 0, se_metadata := Doc (\<lambda>_. None)\<rparr>) (st_sessions st1 s))\<rparr>),
             Inr (rowcount (\<lambda>m. ms_session_id m = s) (st_messages st1)))))"

section \<open>All are safe\<close>

lemma fail_closing: "status \<noteq> Running \<Longrightarrow> closing_update (fail_update f status t r stamp)"
  by unfold_locales (auto simp: fail_update_def job_frame_def)

interpretation requeueing: closing_update "requeue_update r stamp" for r stamp
  by unfold_locales (auto simp: requeue_update_def job_frame_def)

interpretation renewing: job_update "renew_guard c stamp" "renew_update lease stamp" for c stamp lease
  by unfold_locales
    (auto simp: job_frame_def renew_guard_def close_guard_def renew_update_def spent_status_def
      job_ok_def claim_evolves_def split: option.splits)

interpretation recovering: job_update "expired_row stamp" "recover_update stamp" for stamp
  by unfold_locales
    (auto simp: job_frame_def expired_row_def recover_update_def spent_status_def job_ok_def
      claim_evolves_def)

interpretation cancelling: job_update "cancel_guard s e" "cancel_update r now" for s e r now
  by unfold_locales
    (auto simp: job_frame_def cancel_guard_def cancel_update_def spent_status_def job_ok_def
      claim_evolves_def)

lemma fail_target_not_running: "fail_target f a stamp = Some target \<Longrightarrow> fst target \<noteq> Running"
  by (auto simp: fail_target_def split: if_splits sum.splits)

text \<open>Failing: refused with the store unchanged, or the claim is closed.\<close>

lemma fail_window_cases:
  obtains (refused) "fst (fail_window h c f now mnow st) = st"
      "\<not> rr_accepted (snd (fail_window h c f now mnow st))"
  | (failed) status next_at r where "fail_target f (sj_attempt_count (cj_job c)) (max 0 now) = Some (status, next_at, r)"
      "claim_matches c mnow st" "rowcount (close_guard c) (st_jobs st) = 1"
      "fail_window h c f now mnow st =
         (snd (advance_cursor (sj_session_id (cj_job c)) (sj_session_epoch (cj_job c)) (max 0 now)
            (st\<lparr>st_jobs := update_where (close_guard c) (fail_update f status next_at r (max 0 now))
               (st_jobs st)\<rparr>)),
          retry True status (sj_attempt_count (cj_job c)) next_at r)"
proof -
  let ?t = "fail_target f (sj_attempt_count (cj_job c)) (max 0 now)"
  show ?thesis
  proof (cases "st_connected st \<and> claim_matches c mnow st \<and> (\<exists>status next_at r. ?t = Some (status, next_at, r) \<and>
      rowcount (close_guard c) (st_jobs st) = 1 \<and>
      (\<forall>j \<in> set (st_jobs st). close_guard c j \<longrightarrow>
         job_checks (ho_json h) (fail_update f status next_at r (max 0 now) j)))")
    case True
    then show ?thesis
      by (elim conjE exE) (rule failed, simp_all add: fail_window_def Let_def checked_update_def)
  next
    case False
    then show ?thesis
      by (intro refused)
        (auto simp: fail_window_def Let_def retry_def checked_update_def split: option.splits if_splits)
  qed
qed

lemma fail_window_safe: "safe_step st (fst (fail_window h c f now mnow st))"
proof (cases rule: fail_window_cases [of h c f now mnow st])
  case (failed status next_at r)
  have "closing_update (fail_update f status next_at r (max 0 now))"
    using fail_target_not_running [OF failed(1)] by (intro fail_closing) simp
  from closing_update.closed_safe [OF this]
  have "safe_step st (st\<lparr>st_jobs := update_where (close_guard c)
      (fail_update f status next_at r (max 0 now)) (st_jobs st)\<rparr>)" by simp
  then show ?thesis unfolding failed(4) fst_conv by (rule safe_step_trans) (rule advance_cursor_safe)
qed simp

lemma fail_window_ends:
  assumes "rr_accepted (snd (fail_window h c f now mnow st))"
  shows "claim_dead c (fst (fail_window h c f now mnow st))"
proof (cases rule: fail_window_cases [of h c f now mnow st])
  case (failed status next_at r)
  have "closing_update (fail_update f status next_at r (max 0 now))"
    using fail_target_not_running [OF failed(1)] by (intro fail_closing) simp
  from closing_update.claim_ends [OF this failed(3)] show ?thesis unfolding failed(4) by simp
qed (use assms in simp)

lemma renew_claim_safe: "safe_step st (fst (renew_claim c n now st))"
proof (cases "\<not> st_connected st \<or> n \<le> 0")
  case False
  then have "st_jobs (fst (renew_claim c n now st)) = update_where (renew_guard c (max 0 now))
      (renew_update (max 0 now + of_int (max 1 n)) (max 0 now)) (st_jobs st)"
    "st_epochs (fst (renew_claim c n now st)) = st_epochs st"
    by (simp_all add: renew_claim_def Let_def)
  then show ?thesis by (rule renewing.safe)
qed (simp add: renew_claim_def)

lemma requeue_claim_safe: "safe_step st (fst (requeue_claim h c code now st))"
proof -
  let ?st1 = "st\<lparr>st_jobs := update_where (close_guard c)
      (requeue_update (reason_of_text code) (max 0 now)) (st_jobs st)\<rparr>"
  have 1: "safe_step st ?st1" by (rule requeueing.closed_safe) simp_all
  from safe_step_trans [OF 1 advance_cursor_safe] 1 show ?thesis
    by (auto simp: requeue_claim_def Let_def checked_update_def)
qed

lemma requeue_claim_ends:
  assumes "snd (requeue_claim h c code now st)"
  shows "claim_dead c (fst (requeue_claim h c code now st))"
  by (rule requeueing.claim_ends [of c st _ "reason_of_text code" "max 0 now"])
    (use assms in \<open>auto simp: requeue_claim_def Let_def checked_update_def split: if_splits\<close>)

lemma advance_all_safe: "safe_step st (advance_all rs stamp st)"
proof (induction rs arbitrary: st)
  case (Cons r rs)
  then show ?case by (cases r) (simp, blast intro: safe_step_trans advance_cursor_safe)
qed simp

lemma advance_all_frame [simp]:
  "st_jobs (advance_all rs stamp st) = st_jobs st"
  "st_candidates (advance_all rs stamp st) = st_candidates st"
  "st_messages (advance_all rs stamp st) = st_messages st"
proof -
  have "st_jobs (advance_all rs stamp st) = st_jobs st \<and>
     st_candidates (advance_all rs stamp st) = st_candidates st \<and>
     st_messages (advance_all rs stamp st) = st_messages st"
    by (induction rs stamp st rule: advance_all.induct) simp_all
  then show "st_jobs (advance_all rs stamp st) = st_jobs st"
    "st_candidates (advance_all rs stamp st) = st_candidates st"
    "st_messages (advance_all rs stamp st) = st_messages st" by simp_all
qed

lemma recover_safe: "safe_step st (fst (recover_expired_claims now st))"
proof -
  have "safe_step st (st\<lparr>st_jobs := update_where (expired_row s) (recover_update s) (st_jobs st)\<rparr>)" for s
    by (rule recovering.safe) simp_all
  from safe_step_trans [OF this advance_all_safe] show ?thesis
    by (simp add: recover_expired_claims_def Let_def)
qed

lemma cancel_safe: "safe_step st (fst (cancel_session_jobs h s e code now st))"
proof -
  have "safe_step st (st\<lparr>st_jobs := update_where (cancel_guard s e) (cancel_update r now) (st_jobs st)\<rparr>)" for r
    by (rule cancelling.safe) simp_all
  then show ?thesis by (simp add: cancel_session_jobs_def checked_update_def)
qed

lemma bump_safe: "safe_step st (bump_epoch s old now st)"
proof (cases "epoch_at st s old")
  case (Some r)
  then have r: "st_epochs st s = Some r" "eo_epoch r = old"
    by (auto simp: epoch_at_def split: option.splits if_splits)
  show ?thesis
    by (rule bump_epoch_safe [OF r(1), of _ "r\<lparr>eo_epoch := old + 1, eo_cursor_seq := 0,
        eo_pending := None, eo_tombstoned_at := Some now, eo_updated_at := now\<rparr>"])
      (use Some r in \<open>simp_all add: bump_epoch_def\<close>)
qed (simp add: bump_epoch_def)

lemma cancel_and_bump_safe:
  assumes "st_jobs st2 = update_where (cancel_guard s e) (cancel_update r now)
      (st_jobs (snd (ensure_epoch s now st)))"
    and "st_epochs st2 = st_epochs (snd (ensure_epoch s now st))"
  shows "safe_step st (bump_epoch s e now st2)"
proof -
  have "safe_step st st2"
    by (rule safe_step_trans [OF ensure_epoch_safe cancelling.safe [OF assms]])
  then show ?thesis by (rule safe_step_trans [OF _ bump_safe])
qed

lemma reset_safe: "safe_step st (fst (reset_session_epoch h s code now st))"
proof -
  have "safe_step st (bump_epoch s e now (snd (ensure_epoch s now st)\<lparr>st_jobs :=
      update_where (cancel_guard s e) (cancel_update r now) (st_jobs st)\<rparr>))" for e r
    by (rule cancel_and_bump_safe) simp_all
  then show ?thesis by (simp add: reset_session_epoch_def checked_update_def Let_def)
qed

lemma clear_safe: "safe_step st (fst (clear_session_atomically h s p now st))"
proof -
  have "safe_step st (bump_epoch s e now (snd (ensure_epoch s now st)\<lparr>st_jobs :=
      update_where (cancel_guard s e) (cancel_update r now) (st_jobs st), st_messages := ms, st_sessions := ss\<rparr>))"
    for e r ms ss by (rule cancel_and_bump_safe) simp_all
  then show ?thesis by (simp add: clear_session_atomically_def checked_update_def Let_def)
qed

end
