(* ===== verification/Summary_Trim.thy ===== *)
theory Summary_Trim
  imports Summary_Retries
begin

text \<open>
  Deleting source messages (\<open>has_trim_blocker\<close> and \<open>trim_if_safe\<close> of
  \<open>summary_store_terminal.py\<close>). The result that matters to a user: a trim deletes only messages that
  lie in windows that were completed or that an operator confirmed as abandoned.
\<close>

section \<open>Blockers\<close>

text \<open>What the quarantine store answers: there is none, an answer, or an exception.\<close>

datatype quarantine_answer = NoChecker | Answer bool | CheckFailed

fun quarantine_trim_blocker :: "quarantine_answer \<Rightarrow> bool" where
  "quarantine_trim_blocker NoChecker = False"
| "quarantine_trim_blocker (Answer pending) = pending"
| "quarantine_trim_blocker CheckFailed = True"

text \<open>A closed window that starts behind the cursor; no epoch row makes the comparison NULL.\<close>

definition beyond_cursor :: "store \<Rightarrow> string \<Rightarrow> int \<Rightarrow> job \<Rightarrow> bool" where
  "beyond_cursor st s e j \<longleftrightarrow> settled_status (jb_status j) \<and>
     (case epoch_at st s e of None \<Rightarrow> False | Some r \<Rightarrow> eo_cursor_seq r < jb_start_seq j)"

definition has_trim_blocker :: "quarantine_answer option \<Rightarrow> string \<Rightarrow> int \<Rightarrow> store \<Rightarrow> bool" where
  "has_trim_blocker quarantine s e st \<longleftrightarrow>
     \<not> st_connected st \<or>
     (case quarantine of None \<Rightarrow> False | Some a \<Rightarrow> quarantine_trim_blocker a) \<or>
     list_ex (\<lambda>j. open_status (jb_status j)) (epoch_jobs st s e) \<or>
     list_ex (beyond_cursor st s e) (epoch_jobs st s e) \<or>
     ledger_blocks_trim st s e"

section \<open>The trim\<close>

definition trim_answer :: "bool \<Rightarrow> int \<Rightarrow> reason \<Rightarrow> trim_result" where
  "trim_answer ok n r = \<lparr>tr_accepted = ok, tr_deleted_count = n, tr_reason_code = r\<rparr>"

definition summarised :: "string \<Rightarrow> int \<Rightarrow> message_row \<Rightarrow> bool" where
  "summarised s cursor m \<longleftrightarrow> ms_session_id m = s \<and>
     (case ms_seq m of None \<Rightarrow> False | Some n \<Rightarrow> n \<le> cursor)"

text \<open>\<open>SELECT id ... ORDER BY message_seq ASC LIMIT ?\<close>.\<close>

definition trim_ids :: "string \<Rightarrow> int \<Rightarrow> int \<Rightarrow> store \<Rightarrow> int list" where
  "trim_ids s cursor n st =
     map ms_id (take (nat n) (sort_key (\<lambda>m. coalesce 0 (ms_seq m))
       (filter (summarised s cursor) (st_messages st))))"

definition trim_if_safe ::
  "string \<Rightarrow> int \<Rightarrow> int \<Rightarrow> quarantine_answer \<Rightarrow> store \<Rightarrow> store \<times> trim_result" where
  "trim_if_safe s e delete_count quarantine st =
     (if \<not> st_connected st \<or> delete_count \<le> 0 \<or> quarantine_trim_blocker quarantine \<or>
         has_trim_blocker None s e st
      then (st, trim_answer False 0 RTrimBlocked)
      else (let cursor = (case epoch_at st s e of None \<Rightarrow> 0 | Some r \<Rightarrow> eo_cursor_seq r);
                ids = trim_ids s cursor delete_count st;
                gone = (\<lambda>m. ms_id m \<in> set ids);
                ms = filter (\<lambda>m. \<not> gone m) (st_messages st);
                count = rowcount gone (st_messages st)
            in (st\<lparr>st_messages := ms,
                  st_sessions := (st_sessions st)(s := map_option
                    (\<lambda>r. r\<lparr>se_message_count := rowcount (\<lambda>m. ms_session_id m = s) ms\<rparr>)
                    (st_sessions st s))\<rparr>,
                trim_answer (count \<noteq> 0) count (if count \<noteq> 0 then RCompleted else RTrimBlocked))))"

lemma trim_safe: "safe_step st (fst (trim_if_safe s e n q st))"
  by (rule safe_step_same) (auto simp: trim_if_safe_def Let_def)

section \<open>What a trim deletes\<close>

definition trim_refused :: "string \<Rightarrow> int \<Rightarrow> int \<Rightarrow> quarantine_answer \<Rightarrow> store \<Rightarrow> bool" where
  "trim_refused s e n q st \<longleftrightarrow> \<not> st_connected st \<or> n \<le> 0 \<or> quarantine_trim_blocker q \<or>
     has_trim_blocker None s e st"

lemma trim_messages:
  "st_messages (fst (trim_if_safe s e n q st)) =
     (if trim_refused s e n q st then st_messages st
      else filter (\<lambda>m. ms_id m \<notin> set (trim_ids s
        (case epoch_at st s e of None \<Rightarrow> 0 | Some r \<Rightarrow> eo_cursor_seq r) n st)) (st_messages st))"
  by (simp add: trim_if_safe_def trim_refused_def Let_def)

lemma trim_deleted:
  assumes "distinct (map ms_id (st_messages st))"
    and "m \<in> set (st_messages st)" "m \<notin> set (st_messages (fst (trim_if_safe s e n q st)))"
  shows "\<not> has_trim_blocker None s e st \<and> \<not> quarantine_trim_blocker q \<and>
    ms_session_id m = s \<and>
    (\<exists>k. ms_seq m = Some k \<and> k \<le> (case epoch_at st s e of None \<Rightarrow> 0 | Some r \<Rightarrow> eo_cursor_seq r))"
proof -
  let ?c = "case epoch_at st s e of None \<Rightarrow> 0 | Some r \<Rightarrow> eo_cursor_seq r"
  have go: "\<not> trim_refused s e n q st"
    using assms(2,3) by (auto simp: trim_messages)
  with assms(2,3) have "ms_id m \<in> set (trim_ids s ?c n st)"
    by (simp add: trim_messages)
  then obtain m' where m': "m' \<in> set (st_messages st)" "summarised s ?c m'" "ms_id m = ms_id m'"
    by (auto simp: trim_ids_def dest!: in_set_takeD)
  then have "m = m'" using key_unique [OF assms(1) m'(1) assms(2)] by simp
  with m'(2) go show ?thesis
    by (auto simp: summarised_def trim_refused_def split: option.splits)
qed

text \<open>Without a blocker every window up to the cursor is settled.\<close>

theorem trim_only_summarised:
  assumes ok: "store_ok st" and ids: "distinct (map ms_id (st_messages st))"
    and m: "m \<in> set (st_messages st)" "m \<notin> set (st_messages (fst (trim_if_safe s e n q st)))"
    and seq: "ms_seq m = Some k" "0 < k"
  shows "\<exists>j \<in> set (st_jobs st). jb_session_id j = s \<and> jb_session_epoch j = e \<and>
    jb_start_seq j < k \<and> k \<le> jb_end_seq j \<and> jb_status j \<in> {Completed, Abandoned} \<and>
    \<not> job_blocks_trim (st_candidates st) j"
proof -
  from trim_deleted [OF ids m] seq have nb: "\<not> has_trim_blocker None s e st"
    and k: "k \<le> (case epoch_at st s e of None \<Rightarrow> 0 | Some r \<Rightarrow> eo_cursor_seq r)" by auto
  with seq(2) obtain r where r: "epoch_at st s e = Some r" "k \<le> eo_cursor_seq r"
    by (auto split: option.splits)
  then have es: "st_epochs st s = Some r" "eo_epoch r = e"
    by (auto simp: epoch_at_def split: option.splits if_splits)
  let ?js = "epoch_jobs st s e"
  have w: "windows_ok (eo_cursor_seq r) ?js" using store_okD(4) [OF ok es(1)] es(2) by simp
  then have "tiles 0 ?js" "eo_cursor_seq r \<le> tiles_end 0 ?js"
    using windows_ok_cursor_le by (auto simp: windows_ok_def)
  with r(2) seq(2) obtain j where j: "j \<in> set ?js" "jb_start_seq j < k" "k \<le> jb_end_seq j"
    using tiles_cover [of 0 ?js k] by auto
  moreover have "settled_status (jb_status j)" "\<not> job_blocks_trim (st_candidates st) j"
    using nb j(1)
    by (auto simp: has_trim_blocker_def list_ex_iff open_status_iff ledger_blocks_trim_iff)
  ultimately show ?thesis
    by (auto simp: epoch_jobs_def in_epoch_def settled_status_def)
qed

lemma sorted_take_drop:
  assumes "sorted (map f xs)" "a \<in> set (take n xs)" "b \<in> set (drop n xs)"
  shows "f a \<le> f b"
proof -
  have "sorted (map f (take n xs) @ map f (drop n xs))"
    using assms(1) by (simp only: map_append [symmetric] append_take_drop_id)
  then have "\<forall>x \<in> f ` set (take n xs). \<forall>y \<in> f ` set (drop n xs). x \<le> y"
    unfolding sorted_append by (metis list.set_map)
  with assms(2,3) show ?thesis by blast
qed

text \<open>The oldest go first, and no more than asked.\<close>

lemma trim_oldest_first:
  assumes ids: "distinct (map ms_id (st_messages st))"
    and gone: "m \<in> set (st_messages st)" "m \<notin> set (st_messages (fst (trim_if_safe s e n q st)))"
    and kept: "x \<in> set (st_messages (fst (trim_if_safe s e n q st)))" "ms_session_id x = s"
      "ms_seq x = Some y" "ms_seq m = Some k"
  shows "k \<le> y"
proof -
  let ?c = "case epoch_at st s e of None \<Rightarrow> 0 | Some r \<Rightarrow> eo_cursor_seq r"
  let ?key = "\<lambda>m. coalesce 0 (ms_seq m)"
  let ?xs = "sort_key ?key (filter (summarised s ?c) (st_messages st))"
  have go: "\<not> trim_refused s e n q st"
    using gone by (auto simp: trim_messages)
  from go gone have "ms_id m \<in> set (trim_ids s ?c n st)" by (simp add: trim_messages)
  then obtain m' where m': "m' \<in> set (take (nat n) ?xs)" "ms_id m = ms_id m'"
    by (auto simp: trim_ids_def)
  then have "m' \<in> set (st_messages st)" by (auto dest!: in_set_takeD)
  then have mm: "m = m'" using key_unique [OF ids _ gone(1)] m'(2) by simp
  from kept(1) go have x: "x \<in> set (st_messages st)" "ms_id x \<notin> set (trim_ids s ?c n st)"
    by (auto simp: trim_messages)
  show ?thesis
  proof (cases "y \<le> ?c")
    case True
    then have "x \<in> set ?xs" using x(1) kept(2,3) by (simp add: summarised_def)
    moreover have "x \<notin> set (take (nat n) ?xs)" using x(2) by (auto simp: trim_ids_def)
    ultimately have "x \<in> set (drop (nat n) ?xs)"
      by (metis append_take_drop_id set_append UnE)
    moreover have "sorted (map ?key ?xs)" by (rule sorted_sort_key)
    ultimately have "?key m' \<le> ?key x"
      by (intro sorted_take_drop [of ?key ?xs m' "nat n" x] m'(1))
    with mm kept(3,4) show ?thesis by simp
  next
    case False
    with trim_deleted [OF ids gone] kept(4) show ?thesis by auto
  qed
qed

end
