(* ===== verification/Summary_Abandon.thy ===== *)
theory Summary_Abandon
  imports Summary_Trim
begin

text \<open>
  The operator's confirmation that a window is lost (\<open>summary_store_abandon.py\<close>): blocked and
  unknown jobs without any evidence of a canonical memory are closed as abandoned, their open slots
  as failed, and the cursor may pass them. The lemmas show that only such jobs are touched and that
  their ledger no longer blocks the trim.
\<close>

definition owner_evidence :: "candidate \<Rightarrow> bool" where
  "owner_evidence c \<longleftrightarrow> cd_canonical_id c \<noteq> None \<or>
     owner_disposition (cd_disposition c) \<or> (cd_status c = Committed \<and> cd_disposition c = None)"

definition abandonable :: "string \<Rightarrow> int \<Rightarrow> candidate list \<Rightarrow> job \<Rightarrow> bool" where
  "abandonable s e cs j \<longleftrightarrow> in_epoch s e j \<and> jb_status j \<in> {Blocked, Unknown} \<and>
     jb_canonical_count j = 0 \<and> \<not> list_ex owner_evidence (job_ledger (jb_job_id j) cs)"

definition abandon_slot_guard :: "string \<Rightarrow> candidate \<Rightarrow> bool" where
  "abandon_slot_guard jid c \<longleftrightarrow> cd_job_id c = jid \<and> cd_canonical_id c = None \<and>
     cd_status c \<in> {Planned, Writing, LUnknown}"

definition abandon_slot :: "real \<Rightarrow> candidate \<Rightarrow> candidate" where
  "abandon_slot now c = c\<lparr>cd_status := LFailed, cd_disposition := Some DFailed,
     cd_canonical_id := None, cd_updated_at := now\<rparr>"

definition abandon_guard :: "string \<Rightarrow> int \<Rightarrow> string \<Rightarrow> job \<Rightarrow> bool" where
  "abandon_guard s e jid j \<longleftrightarrow>
     jb_job_id j = jid \<and> in_epoch s e j \<and> jb_status j \<in> {Blocked, Unknown}"

definition abandon_update :: "candidate list \<Rightarrow> real \<Rightarrow> job \<Rightarrow> job" where
  "abandon_update cs now j = (let rows = job_ledger (jb_job_id j) cs in
     j\<lparr>jb_status := Abandoned, jb_lease_until := None, jb_claim_token := None,
       jb_failed_stage := Some ''operator_confirmed'', jb_reason_code := RAbandonedConfirmed,
       jb_operator_action := Some ''admin_confirmed'', jb_canonical_count := 0,
       jb_quarantine_count := ledger_count rows Quarantined,
       jb_discard_count := ledger_count rows Discard, jb_mark_write_count := 0,
       jb_merged_count := ledger_count rows Merged, jb_failed_count := ledger_count rows DFailed,
       jb_skipped_count := 0, jb_updated_at := now\<rparr>)"

record abandon_state =
  as_jobs :: "job list"
  as_candidates :: "candidate list"
  as_confirmed :: int
  as_totals :: "disposition \<Rightarrow> int"

definition abandon_one :: "string \<Rightarrow> int \<Rightarrow> real \<Rightarrow> string \<Rightarrow> abandon_state \<Rightarrow> abandon_state" where
  "abandon_one s e now jid a =
     (let cs = update_where (abandon_slot_guard jid) (abandon_slot now) (as_candidates a) in
      if rowcount (abandon_guard s e jid) (as_jobs a) \<noteq> 1 then a\<lparr>as_candidates := cs\<rparr>
      else \<lparr>as_jobs = update_where (abandon_guard s e jid) (abandon_update cs now) (as_jobs a),
            as_candidates = cs, as_confirmed = as_confirmed a + 1,
            as_totals = (\<lambda>d. as_totals a d + ledger_count (job_ledger jid cs) d)\<rparr>)"

fun abandon_all :: "string \<Rightarrow> int \<Rightarrow> real \<Rightarrow> string list \<Rightarrow> abandon_state \<Rightarrow> abandon_state" where
  "abandon_all s e now [] a = a"
| "abandon_all s e now (jid # jids) a = abandon_all s e now jids (abandon_one s e now jid a)"

definition abandon_totals :: "(disposition \<Rightarrow> int) \<Rightarrow> (string \<times> int) list" where
  "abandon_totals t =
     [(''canonical_total'', t Canonical), (''quarantine_total'', t Quarantined),
      (''discard_total'', t Discard), (''mark_write_total'', t MarkWrite),
      (''merged_total'', t Merged), (''failed_candidate_total'', t DFailed),
      (''skipped_idempotent_total'', t SkippedIdempotent)]"

definition abandon_ids :: "string \<Rightarrow> int \<Rightarrow> store \<Rightarrow> string list" where
  "abandon_ids s e st = map jb_job_id (sort_key (\<lambda>j. (jb_start_seq j, jb_job_id j))
     (filter (abandonable s e (st_candidates st)) (st_jobs st)))"

definition abandon_run :: "string \<Rightarrow> int \<Rightarrow> real \<Rightarrow> store \<Rightarrow> abandon_state" where
  "abandon_run s e now st = abandon_all s e now (abandon_ids s e st)
     \<lparr>as_jobs = st_jobs st, as_candidates = st_candidates st, as_confirmed = 0,
      as_totals = (\<lambda>_. 0)\<rparr>"

definition confirm_abandon_session_jobs :: "string \<Rightarrow> int \<Rightarrow> real \<Rightarrow> store \<Rightarrow> store \<times> int" where
  "confirm_abandon_session_jobs s e now st =
     (if \<not> st_connected st then (st, 0)
      else (let a = abandon_run s e now st;
                st1 = st\<lparr>st_jobs := as_jobs a, st_candidates := as_candidates a,
                  st_counters := bump_counters (abandon_totals (as_totals a)) (st_counters st)\<rparr>
            in (if as_confirmed a \<noteq> 0 then snd (advance_cursor s e now st1) else st1,
                as_confirmed a)))"

section \<open>Safety\<close>

interpretation abandoning: job_update "abandon_guard s e jid" "abandon_update cs now" for s e jid cs now
  by unfold_locales
    (auto simp: job_frame_def abandon_guard_def abandon_update_def Let_def spent_status_def
      job_ok_def claim_evolves_def)

interpretation abandon_slot: ledger_update "abandon_slot now" for now
  by unfold_locales (simp add: abandon_slot_def evidence_kept_def ledger_key_def)

lemma abandon_all_safe: "safe_step (st\<lparr>st_jobs := as_jobs a\<rparr>) (st\<lparr>st_jobs := as_jobs (abandon_all s e now jids a)\<rparr>)"
proof (induction jids arbitrary: a)
  case (Cons jid jids)
  have "safe_step (st\<lparr>st_jobs := as_jobs a\<rparr>) (st\<lparr>st_jobs := as_jobs (abandon_one s e now jid a)\<rparr>)"
  proof (cases "rowcount (abandon_guard s e jid) (as_jobs a) = 1")
    case True
    let ?cs = "update_where (abandon_slot_guard jid) (abandon_slot now) (as_candidates a)"
    show ?thesis
      by (rule abandoning.safe [of _ s e jid ?cs now])
        (use True in \<open>simp_all add: abandon_one_def Let_def\<close>)
  qed (simp add: abandon_one_def Let_def)
  with Cons.IH show ?case by (simp, blast intro: safe_step_trans)
qed simp

lemma abandon_safe: "safe_step st (fst (confirm_abandon_session_jobs s e now st))"
proof (cases "st_connected st")
  case True
  let ?a = "abandon_run s e now st"
  let ?st1 = "st\<lparr>st_jobs := as_jobs ?a, st_candidates := as_candidates ?a,
      st_counters := bump_counters (abandon_totals (as_totals ?a)) (st_counters st)\<rparr>"
  let ?init = "\<lparr>as_jobs = st_jobs st, as_candidates = st_candidates st, as_confirmed = 0,
      as_totals = (\<lambda>_. 0)\<rparr>"
  have "safe_step (st\<lparr>st_jobs := as_jobs ?init\<rparr>)
      (st\<lparr>st_jobs := as_jobs (abandon_all s e now (abandon_ids s e st) ?init)\<rparr>)"
    by (rule abandon_all_safe)
  then have "safe_step st (st\<lparr>st_jobs := as_jobs ?a\<rparr>)" by (simp add: abandon_run_def)
  then have 1: "safe_step st ?st1" by (rule safe_step_cong) simp_all
  from safe_step_trans [OF 1 advance_cursor_safe] 1 True show ?thesis
    by (simp add: confirm_abandon_session_jobs_def Let_def)
qed (simp add: confirm_abandon_session_jobs_def)

section \<open>What is abandoned, and what it leaves\<close>

definition rows_sound :: "string \<Rightarrow> candidate list \<Rightarrow> bool" where
  "rows_sound jid cs \<longleftrightarrow>
     (\<forall>c \<in> set (job_ledger jid cs). cd_status c \<in> {Committed, LFailed} \<longrightarrow> \<not> bad_terminal_row c)"

definition closed_slots :: "real \<Rightarrow> string \<Rightarrow> candidate list \<Rightarrow> candidate list" where
  "closed_slots now jid cs = update_where (abandon_slot_guard jid) (abandon_slot now) cs"

lemma closed_slots_ledger:
  "job_ledger jid (closed_slots now jid cs) =
     update_where (abandon_slot_guard jid) (abandon_slot now) (job_ledger jid cs)"
  unfolding closed_slots_def job_ledger_def
  by (rule filter_update_where_frame) (simp add: abandon_slot_def)

lemma closed_slots_other:
  "jid \<noteq> other \<Longrightarrow> job_ledger other (closed_slots now jid cs) = job_ledger other cs"
  unfolding closed_slots_def job_ledger_def
  by (subst filter_update_where_frame) (auto simp: abandon_slot_def update_where_def abandon_slot_guard_def
      intro!: map_idI)

lemma closed_slots_rows:
  assumes "\<not> list_ex owner_evidence (job_ledger jid cs)" "rows_sound jid cs"
    and c: "c \<in> set (job_ledger jid (closed_slots now jid cs))"
  shows "\<not> bad_terminal_row c \<and> (\<exists>d. cd_disposition c = Some d \<and> d \<notin> set owner_dispositions)"
proof -
  from c [unfolded closed_slots_ledger] obtain c0 where c0: "c0 \<in> set (job_ledger jid cs)"
    "c = (if abandon_slot_guard jid c0 then abandon_slot now c0 else c0)"
    by (auto simp: update_where_def)
  have ne: "\<not> owner_evidence c0" using assms(1) c0(1) by (auto simp: list_ex_iff)
  have jid: "cd_job_id c0 = jid" using c0(1) by (simp add: job_ledger_def)
  show ?thesis
  proof (cases "abandon_slot_guard jid c0")
    case True
    with c0(2) show ?thesis
      by (auto simp: abandon_slot_def bad_terminal_row_def owner_dispositions_def)
  next
    case False
    with ne jid have "cd_status c0 \<in> {Committed, LFailed}"
      by (cases "cd_status c0") (auto simp: abandon_slot_guard_def owner_evidence_def)
    with assms(2) c0(1) have "\<not> bad_terminal_row c0" by (auto simp: rows_sound_def)
    with ne False c0(2) show ?thesis
      by (auto simp: bad_terminal_row_def owner_evidence_def owner_disposition_def owner_dispositions_def)
  qed
qed

lemma abandoned_ledger:
  assumes ev: "\<not> list_ex owner_evidence (job_ledger (jb_job_id j) cs)" and sound: "rows_sound (jb_job_id j) cs"
  shows "\<not> job_blocks_trim (closed_slots now (jb_job_id j) cs)
    (abandon_update (closed_slots now (jb_job_id j) cs) now j)"
proof -
  let ?cs = "closed_slots now (jb_job_id j) cs"
  let ?rows = "job_ledger (jb_job_id j) ?cs" and ?j = "abandon_update ?cs now j"
  note row = closed_slots_rows [OF ev sound, where now = now]
  have j: "jb_job_id ?j = jb_job_id j" "jb_status ?j = Abandoned"
    by (simp_all add: abandon_update_def Let_def)
  have zero: "ledger_count ?rows d = 0" if "d \<in> set owner_dispositions" for d
    unfolding ledger_count_def rowcount_zero using row that by fastforce
  have cnt: "ledger_count ?rows d = job_count ?j d" for d
    by (cases d) (simp_all add: abandon_update_def Let_def zero owner_dispositions_def)
  have len: "int (length ?rows) = job_total ?j"
    unfolding job_total_def using rows_by_disposition [of ?rows cd_disposition] row cnt
    by (fastforce simp: ledger_count_def)
  have "?rows = [] \<Longrightarrow> job_total ?j = 0" using len by simp
  with row cnt len show ?thesis
    by (auto simp: job_blocks_trim_def open_slot_blocks_def bad_slot_blocks_def
        missing_ledger_blocks_def count_mismatch_blocks_def j settled_status_def list_ex_iff)
qed

lemma job_blocks_trim_cong:
  "job_ledger (jb_job_id j) cs = job_ledger (jb_job_id j) ds \<Longrightarrow> job_blocks_trim cs j = job_blocks_trim ds j"
  by (simp add: job_blocks_trim_def open_slot_blocks_def bad_slot_blocks_def missing_ledger_blocks_def
      count_mismatch_blocks_def)

definition abandoned_cleanly :: "string \<Rightarrow> abandon_state \<Rightarrow> bool" where
  "abandoned_cleanly jid a \<longleftrightarrow> (\<exists>j \<in> set (as_jobs a). jb_job_id j = jid \<and> jb_status j = Abandoned \<and>
     \<not> job_blocks_trim (as_candidates a) j)"

lemma abandon_one_ids: "map jb_job_id (as_jobs (abandon_one s e now jid a)) = map jb_job_id (as_jobs a)"
  by (simp add: abandon_one_def Let_def abandoning.ids)

lemma abandon_one_other:
  assumes "j \<in> set (as_jobs a)" "jb_job_id j \<noteq> jid"
  shows "j \<in> set (as_jobs (abandon_one s e now jid a))"
    "job_ledger (jb_job_id j) (as_candidates (abandon_one s e now jid a)) =
       job_ledger (jb_job_id j) (as_candidates a)"
  using assms closed_slots_other [of jid "jb_job_id j"]
  by (auto simp: abandon_one_def Let_def closed_slots_def set_update_where abandon_guard_def)

lemma abandon_one_cleanly:
  assumes d: "distinct (map jb_job_id (as_jobs a))" and j: "j \<in> set (as_jobs a)"
    and ab: "abandonable s e (as_candidates a) j" and sound: "rows_sound (jb_job_id j) (as_candidates a)"
  shows "abandoned_cleanly (jb_job_id j) (abandon_one s e now (jb_job_id j) a)"
proof -
  let ?jid = "jb_job_id j" and ?cs = "closed_slots now (jb_job_id j) (as_candidates a)"
  have g: "abandon_guard s e ?jid j" using ab by (simp add: abandonable_def abandon_guard_def)
  then have "rowcount (abandon_guard s e ?jid) (as_jobs a) = 1"
    by (intro rowcount_one [OF d j]) (simp_all add: abandon_guard_def)
  then have one: "as_jobs (abandon_one s e now ?jid a) =
      update_where (abandon_guard s e ?jid) (abandon_update ?cs now) (as_jobs a)"
    "as_candidates (abandon_one s e now ?jid a) = ?cs"
    by (simp_all add: abandon_one_def Let_def closed_slots_def)
  have "\<not> job_blocks_trim ?cs (abandon_update ?cs now j)"
    by (rule abandoned_ledger) (use ab sound in \<open>simp_all add: abandonable_def\<close>)
  moreover have "abandon_update ?cs now j \<in> set (as_jobs (abandon_one s e now ?jid a))"
    unfolding one(1) set_update_where using j g by blast
  moreover have "jb_job_id (abandon_update ?cs now j) = ?jid" "jb_status (abandon_update ?cs now j) = Abandoned"
    by (simp_all add: abandon_update_def Let_def)
  ultimately show ?thesis unfolding abandoned_cleanly_def one(2) by blast
qed

lemma abandon_one_keeps:
  assumes "abandoned_cleanly jid a" "jid \<noteq> other"
  shows "abandoned_cleanly jid (abandon_one s e now other a)"
proof -
  from assms(1) obtain j where j: "j \<in> set (as_jobs a)" "jb_job_id j = jid" "jb_status j = Abandoned"
    "\<not> job_blocks_trim (as_candidates a) j" by (auto simp: abandoned_cleanly_def)
  note o = abandon_one_other [OF j(1), of other s e now]
  show ?thesis unfolding abandoned_cleanly_def
    using o job_blocks_trim_cong [OF o(2)] j assms(2) by blast
qed

lemma abandon_all_keeps:
  "abandoned_cleanly jid a \<Longrightarrow> jid \<notin> set jids \<Longrightarrow> abandoned_cleanly jid (abandon_all s e now jids a)"
  by (induction jids arbitrary: a) (simp_all add: abandon_one_keeps)

lemma abandon_all_cleanly:
  assumes "distinct (map jb_job_id (as_jobs a))" "j \<in> set (as_jobs a)" "distinct jids"
    "jb_job_id j \<in> set jids" "abandonable s e (as_candidates a) j"
    "rows_sound (jb_job_id j) (as_candidates a)"
  shows "abandoned_cleanly (jb_job_id j) (abandon_all s e now jids a)"
  using assms
proof (induction jids arbitrary: a)
  case (Cons jid jids)
  show ?case
  proof (cases "jid = jb_job_id j")
    case True
    have "abandoned_cleanly (jb_job_id j) (abandon_one s e now (jb_job_id j) a)"
      by (rule abandon_one_cleanly) (use Cons.prems in auto)
    with True Cons.prems(3) show ?thesis by (simp add: abandon_all_keeps)
  next
    case False
    note o = abandon_one_other [OF Cons.prems(2), of jid s e now]
    have "abandonable s e (as_candidates (abandon_one s e now jid a)) j"
      "rows_sound (jb_job_id j) (as_candidates (abandon_one s e now jid a))"
      using Cons.prems(5,6) o(2) False by (simp_all add: abandonable_def rows_sound_def)
    with Cons.IH [of "abandon_one s e now jid a"] Cons.prems o(1) False show ?thesis
      by (simp add: abandon_one_ids)
  qed
qed simp

lemma abandon_all_other:
  "j \<in> set (as_jobs a) \<Longrightarrow> jb_job_id j \<notin> set jids \<Longrightarrow> j \<in> set (as_jobs (abandon_all s e now jids a))"
  by (induction jids arbitrary: a) (simp_all add: abandon_one_other(1))

lemma abandon_ids_facts:
  assumes "store_ok st"
  shows "distinct (abandon_ids s e st)"
    and "j \<in> set (st_jobs st) \<Longrightarrow>
      jb_job_id j \<in> set (abandon_ids s e st) \<longleftrightarrow> abandonable s e (st_candidates st) j"
proof -
  note d = store_okD(1) [OF assms]
  show "distinct (abandon_ids s e st)"
    using distinct_map_filter [OF d, of "abandonable s e (st_candidates st)"]
    by (simp add: abandon_ids_def distinct_map)
  show "j \<in> set (st_jobs st) \<Longrightarrow>
      jb_job_id j \<in> set (abandon_ids s e st) \<longleftrightarrow> abandonable s e (st_candidates st) j"
    using key_unique [OF d] by (fastforce simp: abandon_ids_def)
qed

lemma abandon_tables:
  assumes "st_connected st"
  shows "st_jobs (fst (confirm_abandon_session_jobs s e now st)) = as_jobs (abandon_run s e now st)"
    and "st_candidates (fst (confirm_abandon_session_jobs s e now st)) =
      as_candidates (abandon_run s e now st)"
  using assms by (simp_all add: confirm_abandon_session_jobs_def Let_def)

lemma abandon_clears:
  assumes "store_ok st" "st_connected st" "j \<in> set (st_jobs st)"
    "abandonable s e (st_candidates st) j" "rows_sound (jb_job_id j) (st_candidates st)"
  shows "\<exists>k \<in> set (st_jobs (fst (confirm_abandon_session_jobs s e now st))).
    jb_job_id k = jb_job_id j \<and> jb_status k = Abandoned \<and>
    \<not> job_blocks_trim (st_candidates (fst (confirm_abandon_session_jobs s e now st))) k"
proof -
  have "abandoned_cleanly (jb_job_id j) (abandon_run s e now st)"
    unfolding abandon_run_def
    by (rule abandon_all_cleanly)
      (use assms abandon_ids_facts [OF assms(1)] store_okD(1) [OF assms(1)] in simp_all)
  then show ?thesis unfolding abandoned_cleanly_def abandon_tables [OF assms(2)] by blast
qed

lemma abandon_spares:
  assumes "store_ok st" "j \<in> set (st_jobs st)" "\<not> abandonable s e (st_candidates st) j"
  shows "j \<in> set (st_jobs (fst (confirm_abandon_session_jobs s e now st)))"
proof (cases "st_connected st")
  case True
  then show ?thesis
    unfolding abandon_tables(1) [OF True] abandon_run_def
    using abandon_all_other abandon_ids_facts(2) [OF assms(1,2)] assms(2,3) by simp
qed (use assms(2) in \<open>simp add: confirm_abandon_session_jobs_def\<close>)

end
