(* ===== verification/Summary_Reconcile.thy ===== *)
theory Summary_Reconcile
  imports Summary_Abandon
begin

text \<open>
  Reconciling a window with the canonical memories another store reports
  (\<open>summary_store_reconcile.py\<close>): the mapping from slots (or slot keys) to canonical identifiers is
  checked against the ledger; a running window whose ledger is complete is closed, a completed window
  whose ledger no longer fits is degraded to unknown, and the claim fences both.
\<close>

section \<open>The mapping\<close>

text \<open>Keys and values of the mapping: integers (not booleans), strings, anything else.\<close>

datatype slot_ref = SlotInt int | SlotText string | SlotOther
datatype owner_ref = OwnerInt int | OwnerOther

definition max_canonical_id :: int where "max_canonical_id = 2 ^ 63 - 1"

definition slot_row :: "candidate list \<Rightarrow> slot_ref \<Rightarrow> candidate option" where
  "slot_row rows r = (case r of
      SlotInt n \<Rightarrow> fetch_one (\<lambda>c. cd_slot c = n) rows
    | SlotText s \<Rightarrow> if py_strip s = [] then None
                   else fetch_one (\<lambda>c. cd_slot_key c = py_strip s) (rev rows)
    | SlotOther \<Rightarrow> None)"

fun normalize_mapping ::
  "candidate list \<Rightarrow> (slot_ref \<times> owner_ref) list \<Rightarrow> (int \<times> int) list \<Rightarrow> (int \<times> int) list option" where
  "normalize_mapping rows [] acc = Some acc"
| "normalize_mapping rows ((r, v) # ms) acc =
     (case (slot_row rows r, v) of
        (Some row, OwnerInt n) \<Rightarrow>
          if cd_slot row \<in> fst ` set acc \<or> n \<le> 0 \<or> max_canonical_id < n then None
          else normalize_mapping rows ms (acc @ [(cd_slot row, n)])
      | _ \<Rightarrow> None)"

text \<open>
  The checks of one ledger row: its slot key, its own owner against the reported one, shared owners,
  and the shape its disposition requires. \<open>seen\<close> maps an owner to the disposition that used it last.
\<close>

definition resolved_owner :: "(int \<times> int) list \<Rightarrow> candidate \<Rightarrow> int option" where
  "resolved_owner normalized c =
     (case cd_canonical_id c of Some n \<Rightarrow> Some n | None \<Rightarrow> map_of normalized (cd_slot c))"

definition owner_shared_ok :: "(int \<times> disposition option) list \<Rightarrow> int \<Rightarrow> disposition option \<Rightarrow> bool" where
  "owner_shared_ok seen n d = (case map_of seen n of
      None \<Rightarrow> True | Some prev \<Rightarrow> prev = Some Merged \<and> d = Some Merged)"

definition row_shape_ok :: "bool \<Rightarrow> candidate \<Rightarrow> int option \<Rightarrow> bool" where
  "row_shape_ok require_terminal c owner =
     ((case cd_disposition c of
         None \<Rightarrow> \<not> require_terminal \<and> cd_status c \<in> {Planned, Writing, Committed} \<and>
                 \<not> (owner = None \<and> cd_status c = Committed)
       | Some d \<Rightarrow> if owner_disposition (Some d) then owner \<noteq> None else owner = None) \<and>
      \<not> (require_terminal \<and> cd_disposition c = Some DFailed))"

definition row_ok ::
  "bool \<Rightarrow> (int \<times> int) list \<Rightarrow> (int \<times> disposition option) list \<Rightarrow> string \<Rightarrow> candidate \<Rightarrow> bool" where
  "row_ok require_terminal normalized seen key c =
     (let owner = resolved_owner normalized c in
      cd_slot_key c \<noteq> [] \<and> cd_content_digest c \<noteq> [] \<and> cd_slot_key c = key \<and>
      cd_status c \<noteq> LUnknown \<and>
      (case cd_canonical_id c of None \<Rightarrow> True
       | Some n \<Rightarrow> 0 < n \<and> (case map_of normalized (cd_slot c) of None \<Rightarrow> True | Some m \<Rightarrow> n = m)) \<and>
      (case owner of None \<Rightarrow> True | Some n \<Rightarrow> owner_shared_ok seen n (cd_disposition c)) \<and>
      row_shape_ok require_terminal c owner)"

fun check_rows ::
  "host \<Rightarrow> string \<Rightarrow> string \<Rightarrow> bool \<Rightarrow> (int \<times> int) list \<Rightarrow> (int \<times> disposition option) list \<Rightarrow>
   candidate list \<Rightarrow> store \<Rightarrow> bool \<times> store" where
  "check_rows h fresh jid rt normalized seen [] st = (True, st)"
| "check_rows h fresh jid rt normalized seen (c # cs) st =
     (let k = owned_slot_key h fresh jid (cd_slot c) (cd_content_digest c) st in
      if \<not> row_ok rt normalized seen (fst k) c then (False, snd k)
      else check_rows h fresh jid rt normalized
             (case resolved_owner normalized c of
                None \<Rightarrow> seen | Some n \<Rightarrow> (n, cd_disposition c) # seen) cs (snd k))"

definition reconcile_mapping ::
  "host \<Rightarrow> string \<Rightarrow> string \<Rightarrow> candidate list \<Rightarrow> (slot_ref \<times> owner_ref) list \<Rightarrow> bool \<Rightarrow> store \<Rightarrow>
   (int \<times> int) list option \<times> store" where
  "reconcile_mapping h fresh jid rows mapping rt st =
     (case normalize_mapping rows mapping [] of
        None \<Rightarrow> (None, st)
      | Some normalized \<Rightarrow>
          (let r = check_rows h fresh jid rt normalized [] rows st in
           (if fst r then Some normalized else None, snd r)))"

section \<open>Binding owners to slots\<close>

definition bind_guard :: "string \<Rightarrow> bool \<Rightarrow> candidate \<Rightarrow> int \<Rightarrow> candidate \<Rightarrow> bool" where
  "bind_guard jid rt row n c \<longleftrightarrow> cd_job_id c = jid \<and> cd_slot c = cd_slot row \<and>
     cd_slot_key c = cd_slot_key row \<and> cd_content_digest c = cd_content_digest row \<and>
     (if rt then cd_status c = Committed \<and> owner_disposition (cd_disposition c)
      else cd_status c \<in> {Planned, Writing, Committed}) \<and>
     (cd_canonical_id c = None \<or> cd_canonical_id c = Some n)"

definition bind_owner :: "int \<Rightarrow> real \<Rightarrow> candidate \<Rightarrow> candidate" where
  "bind_owner n now c = c\<lparr>cd_canonical_id := Some n, cd_updated_at := now\<rparr>"

text \<open>The loop of updates: it stops at the first that does not hit exactly one row. \<open>alive\<close> is the
  \<open>EXISTS\<close> over the job's own row.\<close>

fun bind_owners ::
  "string \<Rightarrow> bool \<Rightarrow> bool \<Rightarrow> real \<Rightarrow> candidate list \<Rightarrow> (int \<times> int) list \<Rightarrow> candidate list \<Rightarrow>
   bool \<times> candidate list" where
  "bind_owners jid rt alive now rows [] cs = (True, cs)"
| "bind_owners jid rt alive now rows ((slot, n) # ns) cs =
     (case fetch_one (\<lambda>c. cd_slot c = slot) rows of
        None \<Rightarrow> (False, cs)
      | Some row \<Rightarrow>
          (let g = (\<lambda>c. alive \<and> bind_guard jid rt row n c);
               cs' = update_where g (bind_owner n now) cs
           in if rowcount g cs \<noteq> 1 then (False, cs')
              else bind_owners jid rt alive now rows ns cs'))"

section \<open>Closing\<close>

definition same_claim_job :: "claimed_job \<Rightarrow> job \<Rightarrow> bool" where
  "same_claim_job c j \<longleftrightarrow> jb_job_id j = sj_job_id (cj_job c) \<and>
     jb_session_id j = sj_session_id (cj_job c) \<and> jb_session_epoch j = sj_session_epoch (cj_job c)"

definition completed_guard :: "claimed_job \<Rightarrow> store \<Rightarrow> job \<Rightarrow> bool" where
  "completed_guard c st j \<longleftrightarrow> same_claim_job c j \<and> jb_status j = Completed \<and>
     jb_worker_generation j = cj_worker_generation c \<and>
     epoch_at st (sj_session_id (cj_job c)) (sj_session_epoch (cj_job c)) \<noteq> None"

definition degrade_update :: "real \<Rightarrow> job \<Rightarrow> job" where
  "degrade_update now j = j\<lparr>jb_status := Unknown, jb_reason_code := RLedgerUnresolved,
     jb_failed_stage := Some ''candidate_reconcile'', jb_exception_type := Some ''unknown'',
     jb_updated_at := now\<rparr>"

definition mark_unknown_completed ::
  "claimed_job \<Rightarrow> real \<Rightarrow> store \<Rightarrow> store \<Rightarrow> store \<times> completion_result" where
  "mark_unknown_completed c now st0 st =
     (if rowcount (completed_guard c st) (st_jobs st) \<noteq> 1 then (st0, claim_lost)
      else (st\<lparr>st_candidates := update_where (unresolved_row (sj_job_id (cj_job c))) (forget_row now)
                (st_candidates st),
              st_jobs := update_where (completed_guard c st) (degrade_update now) (st_jobs st)\<rparr>,
            completion True Unknown 0 RLedgerUnresolved))"

definition reconcile_update :: "candidate list \<Rightarrow> real \<Rightarrow> job \<Rightarrow> job" where
  "reconcile_update rows now j = j\<lparr>jb_status := Completed, jb_reason_code := RCompleted,
     jb_failed_stage := None, jb_lease_until := None, jb_claim_token := None,
     jb_canonical_count := ledger_count rows Canonical,
     jb_quarantine_count := ledger_count rows Quarantined,
     jb_discard_count := ledger_count rows Discard,
     jb_mark_write_count := ledger_count rows MarkWrite,
     jb_merged_count := ledger_count rows Merged, jb_failed_count := 0,
     jb_skipped_count := ledger_count rows SkippedIdempotent, jb_updated_at := now\<rparr>"

text \<open>The totals grow by what the job had not counted yet.\<close>

definition reconcile_totals :: "job \<Rightarrow> candidate list \<Rightarrow> (string \<times> int) list" where
  "reconcile_totals old rows = (let inc = (\<lambda>d. max 0 (ledger_count rows d - job_count old d)) in
     [(''canonical_total'', inc Canonical), (''quarantine_total'', inc Quarantined),
      (''discard_total'', inc Discard), (''mark_write_total'', inc MarkWrite),
      (''merged_total'', inc Merged), (''failed_candidate_total'', max 0 (0 - jb_failed_count old)),
      (''skipped_idempotent_total'', inc SkippedIdempotent)])"

definition ledger_final :: "candidate list \<Rightarrow> bool" where
  "ledger_final rows \<longleftrightarrow> rows \<noteq> [] \<and>
     (\<forall>c \<in> set rows. cd_status c \<in> {Committed, LFailed} \<and> cd_disposition c \<noteq> None)"

definition epoch_cursor :: "claimed_job \<Rightarrow> store \<Rightarrow> int" where
  "epoch_cursor c st =
     (case epoch_at st (sj_session_id (cj_job c)) (sj_session_epoch (cj_job c)) of
        None \<Rightarrow> 0 | Some r \<Rightarrow> eo_cursor_seq r)"

text \<open>The branch of a job that is already completed.\<close>

definition reconcile_completed ::
  "host \<Rightarrow> string \<Rightarrow> claimed_job \<Rightarrow> (slot_ref \<times> owner_ref) list \<Rightarrow> job \<Rightarrow> candidate list \<Rightarrow> real \<Rightarrow>
   store \<Rightarrow> store \<times> completion_result" where
  "reconcile_completed h fresh c mapping job rows now st =
     (let jid = sj_job_id (cj_job c);
          alive = list_ex (\<lambda>j. same_claim_job c j \<and> jb_status j = Completed \<and>
                    jb_worker_generation j = cj_worker_generation c) (st_jobs st) in
      if rows = [] then
        (if (\<forall>d \<in> set dispositions. job_count job d = 0) \<and>
            jb_reason_code job = RNoFacts \<and> mapping = []
         then (st, completion True Completed (epoch_cursor c st) RNoFacts)
         else mark_unknown_completed c now st st)
      else if \<not> terminal_ledger_matches_job job rows then mark_unknown_completed c now st st
      else (case reconcile_mapping h fresh jid rows mapping True st of
              (None, st1) \<Rightarrow> mark_unknown_completed c now st st1
            | (Some ns, st1) \<Rightarrow>
                (case bind_owners jid True alive now rows ns (st_candidates st1) of
                   (False, cs) \<Rightarrow> mark_unknown_completed c now st (st1\<lparr>st_candidates := cs\<rparr>)
                 | (True, cs) \<Rightarrow> (st1\<lparr>st_candidates := cs\<rparr>,
                     completion True Completed (epoch_cursor c st) RCompleted))))"

text \<open>The end of the branch of a running job, once the owners are bound.\<close>

definition reconcile_close ::
  "claimed_job \<Rightarrow> job \<Rightarrow> real \<Rightarrow> real \<Rightarrow> store \<Rightarrow> store \<Rightarrow> store \<times> completion_result" where
  "reconcile_close c job now mnow st0 st =
     (let rows = job_ledger (sj_job_id (cj_job c)) (st_candidates st) in
      if \<not> ledger_final rows then (st, completion True Running 0 RLedgerUnresolved)
      else if ledger_count rows DFailed \<noteq> 0
      then mark_unknown_claim c now RLedgerUnresolved (Some ''unknown'') mnow st0 st
      else if rowcount (close_guard c) (st_jobs st) \<noteq> 1 then (st0, claim_lost)
      else (let st1 = st\<lparr>st_jobs := update_where (close_guard c) (reconcile_update rows now) (st_jobs st),
                  st_counters := bump_counters (reconcile_totals job rows) (st_counters st)\<rparr>;
                adv = advance_cursor (sj_session_id (cj_job c)) (sj_session_epoch (cj_job c)) now st1
            in (snd adv, completion True Completed (fst adv) RCompleted)))"

definition reconcile_running ::
  "host \<Rightarrow> string \<Rightarrow> claimed_job \<Rightarrow> (slot_ref \<times> owner_ref) list \<Rightarrow> job \<Rightarrow> candidate list \<Rightarrow> real \<Rightarrow>
   real \<Rightarrow> store \<Rightarrow> store \<times> completion_result" where
  "reconcile_running h fresh c mapping job rows now mnow st =
     (let jid = sj_job_id (cj_job c);
          unresolved = mark_unknown_claim c now RLedgerUnresolved (Some ''unknown'') mnow st in
      case reconcile_mapping h fresh jid rows mapping False st of
        (None, st1) \<Rightarrow> unresolved st1
      | (Some ns, st1) \<Rightarrow>
          (case bind_owners jid False (list_ex (close_guard c) (st_jobs st)) now rows ns
                  (st_candidates st1) of
             (False, cs) \<Rightarrow> unresolved (st1\<lparr>st_candidates := cs\<rparr>)
           | (True, cs) \<Rightarrow> reconcile_close c job now mnow st (st1\<lparr>st_candidates := cs\<rparr>)))"

definition reconcile_window ::
  "host \<Rightarrow> string \<Rightarrow> claimed_job \<Rightarrow> (slot_ref \<times> owner_ref) list \<Rightarrow> real \<Rightarrow> real \<Rightarrow> real \<Rightarrow> store \<Rightarrow>
   store \<times> completion_result" where
  "reconcile_window h fresh c mapping now mnow mnow2 st =
     (let jid = sj_job_id (cj_job c) in
      if \<not> st_connected st then (st, claim_lost)
      else case fetch_one (\<lambda>j. same_claim_job c j \<and> current_job st j) (st_jobs st) of
        None \<Rightarrow> (st, claim_lost)
      | Some job \<Rightarrow>
          if jb_worker_generation job \<noteq> cj_worker_generation c
          then (st, completion False Unknown 0 RGenerationFenced)
          else if \<not> (jb_start_seq job = sj_start_seq (cj_job c) \<and> jb_end_seq job = sj_end_seq (cj_job c) \<and>
                     jb_expected_count job = sj_expected_count (cj_job c) \<and>
                     jb_source_digest job = sj_source_digest (cj_job c))
          then (st, completion False Unknown 0 RSourceDigestMismatch)
          else (let rows = sort_key cd_slot (job_ledger jid (st_candidates st)) in
            if jb_status job = Completed then reconcile_completed h fresh c mapping job rows now st
            else if jb_status job = Unknown then (st, completion True Unknown 0 RLedgerUnresolved)
            else if jb_status job \<noteq> Running \<or> \<not> claim_matches c mnow st then (st, claim_lost)
            else reconcile_running h fresh c mapping job rows now mnow2 st))"

section \<open>Safety\<close>

interpretation degrading: job_update "completed_guard c st" "degrade_update now" for c st now
  by unfold_locales
    (auto simp: job_frame_def completed_guard_def degrade_update_def spent_status_def job_ok_def
      claim_evolves_def)

interpretation reconciling: closing_update "reconcile_update rows now" for rows now
  by unfold_locales (simp_all add: reconcile_update_def job_frame_def)

interpretation bind: ledger_update "bind_owner n now" for n now
  by unfold_locales (simp add: bind_owner_def evidence_kept_def ledger_key_def)

lemma check_rows_frame:
  "st_jobs (snd (check_rows h fresh jid rt ns seen cs st)) = st_jobs st \<and>
   st_epochs (snd (check_rows h fresh jid rt ns seen cs st)) = st_epochs st \<and>
   st_candidates (snd (check_rows h fresh jid rt ns seen cs st)) = st_candidates st"
  by (induction cs arbitrary: seen st) (simp_all add: Let_def)

lemma reconcile_mapping_frame:
  "reconcile_mapping h fresh jid rows mapping rt st = (r, st1) \<Longrightarrow>
     st_jobs st1 = st_jobs st \<and> st_epochs st1 = st_epochs st \<and> st_candidates st1 = st_candidates st"
  using check_rows_frame [of h fresh jid rt _ "[]" rows st]
  by (auto simp: reconcile_mapping_def Let_def split: option.splits)

text \<open>A safe answer: refused and unchanged, or a safe step.\<close>

definition safe_answer :: "store \<Rightarrow> store \<times> completion_result \<Rightarrow> bool" where
  "safe_answer st res \<longleftrightarrow> safe_step st (fst res) \<and> (\<not> cr_accepted (snd res) \<longrightarrow> fst res = st)"

lemma closes_safe_answer: "closes_claim c st res \<Longrightarrow> safe_answer st res"
  by (auto simp: closes_claim_def safe_answer_def)

lemma mark_unknown_completed_safe:
  assumes "st_jobs st = st_jobs st0" "st_epochs st = st_epochs st0"
  shows "safe_answer st0 (mark_unknown_completed c now st0 st)"
proof (cases "rowcount (completed_guard c st) (st_jobs st) = 1")
  case True
  have "safe_step st0 (fst (mark_unknown_completed c now st0 st))"
    by (rule degrading.safe [of _ c st now])
      (use True assms in \<open>simp_all add: mark_unknown_completed_def\<close>)
  with True show ?thesis
    by (simp add: safe_answer_def mark_unknown_completed_def completion_def)
next
  case False
  then show ?thesis
    by (simp add: safe_answer_def mark_unknown_completed_def claim_lost_def completion_def)
qed

lemma refused_safe_answer:
  "safe_answer st (st, claim_lost)" "safe_answer st (st, completion b s n r)"
  by (simp_all add: safe_answer_def)

lemma tables_safe_answer:
  "st_jobs st' = st_jobs st \<Longrightarrow> st_epochs st' = st_epochs st \<Longrightarrow> safe_answer st (st', completion True s n r)"
  by (simp add: safe_answer_def safe_step_same completion_def)

lemma reconcile_close_safe:
  assumes "st_jobs st = st_jobs st0" "st_epochs st = st_epochs st0"
  shows "safe_answer st0 (reconcile_close c job now mnow st0 st)"
proof -
  let ?rows = "job_ledger (sj_job_id (cj_job c)) (st_candidates st)"
  let ?st1 = "st\<lparr>st_jobs := update_where (close_guard c) (reconcile_update ?rows now) (st_jobs st),
      st_counters := bump_counters (reconcile_totals job ?rows) (st_counters st)\<rparr>"
  have m: "safe_answer st0 (mark_unknown_claim c now r e mnow st0 st)" for r e
    by (rule closes_safe_answer [OF mark_unknown_closes [OF assms]])
  have "safe_step st0 ?st1"
    by (rule reconciling.closed_safe) (simp_all add: assms)
  from safe_step_trans [OF this advance_cursor_safe]
  have "safe_answer st0 (snd (advance_cursor s e now ?st1), completion True Completed n r)" for s e n r
    by (simp add: safe_answer_def completion_def)
  then show ?thesis
    using m refused_safe_answer tables_safe_answer [OF assms]
    by (simp add: reconcile_close_def Let_def)
qed

lemma reconcile_window_safe: "safe_answer st (reconcile_window h fresh c mapping now mnow mnow2 st)"
proof -
  have fin: "safe_answer st (reconcile_completed h fresh c mapping job rows now st)" for job rows
  proof -
    obtain r st1 where m: "reconcile_mapping h fresh (sj_job_id (cj_job c)) rows mapping True st = (r, st1)"
      by (cases "reconcile_mapping h fresh (sj_job_id (cj_job c)) rows mapping True st")
    note fr = reconcile_mapping_frame [OF m]
    have d: "safe_answer st (mark_unknown_completed c now st st)"
      "safe_answer st (mark_unknown_completed c now st st1)"
      "safe_answer st (mark_unknown_completed c now st (st1\<lparr>st_candidates := cs\<rparr>))"
      "safe_answer st (st1\<lparr>st_candidates := cs\<rparr>, completion True s n rr)" for cs s n rr
      using fr by (auto intro: mark_unknown_completed_safe tables_safe_answer)
    show ?thesis
      using d refused_safe_answer unfolding reconcile_completed_def Let_def m
      by (simp split: option.split prod.split bool.split)
  qed
  have run: "safe_answer st (reconcile_running h fresh c mapping job rows now mnow2 st)" for job rows
  proof -
    obtain r st1 where m: "reconcile_mapping h fresh (sj_job_id (cj_job c)) rows mapping False st = (r, st1)"
      by (cases "reconcile_mapping h fresh (sj_job_id (cj_job c)) rows mapping False st")
    note fr = reconcile_mapping_frame [OF m]
    have d: "safe_answer st (mark_unknown_claim c now rr e mnow2 st st1)"
      "safe_answer st (mark_unknown_claim c now rr e mnow2 st (st1\<lparr>st_candidates := cs\<rparr>))"
      "safe_answer st (reconcile_close c job now mnow2 st (st1\<lparr>st_candidates := cs\<rparr>))" for cs e rr
      using fr by (simp_all add: closes_safe_answer [OF mark_unknown_closes] reconcile_close_safe)
    show ?thesis
      using d unfolding reconcile_running_def Let_def m
      by (simp split: option.split prod.split bool.split)
  qed
  show ?thesis
    using fin run refused_safe_answer unfolding reconcile_window_def Let_def
    by (simp split: option.split)
qed

end
