(* ===== verification/Summary_Startup.thy ===== *)
theory Summary_Startup
  imports Summary_Reconcile
begin

text \<open>
  Recovery after a crash (\<open>summary_store_startup.py\<close>). Slots left \<open>writing\<close> or \<open>unknown\<close> are looked up
  in the other stores by their idempotency key; then, in one transaction, a slot whose owner or
  quarantine entry is proved is committed, every other one becomes \<open>unknown\<close>, and a job is completed
  only when its whole ledger is resolved. The lemmas show that no owner is ever invented and that
  what is completed has a closed ledger that agrees with its counters.
\<close>

section \<open>Evidence\<close>

text \<open>
  Answers of the three callbacks: no owner, an integer, another value, an exception of a class. The
  quarantine evidence is a mapping with string keys.
\<close>

datatype lookup_answer = NoOwner | OwnerId int | OwnerJunk | LookupRaised string

datatype evalue = EvNone | EvBool bool | EvInt int | EvText string
  | EvMap "(string \<times> evalue) list" | EvOther

type_synonym evidence = "(string \<times> evalue) list"

datatype evidence_answer = NoEvidence | Evidence evidence | EvidenceRaised string

record startup_lookups =
  sl_merged :: "(string \<Rightarrow> lookup_answer) option"
  sl_canonical :: "(string \<Rightarrow> lookup_answer) option"
  sl_quarantine :: "(string \<Rightarrow> evidence_answer) option"

record startup_source =
  us_session_id :: string
  us_start_seq :: int
  us_end_seq :: int
  us_expected_count :: int
  us_source_digest :: string

definition ev_get :: "evidence \<Rightarrow> string \<Rightarrow> evalue" where
  "ev_get m k = coalesce EvNone (map_of m k)"

definition quality_key :: "string \<Rightarrow> bool" where
  "quality_key k \<longleftrightarrow> take 8 k = ''quality:''"

definition ev_int_is :: "evalue \<Rightarrow> int \<Rightarrow> bool" where
  "ev_int_is v n \<longleftrightarrow> 0 \<le> n \<and> v = EvInt n"

definition quarantine_evidence_matches ::
  "startup_source \<Rightarrow> int \<Rightarrow> string \<Rightarrow> evidence option \<Rightarrow> bool" where
  "quarantine_evidence_matches job epoch key ev =
     (case ev of None \<Rightarrow> False | Some m \<Rightarrow>
        key \<noteq> [] \<and> \<not> quality_key key \<and> ev_get m ''candidate_key'' = EvText key \<and>
        ev_get m ''status'' \<in> {EvText ''pending'', EvText ''blocked''} \<and>
        (let src = (case ev_get m ''source_window'' of EvMap s \<Rightarrow> s | _ \<Rightarrow> m) in
         ev_get src ''session_id'' = EvText (us_session_id job) \<and>
         ev_int_is (ev_get src ''start_seq'') (us_start_seq job) \<and>
         ev_int_is (ev_get src ''end_seq'') (us_end_seq job) \<and>
         ev_int_is (ev_get src ''expected_count'') (us_expected_count job) \<and>
         ev_int_is (ev_get src ''session_epoch'') epoch \<and>
         ev_get src ''source_digest'' = EvText (us_source_digest job)))"

definition reconcile_exception_type :: "string option \<Rightarrow> string option \<Rightarrow> string" where
  "reconcile_exception_type current fallback =
     (case normalize_exception_type current of
        Some e \<Rightarrow> if e \<noteq> ''unknown'' then e
                  else coalesce ''unknown'' (normalize_exception_type fallback)
      | None \<Rightarrow> coalesce ''unknown'' (normalize_exception_type fallback))"

definition completed_exception_type :: "string option \<Rightarrow> string option" where
  "completed_exception_type current =
     (case normalize_exception_type current of
        Some e \<Rightarrow> if e \<noteq> ''unknown'' then Some e else None
      | None \<Rightarrow> None)"

section \<open>Scanning and collecting\<close>

record startup_slot =
  su_slot :: int
  su_key :: string
  su_status :: ledger_status

record startup_job =
  uj_job_id :: string
  uj_source :: startup_source
  uj_slots :: "startup_slot list"

definition uncertain :: "ledger_status \<Rightarrow> bool" where
  "uncertain s \<longleftrightarrow> s \<in> {Writing, LUnknown}"

definition row_source :: "job \<Rightarrow> startup_source" where
  "row_source j = \<lparr>us_session_id = jb_session_id j, us_start_seq = jb_start_seq j,
     us_end_seq = jb_end_seq j, us_expected_count = jb_expected_count j,
     us_source_digest = jb_source_digest j\<rparr>"

text \<open>The join of jobs and candidates, grouped by job, in the order of job and slot.\<close>

definition scanned :: "job \<Rightarrow> candidate \<Rightarrow> bool" where
  "scanned j c \<longleftrightarrow> cd_job_id c = jb_job_id j \<and> (uncertain (cd_status c) \<or> jb_status j = Running)"

definition startup_job_of :: "store \<Rightarrow> job \<Rightarrow> startup_job" where
  "startup_job_of st j = \<lparr>uj_job_id = jb_job_id j, uj_source = row_source j,
     uj_slots = map (\<lambda>c. \<lparr>su_slot = cd_slot c, su_key = cd_idempotency_key c, su_status = cd_status c\<rparr>)
       (sort_key cd_slot (filter (scanned j) (st_candidates st)))\<rparr>"

definition startup_jobs :: "store \<Rightarrow> startup_job list" where
  "startup_jobs st = map (startup_job_of st) (sort_key jb_job_id
     (filter (\<lambda>j. list_ex (scanned j) (st_candidates st)) (st_jobs st)))"

record startup_evidence =
  ue_merged :: "string \<times> int \<Rightarrow> int option"
  ue_owners :: "string \<times> int \<Rightarrow> int option"
  ue_quarantine :: "string \<times> int \<Rightarrow> evidence option"
  ue_errors :: "string \<Rightarrow> string option"

datatype owner_step = Absent | Found int | Failing string

fun lookup_step :: "(string \<Rightarrow> lookup_answer) option \<Rightarrow> string \<Rightarrow> owner_step" where
  "lookup_step None key = Absent"
| "lookup_step (Some f) key = (case f key of
      NoOwner \<Rightarrow> Absent
    | OwnerId n \<Rightarrow> if 0 < n then Found n else Failing ''unknown''
    | OwnerJunk \<Rightarrow> Failing ''unknown''
    | LookupRaised e \<Rightarrow> Failing (coalesce ''unknown'' (normalize_exception_type (Some e))))"

definition note_error :: "string \<Rightarrow> string \<Rightarrow> startup_evidence \<Rightarrow> startup_evidence" where
  "note_error jid e ev = ev\<lparr>ue_errors := (case ue_errors ev jid of
     None \<Rightarrow> (ue_errors ev)(jid \<mapsto> e) | Some _ \<Rightarrow> ue_errors ev)\<rparr>"

definition collect_quarantine ::
  "startup_lookups \<Rightarrow> string \<Rightarrow> startup_slot \<Rightarrow> startup_evidence \<Rightarrow> startup_evidence" where
  "collect_quarantine l jid s ev = (case sl_quarantine l of
      None \<Rightarrow> ev
    | Some f \<Rightarrow> (case f (su_key s) of
        NoEvidence \<Rightarrow> ev
      | Evidence m \<Rightarrow> ev\<lparr>ue_quarantine := (ue_quarantine ev)((jid, su_slot s) \<mapsto> m)\<rparr>
      | EvidenceRaised e \<Rightarrow>
          note_error jid (coalesce ''unknown'' (normalize_exception_type (Some e))) ev))"

text \<open>The merged owner is asked first, then the canonical one, then the quarantine.\<close>

definition collect_slot ::
  "startup_lookups \<Rightarrow> string \<Rightarrow> startup_slot \<Rightarrow> startup_evidence \<Rightarrow> startup_evidence" where
  "collect_slot l jid s ev =
     (if \<not> uncertain (su_status s) \<or> su_key s = [] \<or> quality_key (su_key s) then ev
      else case lookup_step (sl_merged l) (su_key s) of
        Found n \<Rightarrow> ev\<lparr>ue_merged := (ue_merged ev)((jid, su_slot s) \<mapsto> n)\<rparr>
      | Failing e \<Rightarrow> note_error jid e ev
      | Absent \<Rightarrow> (case lookup_step (sl_canonical l) (su_key s) of
          Found n \<Rightarrow> ev\<lparr>ue_owners := (ue_owners ev)((jid, su_slot s) \<mapsto> n)\<rparr>
        | Failing e \<Rightarrow> note_error jid e ev
        | Absent \<Rightarrow> collect_quarantine l jid s ev))"

definition no_startup_evidence :: startup_evidence where
  "no_startup_evidence = \<lparr>ue_merged = (\<lambda>_. None), ue_owners = (\<lambda>_. None),
     ue_quarantine = (\<lambda>_. None), ue_errors = (\<lambda>_. None)\<rparr>"

definition collect_job :: "startup_lookups \<Rightarrow> startup_job \<Rightarrow> startup_evidence \<Rightarrow> startup_evidence" where
  "collect_job l uj ev = fold (collect_slot l (uj_job_id uj)) (uj_slots uj) ev"

definition collect_evidence :: "startup_lookups \<Rightarrow> startup_job list \<Rightarrow> startup_evidence" where
  "collect_evidence l ujs = fold (collect_job l) ujs no_startup_evidence"

section \<open>Recovering one job\<close>

text \<open>\<open>UPDATE ... SET status='unknown',disposition=NULL,canonical_id=NULL\<close> on uncertain slots.\<close>

definition uncertain_row :: "string \<Rightarrow> candidate \<Rightarrow> bool" where
  "uncertain_row jid c \<longleftrightarrow> cd_job_id c = jid \<and> uncertain (cd_status c)"

definition startup_unknown :: "reason \<Rightarrow> string \<Rightarrow> real \<Rightarrow> job \<Rightarrow> job" where
  "startup_unknown r e now j = j\<lparr>jb_status := Unknown, jb_reason_code := r,
     jb_failed_stage := Some ''startup_reconcile'', jb_exception_type := Some e,
     jb_claim_token := None, jb_lease_until := None, jb_updated_at := now\<rparr>"

definition startup_completed :: "candidate list \<Rightarrow> real \<Rightarrow> job \<Rightarrow> job" where
  "startup_completed rows now j = (reconcile_update rows now j)
     \<lparr>jb_exception_type := completed_exception_type (jb_exception_type j)\<rparr>"

definition same_row :: "job \<Rightarrow> job \<Rightarrow> bool" where
  "same_row row j \<longleftrightarrow> jb_job_id j = jb_job_id row \<and> jb_session_id j = jb_session_id row \<and>
     jb_session_epoch j = jb_session_epoch row"

definition completable :: "job \<Rightarrow> startup_source \<Rightarrow> job \<Rightarrow> bool" where
  "completable row src j \<longleftrightarrow> same_row row j \<and> row_source j = src \<and>
     jb_status j \<in> {Running, Unknown, Failed, Queued}"

text \<open>The slot update once its owner, or its quarantine entry, is known.\<close>

definition slot_of :: "string \<Rightarrow> int \<Rightarrow> string \<Rightarrow> candidate \<Rightarrow> bool" where
  "slot_of jid slot key c \<longleftrightarrow>
     uncertain_row jid c \<and> cd_slot c = slot \<and> cd_idempotency_key c = key"

definition resolve_row :: "disposition \<Rightarrow> int option \<Rightarrow> real \<Rightarrow> candidate \<Rightarrow> candidate" where
  "resolve_row d owner now c = c\<lparr>cd_status := Committed, cd_disposition := Some d,
     cd_canonical_id := owner, cd_updated_at := now\<rparr>"

definition initial_slot :: "startup_job \<Rightarrow> int \<Rightarrow> startup_slot option" where
  "initial_slot uj n = fetch_one (\<lambda>s. su_slot s = n) (rev (uj_slots uj))"

text \<open>What the evidence says about a slot: disposition and owner, or nothing.\<close>

definition slot_verdict ::
  "startup_evidence \<Rightarrow> startup_source \<Rightarrow> int \<Rightarrow> string \<times> int \<Rightarrow> string \<Rightarrow> (disposition \<times> int option) option" where
  "slot_verdict ev src epoch sid key =
     (case ue_merged ev sid of
        Some n \<Rightarrow> Some (Merged, Some n)
      | None \<Rightarrow> (case ue_owners ev sid of
          Some n \<Rightarrow> Some (Canonical, Some n)
        | None \<Rightarrow> if quarantine_evidence_matches src epoch key (ue_quarantine ev sid)
                  then Some (Quarantined, None) else None))"

definition resolvable :: "bool \<Rightarrow> string \<Rightarrow> candidate \<Rightarrow> int option \<Rightarrow> candidate \<Rightarrow> bool" where
  "resolvable alive jid row owner c \<longleftrightarrow> alive \<and> slot_of jid (cd_slot row) (cd_idempotency_key row) c \<and>
     (owner = None \<or> cd_canonical_id c = None \<or> cd_canonical_id c = owner)"

text \<open>
  One turn of the loop over the slots; the flag says whether the slot stays unresolved. \<open>alive\<close> is
  the \<open>EXISTS\<close> over the job's row.
\<close>

definition recover_slot ::
  "startup_evidence \<Rightarrow> startup_job \<Rightarrow> int \<Rightarrow> bool \<Rightarrow> real \<Rightarrow> candidate \<Rightarrow> candidate list \<Rightarrow>
   bool \<times> candidate list" where
  "recover_slot ev uj epoch alive now row cs =
     (let jid = uj_job_id uj; n = cd_slot row; key = cd_idempotency_key row in
      if \<not> uncertain (cd_status row) then (False, cs)
      else if map_option su_key (initial_slot uj n) \<noteq> Some key
      then (True, update_where (\<lambda>c. uncertain_row jid c \<and> cd_slot c = n) (forget_row now) cs)
      else (case slot_verdict ev (uj_source uj) epoch (jid, n) key of
              None \<Rightarrow> (True, update_where (slot_of jid n key) (forget_row now) cs)
            | Some (d, owner) \<Rightarrow>
                (rowcount (resolvable alive jid row owner) cs \<noteq> 1,
                 update_where (resolvable alive jid row owner) (resolve_row d owner now) cs)))"

fun recover_slots ::
  "startup_evidence \<Rightarrow> startup_job \<Rightarrow> int \<Rightarrow> bool \<Rightarrow> real \<Rightarrow> candidate list \<Rightarrow> bool \<Rightarrow>
   candidate list \<Rightarrow> bool \<times> candidate list" where
  "recover_slots ev uj epoch alive now [] unresolved cs = (unresolved, cs)"
| "recover_slots ev uj epoch alive now (row # rows) unresolved cs =
     (let r = recover_slot ev uj epoch alive now row cs in
      recover_slots ev uj epoch alive now rows (unresolved \<or> fst r) (snd r))"

definition slot_open :: "candidate \<Rightarrow> bool" where
  "slot_open c \<longleftrightarrow> cd_status c \<notin> {Committed, LFailed} \<or> cd_disposition c = None \<or>
     (owner_disposition (cd_disposition c) \<and> cd_canonical_id c = None) \<or>
     (\<not> owner_disposition (cd_disposition c) \<and> cd_canonical_id c \<noteq> None)"

definition mark_startup ::
  "(job \<Rightarrow> bool) \<Rightarrow> reason \<Rightarrow> string \<Rightarrow> real \<Rightarrow> store \<Rightarrow> store" where
  "mark_startup p r e now st = st\<lparr>st_jobs := update_where p (startup_unknown r e now) (st_jobs st)\<rparr>"

definition forget_uncertain :: "string \<Rightarrow> real \<Rightarrow> store \<Rightarrow> store" where
  "forget_uncertain jid now st =
     st\<lparr>st_candidates := update_where (uncertain_row jid) (forget_row now) (st_candidates st)\<rparr>"

text \<open>The end of a job's turn: unresolved, with a failed slot, or completed.\<close>

definition close_recovered ::
  "startup_evidence \<Rightarrow> startup_job \<Rightarrow> job \<Rightarrow> real \<Rightarrow> bool \<Rightarrow> store \<Rightarrow> store \<times> int" where
  "close_recovered ev uj row now unresolved st =
     (let jid = uj_job_id uj; rows = job_ledger jid (st_candidates st);
          g = completable row (uj_source uj) in
      if unresolved \<or> list_ex slot_open rows
      then (mark_startup (same_row row) RLedgerUnresolved
              (reconcile_exception_type (jb_exception_type row) (ue_errors ev jid)) now st, 1)
      else if ledger_count rows DFailed \<noteq> 0 then (st, 0)
      else if rowcount g (st_jobs st) \<noteq> 1 then (st, 0)
      else (snd (advance_cursor (jb_session_id row) (jb_session_epoch row) now
              (st\<lparr>st_jobs := update_where g (startup_completed rows now) (st_jobs st),
                 st_counters := bump_counters (reconcile_totals row rows) (st_counters st)\<rparr>)), 1))"

definition recover_job ::
  "startup_evidence \<Rightarrow> real \<Rightarrow> startup_job \<Rightarrow> store \<Rightarrow> store \<times> int" where
  "recover_job ev now uj st =
     (let jid = uj_job_id uj in
      case fetch_one (\<lambda>j. jb_job_id j = jid) (st_jobs st) of
        None \<Rightarrow> (st, 0)
      | Some row \<Rightarrow>
          (let s = jb_session_id row; e = jb_session_epoch row;
               kept = reconcile_exception_type (jb_exception_type row) None in
           if epoch_at st s e = None
           then (mark_startup (\<lambda>j. jb_job_id j = jid) REpochFenced kept now (forget_uncertain jid now st), 1)
           else if row_source row \<noteq> uj_source uj
           then (mark_startup (same_row row) RSourceDigestMismatch kept now (forget_uncertain jid now st), 1)
           else (let rows = sort_key cd_slot (job_ledger jid (st_candidates st)) in
             if rows = [] then
               (if jb_status row = Running
                then (mark_startup (same_row row) RLedgerUnresolved
                        (reconcile_exception_type (jb_exception_type row) (ue_errors ev jid)) now st, 1)
                else (st, 0))
             else (let alive = list_ex (\<lambda>j. same_row row j \<and> row_source j = uj_source uj) (st_jobs st);
                       r = recover_slots ev uj e alive now rows False (st_candidates st)
                   in close_recovered ev uj row now (fst r) (st\<lparr>st_candidates := snd r\<rparr>)))))"

fun recover_jobs ::
  "startup_evidence \<Rightarrow> real \<Rightarrow> startup_job list \<Rightarrow> int \<Rightarrow> store \<Rightarrow> store \<times> int" where
  "recover_jobs ev now [] touched st = (st, touched)"
| "recover_jobs ev now (uj # ujs) touched st =
     (let r = recover_job ev now uj st in recover_jobs ev now ujs (touched + snd r) (fst r))"

text \<open>
  \<open>seen\<close> is the store as the scan outside the transaction read it, \<open>st\<close> the store when the transaction
  begins; the callbacks are asked in between.
\<close>

definition reconcile_startup_candidates ::
  "startup_lookups \<Rightarrow> real \<Rightarrow> store \<Rightarrow> store \<Rightarrow> store \<times> int" where
  "reconcile_startup_candidates l now seen st =
     (if \<not> st_connected seen then (st, 0)
      else (let ujs = startup_jobs seen in recover_jobs (collect_evidence l ujs) now ujs 0 st))"

section \<open>Recovery is safe\<close>

interpretation startup_marking: job_update p "startup_unknown r e now" for p r e now
  by unfold_locales
    (auto simp: job_frame_def startup_unknown_def spent_status_def job_ok_def claim_evolves_def)

interpretation startup_completing: job_update "completable row src" "startup_completed rows now"
  for row src rows now
  by unfold_locales
    (auto simp: job_frame_def startup_completed_def reconcile_update_def spent_status_def job_ok_def
      claim_evolves_def)

interpretation resolve: ledger_update "resolve_row d owner now" for d owner now
  by unfold_locales (simp add: resolve_row_def evidence_kept_def ledger_key_def)

lemma mark_startup_safe: "safe_step st (mark_startup p r e now st)"
  by (rule startup_marking.safe [of _ p r e now]) (simp_all add: mark_startup_def)

lemma forget_uncertain_safe: "safe_step st (forget_uncertain jid now st)"
  by (rule safe_step_same) (simp_all add: forget_uncertain_def)

lemma close_recovered_safe: "safe_step st (fst (close_recovered ev uj row now u st))"
proof -
  let ?g = "completable row (uj_source uj)" and ?rows = "job_ledger (uj_job_id uj) (st_candidates st)"
  let ?st1 = "st\<lparr>st_jobs := update_where ?g (startup_completed ?rows now) (st_jobs st),
      st_counters := bump_counters (reconcile_totals row ?rows) (st_counters st)\<rparr>"
  have "safe_step st ?st1"
    by (rule startup_completing.safe [of _ row "uj_source uj" ?rows now]) simp_all
  from safe_step_trans [OF this advance_cursor_safe] show ?thesis
    by (simp add: close_recovered_def Let_def mark_startup_safe)
qed

lemma recover_job_safe: "safe_step st (fst (recover_job ev now uj st))"
proof -
  have f: "safe_step st (mark_startup p r e now (forget_uncertain jid now st))" for p r e jid
    by (rule safe_step_trans [OF forget_uncertain_safe mark_startup_safe])
  have c: "safe_step st (fst (close_recovered ev uj row now u (st\<lparr>st_candidates := cs\<rparr>)))" for row u cs
    by (rule safe_step_trans [OF safe_step_same close_recovered_safe]) simp_all
  show ?thesis
    using f c by (simp add: recover_job_def Let_def mark_startup_safe split: option.split)
qed

lemma recover_jobs_safe: "safe_step st (fst (recover_jobs ev now ujs n st))"
proof (induction ujs arbitrary: n st)
  case (Cons uj ujs)
  show ?case
    using safe_step_trans [OF recover_job_safe Cons.IH] by (simp add: Let_def)
qed simp

lemma reconcile_startup_safe: "safe_step st (fst (reconcile_startup_candidates l now seen st))"
  by (simp add: reconcile_startup_candidates_def Let_def recover_jobs_safe)

section \<open>The ledger only gains states\<close>

lemma recover_slot_extends: "ledger_extends cs (snd (recover_slot ev uj e alive now row cs))"
  by (simp add: recover_slot_def Let_def forget.extends resolve.extends split: option.split prod.split)

lemma recover_slots_extends: "ledger_extends cs (snd (recover_slots ev uj e alive now rows u cs))"
proof (induction rows arbitrary: u cs)
  case (Cons row rows)
  show ?case
    using ledger_extends_trans [OF recover_slot_extends Cons.IH] by (simp add: Let_def)
qed simp

lemma close_recovered_frame [simp]:
  "st_candidates (fst (close_recovered ev uj row now u st)) = st_candidates st"
  "st_messages (fst (close_recovered ev uj row now u st)) = st_messages st"
  by (simp_all add: close_recovered_def Let_def mark_startup_def)

lemma recover_job_extends:
  "ledger_extends (st_candidates st) (st_candidates (fst (recover_job ev now uj st)))"
  by (simp add: recover_job_def Let_def mark_startup_def forget_uncertain_def forget.extends
      recover_slots_extends split: option.split)

lemma recover_jobs_extends:
  "ledger_extends (st_candidates st) (st_candidates (fst (recover_jobs ev now ujs n st)))"
proof (induction ujs arbitrary: n st)
  case (Cons uj ujs)
  show ?case
    using ledger_extends_trans [OF recover_job_extends Cons.IH] by (simp add: Let_def)
qed simp

lemma recover_job_messages [simp]: "st_messages (fst (recover_job ev now uj st)) = st_messages st"
  by (simp add: recover_job_def Let_def mark_startup_def forget_uncertain_def split: option.split)

lemma recover_jobs_messages: "st_messages (fst (recover_jobs ev now ujs n st)) = st_messages st"
  by (induction ujs arbitrary: n st) (simp_all add: Let_def)

lemma reconcile_startup_frames:
  "ledger_extends (st_candidates st) (st_candidates (fst (reconcile_startup_candidates l now seen st)))"
  "st_messages (fst (reconcile_startup_candidates l now seen st)) = st_messages st"
  by (simp_all add: reconcile_startup_candidates_def Let_def recover_jobs_extends recover_jobs_messages)

section \<open>No owner is invented\<close>

text \<open>Every entry of the collected evidence is an answer for the key of a scanned slot.\<close>

definition evidence_sound :: "startup_lookups \<Rightarrow> startup_job list \<Rightarrow> startup_evidence \<Rightarrow> bool" where
  "evidence_sound l ujs ev \<longleftrightarrow> (\<forall>jid n.
     (\<forall>x. ue_merged ev (jid, n) = Some x \<longrightarrow> (\<exists>uj \<in> set ujs. \<exists>s \<in> set (uj_slots uj).
        uj_job_id uj = jid \<and> su_slot s = n \<and> lookup_step (sl_merged l) (su_key s) = Found x)) \<and>
     (\<forall>x. ue_owners ev (jid, n) = Some x \<longrightarrow> (\<exists>uj \<in> set ujs. \<exists>s \<in> set (uj_slots uj).
        uj_job_id uj = jid \<and> su_slot s = n \<and> lookup_step (sl_merged l) (su_key s) = Absent \<and>
        lookup_step (sl_canonical l) (su_key s) = Found x)) \<and>
     (\<forall>m. ue_quarantine ev (jid, n) = Some m \<longrightarrow> (\<exists>uj \<in> set ujs. \<exists>s \<in> set (uj_slots uj). \<exists>f.
        uj_job_id uj = jid \<and> su_slot s = n \<and> sl_quarantine l = Some f \<and> f (su_key s) = Evidence m)))"

lemma collect_slot_sound:
  assumes "evidence_sound l ujs ev" "uj \<in> set ujs" "s \<in> set (uj_slots uj)"
  shows "evidence_sound l ujs (collect_slot l (uj_job_id uj) s ev)"
  using assms
  by (auto simp: evidence_sound_def collect_slot_def collect_quarantine_def note_error_def
      split: owner_step.split evidence_answer.split option.split)

lemma collect_job_sound:
  assumes "evidence_sound l ujs ev" "uj \<in> set ujs"
  shows "evidence_sound l ujs (collect_job l uj ev)"
proof -
  have "set ss \<subseteq> set (uj_slots uj) \<Longrightarrow> evidence_sound l ujs ev \<Longrightarrow>
      evidence_sound l ujs (fold (collect_slot l (uj_job_id uj)) ss ev)" for ss
    by (induction ss arbitrary: ev) (auto intro: collect_slot_sound assms(2))
  with assms(1) show ?thesis by (simp add: collect_job_def)
qed

lemma collect_evidence_sound: "evidence_sound l ujs (collect_evidence l ujs)"
proof -
  have "set us \<subseteq> set ujs \<Longrightarrow> evidence_sound l ujs ev \<Longrightarrow> evidence_sound l ujs (fold (collect_job l) us ev)"
    for us ev
    by (induction us arbitrary: ev) (auto intro: collect_job_sound)
  moreover have "evidence_sound l ujs no_startup_evidence"
    by (simp add: evidence_sound_def no_startup_evidence_def)
  ultimately show ?thesis by (simp add: collect_evidence_def)
qed

definition proved_slot :: "startup_lookups \<Rightarrow> store \<Rightarrow> candidate \<Rightarrow> bool" where
  "proved_slot l seen c \<longleftrightarrow> (let key = cd_idempotency_key c in cd_status c = Committed \<and>
     ((\<exists>x. cd_disposition c = Some Merged \<and> cd_canonical_id c = Some x \<and>
         lookup_step (sl_merged l) key = Found x) \<or>
      (\<exists>x. cd_disposition c = Some Canonical \<and> cd_canonical_id c = Some x \<and>
         lookup_step (sl_merged l) key = Absent \<and> lookup_step (sl_canonical l) key = Found x) \<or>
      (cd_disposition c = Some Quarantined \<and> cd_canonical_id c = None \<and>
         (\<exists>f m. \<exists>j \<in> set (st_jobs seen). sl_quarantine l = Some f \<and> f key = Evidence m \<and>
            jb_job_id j = cd_job_id c \<and>
            quarantine_evidence_matches (row_source j) (jb_session_epoch j) key (Some m)))))"

lemma startup_jobs_mem:
  "uj \<in> set (startup_jobs seen) \<Longrightarrow> \<exists>j \<in> set (st_jobs seen). uj = startup_job_of seen j"
  by (auto simp: startup_jobs_def)

lemma startup_slots_distinct:
  assumes "keyed (st_candidates seen)"
  shows "distinct (map su_slot (uj_slots (startup_job_of seen j)))"
proof -
  have "distinct (map ledger_key (filter (scanned j) (st_candidates seen)))"
    using assms by (simp add: keyed_def distinct_map_filter)
  then have "distinct (map cd_slot (filter (scanned j) (st_candidates seen)))"
    by (auto simp: distinct_map inj_on_def ledger_key_def scanned_def)
  then have "distinct (map cd_slot (sort_key cd_slot (filter (scanned j) (st_candidates seen))))"
    by (simp add: distinct_map)
  then show ?thesis by (simp add: startup_job_of_def comp_def)
qed


lemma scanned_slot_unique:
  assumes seen: "keyed (st_candidates seen)" "distinct (map jb_job_id (st_jobs seen))"
    and uj: "uj \<in> set (startup_jobs seen)" "vj \<in> set (startup_jobs seen)" "uj_job_id vj = uj_job_id uj"
    and s: "s \<in> set (uj_slots vj)" "initial_slot uj (su_slot s) = Some t"
  shows "t = s \<and> vj = uj"
proof -
  obtain j k where j: "j \<in> set (st_jobs seen)" "uj = startup_job_of seen j"
    and k: "k \<in> set (st_jobs seen)" "vj = startup_job_of seen k"
    using startup_jobs_mem [OF uj(1)] startup_jobs_mem [OF uj(2)] by blast
  then have "jb_job_id k = jb_job_id j" using uj(3) by (simp add: startup_job_of_def)
  then have "k = j" using key_unique [OF seen(2) j(1) k(1)] by simp
  with j k have v: "vj = uj" by simp
  have d: "distinct (map su_slot (uj_slots uj))" unfolding j(2) by (rule startup_slots_distinct [OF seen(1)])
  have t: "t \<in> set (uj_slots uj)" "su_slot t = su_slot s"
    using fetch_one_Some_iff [OF s(2) [unfolded initial_slot_def]] by simp_all
  have "s \<in> set (uj_slots uj)" using s(1) v by simp
  from key_unique [OF d t(1) this] t(2) v show ?thesis by simp
qed

lemma slot_verdict_sound:
  assumes seen: "keyed (st_candidates seen)" "distinct (map jb_job_id (st_jobs seen))"
    and uj: "uj \<in> set (startup_jobs seen)"
    and e: "\<And>j. j \<in> set (st_jobs seen) \<Longrightarrow> jb_job_id j = uj_job_id uj \<Longrightarrow> jb_session_epoch j = e"
    and key: "map_option su_key (initial_slot uj n) = Some key"
    and v: "slot_verdict (collect_evidence l (startup_jobs seen)) (uj_source uj) e (uj_job_id uj, n) key
      = Some (d, x)"
    and c: "cd_job_id c = uj_job_id uj" "cd_idempotency_key c = key" "cd_disposition c = Some d"
      "cd_canonical_id c = x" "cd_status c = Committed"
  shows "proved_slot l seen c"
proof -
  let ?ev = "collect_evidence l (startup_jobs seen)" and ?id = "(uj_job_id uj, n)"
  obtain t where t: "initial_slot uj n = Some t" "su_key t = key" using key by auto
  obtain j where j: "j \<in> set (st_jobs seen)" "uj = startup_job_of seen j"
    using startup_jobs_mem [OF uj] by blast
  then have src: "uj_source uj = row_source j" "jb_job_id j = cd_job_id c"
    using c(1) by (simp_all add: startup_job_of_def)
  have ej: "jb_session_epoch j = e" using e [OF j(1)] j(2) by (simp add: startup_job_of_def)
  have k: "su_key s = key"
    if "vj \<in> set (startup_jobs seen)" "s \<in> set (uj_slots vj)" "uj_job_id vj = uj_job_id uj" "su_slot s = n"
    for vj s
    using scanned_slot_unique [OF seen uj that(1,3,2)] that(4) t by simp
  note sound = collect_evidence_sound [of l "startup_jobs seen", unfolded evidence_sound_def, rule_format]
  have m: "lookup_step (sl_merged l) key = Found y" if "ue_merged ?ev ?id = Some y" for y
    using sound that k by blast
  have o: "lookup_step (sl_merged l) key = Absent \<and> lookup_step (sl_canonical l) key = Found y"
    if "ue_owners ?ev ?id = Some y" for y
    using sound that k by metis
  have q: "\<exists>f. sl_quarantine l = Some f \<and> f key = Evidence y" if "ue_quarantine ?ev ?id = Some y" for y
    using sound that k by metis
  show ?thesis
  proof (cases "ue_merged ?ev ?id")
    case (Some y)
    with v have "d = Merged" "x = Some y" by (simp_all add: slot_verdict_def)
    with m [OF Some] c show ?thesis by (simp add: proved_slot_def)
  next
    case None
    show ?thesis
    proof (cases "ue_owners ?ev ?id")
      case (Some y)
      with None v have "d = Canonical" "x = Some y" by (simp_all add: slot_verdict_def)
      with o [OF Some] c show ?thesis by (simp add: proved_slot_def)
    next
      case no: None
      with None v have quar: "quarantine_evidence_matches (uj_source uj) e key (ue_quarantine ?ev ?id)"
        "d = Quarantined" "x = None"
        by (auto simp: slot_verdict_def split: if_splits)
      then obtain y where y: "ue_quarantine ?ev ?id = Some y"
        by (auto simp: quarantine_evidence_matches_def split: option.splits)
      with quar(1) src(1) ej have "quarantine_evidence_matches (row_source j) (jb_session_epoch j) key (Some y)"
        by simp
      with q [OF y] j(1) src(2) quar(2,3) c show ?thesis
        unfolding proved_slot_def Let_def by blast
    qed
  qed
qed

text \<open>The scanned jobs keep their epoch until the transaction; then every new state is accounted for.\<close>

definition same_epochs :: "store \<Rightarrow> store \<Rightarrow> bool" where
  "same_epochs seen st \<longleftrightarrow> (\<forall>j \<in> set (st_jobs seen). \<forall>k \<in> set (st_jobs st).
     jb_job_id k = jb_job_id j \<longrightarrow> jb_session_epoch k = jb_session_epoch j)"

definition accounted :: "startup_lookups \<Rightarrow> store \<Rightarrow> candidate list \<Rightarrow> candidate list \<Rightarrow> bool" where
  "accounted l seen cs ds \<longleftrightarrow>
     (\<forall>c \<in> set ds. c \<in> set cs \<or> cd_status c = LUnknown \<or> proved_slot l seen c)"

lemma accounted_refl: "accounted l seen cs cs"
  by (simp add: accounted_def)

lemma accounted_trans: "accounted l seen a b \<Longrightarrow> accounted l seen b c \<Longrightarrow> accounted l seen a c"
  by (auto simp: accounted_def)

lemma accounted_forget: "accounted l seen cs (update_where p (forget_row now) cs)"
  by (auto simp: accounted_def forget_row_def elim: update_where_memE)

lemma recover_slot_accounted:
  assumes seen: "keyed (st_candidates seen)" "distinct (map jb_job_id (st_jobs seen))"
    and uj: "uj \<in> set (startup_jobs seen)"
    and e: "\<And>j. j \<in> set (st_jobs seen) \<Longrightarrow> jb_job_id j = uj_job_id uj \<Longrightarrow> jb_session_epoch j = e"
  shows "accounted l seen cs
    (snd (recover_slot (collect_evidence l (startup_jobs seen)) uj e alive now row cs))"
proof -
  let ?ev = "collect_evidence l (startup_jobs seen)" and ?jid = "uj_job_id uj"
  have "accounted l seen cs (update_where (resolvable alive ?jid row x) (resolve_row d x now) cs)"
    if "map_option su_key (initial_slot uj (cd_slot row)) = Some (cd_idempotency_key row)"
      "slot_verdict ?ev (uj_source uj) e (?jid, cd_slot row) (cd_idempotency_key row) = Some (d, x)"
    for d x
    unfolding accounted_def
  proof
    fix c assume "c \<in> set (update_where (resolvable alive ?jid row x) (resolve_row d x now) cs)"
    then show "c \<in> set cs \<or> cd_status c = LUnknown \<or> proved_slot l seen c"
    proof (rule update_where_memE)
      fix b assume "b \<in> set cs" "resolvable alive ?jid row x b" "c = resolve_row d x now b"
      then have "proved_slot l seen c"
        by (intro slot_verdict_sound [OF seen uj e that])
          (simp_all add: resolvable_def slot_of_def uncertain_row_def resolve_row_def)
      then show ?thesis by simp
    qed simp
  qed
  then show ?thesis
    by (simp add: recover_slot_def Let_def accounted_refl accounted_forget split: option.split prod.split)
qed

lemma recover_slots_accounted:
  assumes "keyed (st_candidates seen)" "distinct (map jb_job_id (st_jobs seen))"
    and "uj \<in> set (startup_jobs seen)"
    and "\<And>j. j \<in> set (st_jobs seen) \<Longrightarrow> jb_job_id j = uj_job_id uj \<Longrightarrow> jb_session_epoch j = e"
  shows "accounted l seen cs
    (snd (recover_slots (collect_evidence l (startup_jobs seen)) uj e alive now rows u cs))"
proof (induction rows arbitrary: u cs)
  case (Cons row rows)
  show ?case
    using accounted_trans [OF recover_slot_accounted [OF assms] Cons.IH] by (simp add: Let_def)
qed (simp add: accounted_refl)

lemma recover_job_accounted:
  assumes "keyed (st_candidates seen)" "distinct (map jb_job_id (st_jobs seen))"
    and "uj \<in> set (startup_jobs seen)" "same_epochs seen st"
  shows "accounted l seen (st_candidates st)
    (st_candidates (fst (recover_job (collect_evidence l (startup_jobs seen)) now uj st)))"
proof (cases "fetch_one (\<lambda>j. jb_job_id j = uj_job_id uj) (st_jobs st)")
  case None
  then show ?thesis by (simp add: recover_job_def Let_def accounted_refl)
next
  case (Some row)
  have row: "row \<in> set (st_jobs st)" "jb_job_id row = uj_job_id uj"
    using fetch_one_Some_iff [OF Some] by simp_all
  have "jb_session_epoch j = jb_session_epoch row"
    if "j \<in> set (st_jobs seen)" "jb_job_id j = uj_job_id uj" for j
    using assms(4) that row by (auto simp: same_epochs_def)
  note slots = recover_slots_accounted [OF assms(1-3) this, of l]
  show ?thesis
    using slots
    by (simp add: recover_job_def Let_def Some mark_startup_def forget_uncertain_def accounted_forget
        accounted_refl)
qed

lemma recover_job_identities:
  "map (\<lambda>j. (jb_job_id j, jb_session_epoch j)) (st_jobs (fst (recover_job ev now uj st))) =
   map (\<lambda>j. (jb_job_id j, jb_session_epoch j)) (st_jobs st)"
  by (simp add: recover_job_def close_recovered_def Let_def mark_startup_def forget_uncertain_def
      map_update_where_frame startup_unknown_def startup_completed_def reconcile_update_def
      split: option.split)

lemma same_epochs_recover:
  assumes "same_epochs seen st"
  shows "same_epochs seen (fst (recover_job ev now uj st))"
  unfolding same_epochs_def
proof (intro ballI impI)
  let ?f = "\<lambda>j. (jb_job_id j, jb_session_epoch j)"
  fix j k
  assume j: "j \<in> set (st_jobs seen)" and k: "k \<in> set (st_jobs (fst (recover_job ev now uj st)))"
    and id: "jb_job_id k = jb_job_id j"
  from k have "?f k \<in> set (map ?f (st_jobs (fst (recover_job ev now uj st))))" by simp
  then obtain i where i: "i \<in> set (st_jobs st)" "?f k = ?f i"
    unfolding recover_job_identities by auto
  with assms j id show "jb_session_epoch k = jb_session_epoch j" by (auto simp: same_epochs_def)
qed

lemma recover_jobs_accounted:
  assumes "keyed (st_candidates seen)" "distinct (map jb_job_id (st_jobs seen))"
    and "set ujs \<subseteq> set (startup_jobs seen)" "same_epochs seen st"
  shows "accounted l seen (st_candidates st)
    (st_candidates (fst (recover_jobs (collect_evidence l (startup_jobs seen)) now ujs n st)))"
  using assms(3,4)
proof (induction ujs arbitrary: n st)
  case (Cons uj ujs)
  from Cons.prems have "accounted l seen (st_candidates st)
      (st_candidates (fst (recover_job (collect_evidence l (startup_jobs seen)) now uj st)))"
    by (intro recover_job_accounted assms(1,2)) simp_all
  from accounted_trans [OF this Cons.IH] Cons.prems same_epochs_recover show ?case
    by (simp add: Let_def)
qed (simp add: accounted_refl)

theorem startup_accounted:
  assumes "keyed (st_candidates seen)" "distinct (map jb_job_id (st_jobs seen))" "same_epochs seen st"
  shows "accounted l seen (st_candidates st)
    (st_candidates (fst (reconcile_startup_candidates l now seen st)))"
  using recover_jobs_accounted [OF assms(1,2) order_refl assms(3)]
  by (simp add: reconcile_startup_candidates_def Let_def accounted_refl)

section \<open>Only closed ledgers complete a window\<close>

definition recovered_ledger :: "candidate list \<Rightarrow> job \<Rightarrow> bool" where
  "recovered_ledger cs k \<longleftrightarrow> (let rows = job_ledger (jb_job_id k) cs in
     jb_status k = Completed \<and> rows \<noteq> [] \<and>
     (\<forall>c \<in> set rows. \<not> slot_open c \<and> cd_disposition c \<noteq> Some DFailed) \<and>
     (\<forall>d \<in> set dispositions. ledger_count rows d = job_count k d))"

lemma startup_completed_counts:
  assumes "ledger_count rows DFailed = 0"
  shows "\<forall>d \<in> set dispositions. ledger_count rows d = job_count (startup_completed rows now j) d"
  using assms by (simp add: dispositions_def startup_completed_def reconcile_update_def)

lemma close_recovered_rows:
  assumes k: "k \<in> set (st_jobs (fst (close_recovered ev uj row now u st)))"
    and row: "jb_job_id row = uj_job_id uj" and ne: "job_ledger (uj_job_id uj) (st_candidates st) \<noteq> []"
  shows "k \<in> set (st_jobs st) \<or> jb_status k = Unknown \<or>
    (jb_job_id k = uj_job_id uj \<and> recovered_ledger (st_candidates st) k)"
proof -
  let ?rows = "job_ledger (uj_job_id uj) (st_candidates st)" and ?g = "completable row (uj_source uj)"
  have m: "k \<in> set (st_jobs st) \<or> jb_status k = Unknown"
    if "k \<in> set (update_where p (startup_unknown r e now) (st_jobs st))" for p r e
    using that by (rule update_where_memE) (simp_all add: startup_unknown_def)
  have c: "k \<in> set (st_jobs st) \<or> (jb_job_id k = uj_job_id uj \<and> recovered_ledger (st_candidates st) k)"
    if "k \<in> set (update_where ?g (startup_completed ?rows now) (st_jobs st))"
      "\<not> list_ex slot_open ?rows" "ledger_count ?rows DFailed = 0"
    using that(1)
  proof (rule update_where_memE)
    fix j assume j: "j \<in> set (st_jobs st)" "?g j" "k = startup_completed ?rows now j"
    then have "jb_job_id k = uj_job_id uj" "jb_status k = Completed"
      using row by (simp_all add: completable_def same_row_def startup_completed_def reconcile_update_def)
    moreover have "\<forall>c \<in> set ?rows. \<not> slot_open c \<and> cd_disposition c \<noteq> Some DFailed"
      using that(2,3) by (auto simp: ledger_count_def list_ex_iff rowcount_zero)
    ultimately show ?thesis
      using ne startup_completed_counts [OF that(3), of now j] j(3) by (simp add: recovered_ledger_def)
  qed simp
  show ?thesis
    using k m c by (auto simp: close_recovered_def Let_def mark_startup_def split: if_splits)
qed

text \<open>A job's turn leaves the ledgers of the other jobs alone.\<close>

lemma job_ledger_other:
  assumes "\<And>c. p c \<Longrightarrow> cd_job_id c \<noteq> other \<and> cd_job_id (f c) \<noteq> other"
  shows "job_ledger other (update_where p f cs) = job_ledger other cs"
  using assms by (induction cs) (auto simp: job_ledger_def)

lemma recover_slot_other:
  assumes "other \<noteq> uj_job_id uj"
  shows "job_ledger other (snd (recover_slot ev uj e alive now row cs)) = job_ledger other cs"
proof -
  have f: "job_ledger other (update_where p (forget_row now) ds) = job_ledger other ds"
    if "\<And>c. p c \<Longrightarrow> cd_job_id c = uj_job_id uj" for p ds
    by (rule job_ledger_other) (use that assms in \<open>auto simp: forget_row_def\<close>)
  have r: "job_ledger other (update_where p (resolve_row d x now) ds) = job_ledger other ds"
    if "\<And>c. p c \<Longrightarrow> cd_job_id c = uj_job_id uj" for p d x ds
    by (rule job_ledger_other) (use that assms in \<open>auto simp: resolve_row_def\<close>)
  show ?thesis
    unfolding recover_slot_def Let_def
    by (auto simp: uncertain_row_def slot_of_def resolvable_def split: option.split intro!: f r)
qed

lemma recover_slots_other:
  "other \<noteq> uj_job_id uj \<Longrightarrow>
     job_ledger other (snd (recover_slots ev uj e alive now rows u cs)) = job_ledger other cs"
  by (induction rows arbitrary: u cs) (simp_all add: Let_def recover_slot_other)

lemma forget_uncertain_other:
  "other \<noteq> jid \<Longrightarrow> job_ledger other (st_candidates (forget_uncertain jid now st)) =
     job_ledger other (st_candidates st)"
  unfolding forget_uncertain_def
  by (simp, rule job_ledger_other) (auto simp: uncertain_row_def forget_row_def)

lemma mark_startup_candidates [simp]: "st_candidates (mark_startup p r e now st) = st_candidates st"
  by (simp add: mark_startup_def)

lemma recover_job_other:
  "other \<noteq> uj_job_id uj \<Longrightarrow> job_ledger other (st_candidates (fst (recover_job ev now uj st))) =
     job_ledger other (st_candidates st)"
  by (simp add: recover_job_def Let_def forget_uncertain_other recover_slots_other split: option.split)

lemma recover_slots_nonempty:
  assumes "job_ledger jid cs \<noteq> []"
  shows "job_ledger jid (snd (recover_slots ev uj e alive now rows u cs)) \<noteq> []"
proof -
  from assms obtain c where c: "c \<in> set cs" "cd_job_id c = jid"
    by (auto simp: job_ledger_def filter_empty_conv)
  obtain d where "d \<in> set (snd (recover_slots ev uj e alive now rows u cs))" "evidence_kept c d"
    using recover_slots_extends [of cs ev uj e alive now rows u] c(1) unfolding ledger_extends_def by blast
  with c(2) show ?thesis by (auto simp: job_ledger_def filter_empty_conv evidence_kept_def ledger_key_def)
qed

lemma recover_job_rows:
  assumes "k \<in> set (st_jobs (fst (recover_job ev now uj st)))"
  shows "k \<in> set (st_jobs st) \<or> jb_status k = Unknown \<or>
    (jb_job_id k = uj_job_id uj \<and> recovered_ledger (st_candidates (fst (recover_job ev now uj st))) k)"
proof (cases "fetch_one (\<lambda>j. jb_job_id j = uj_job_id uj) (st_jobs st)")
  case None
  with assms show ?thesis by (simp add: recover_job_def Let_def)
next
  case (Some row)
  have id: "jb_job_id row = uj_job_id uj" using fetch_one_Some_iff [OF Some] by simp
  have m: "x \<in> set (st_jobs st) \<or> jb_status x = Unknown"
    if "x \<in> set (st_jobs (mark_startup p r e now st1))" "st_jobs st1 = st_jobs st" for x p r e st1
    using that unfolding mark_startup_def
    by (auto simp: startup_unknown_def elim: update_where_memE)
  let ?alive = "list_ex (\<lambda>j. same_row row j \<and> row_source j = uj_source uj) (st_jobs st)"
  let ?r = "recover_slots ev uj (jb_session_epoch row) ?alive now
      (sort_key cd_slot (job_ledger (uj_job_id uj) (st_candidates st))) False (st_candidates st)"
  let ?st1 = "st\<lparr>st_candidates := snd ?r\<rparr>"
  have c: "x \<in> set (st_jobs st) \<or> jb_status x = Unknown \<or>
      (jb_job_id x = uj_job_id uj \<and> recovered_ledger (snd ?r) x)"
    if "x \<in> set (st_jobs (fst (close_recovered ev uj row now (fst ?r) ?st1)))"
      "job_ledger (uj_job_id uj) (st_candidates st) \<noteq> []" for x
    using close_recovered_rows [OF that(1) id] recover_slots_nonempty [OF that(2)] by simp
  have ne: "sort_key cd_slot xs = [] \<longleftrightarrow> xs = []" for xs by (metis set_empty set_sort)
  have fu: "st_jobs (forget_uncertain jid now st) = st_jobs st" for jid
    by (simp add: forget_uncertain_def)
  show ?thesis
    using assms c
    by (auto simp: recover_job_def Let_def Some ne split: if_splits dest!: m [OF _ fu] m [OF _ refl])
qed

lemma recovered_ledger_cong:
  "job_ledger (jb_job_id k) cs = job_ledger (jb_job_id k) ds \<Longrightarrow>
     recovered_ledger cs k \<longleftrightarrow> recovered_ledger ds k"
  by (simp add: recovered_ledger_def)

lemma recover_jobs_rows:
  assumes "distinct (map uj_job_id ujs)"
    and "\<And>k. k \<in> set (st_jobs st) \<Longrightarrow> k \<in> set js \<or> jb_status k = Unknown \<or>
      (jb_job_id k \<notin> uj_job_id ` set ujs \<and> recovered_ledger (st_candidates st) k)"
    and "k \<in> set (st_jobs (fst (recover_jobs ev now ujs n st)))"
  shows "k \<in> set js \<or> jb_status k = Unknown \<or>
    recovered_ledger (st_candidates (fst (recover_jobs ev now ujs n st))) k"
  using assms
proof (induction ujs arbitrary: n st)
  case (Cons uj ujs)
  let ?st1 = "fst (recover_job ev now uj st)"
  have step: "x \<in> set js \<or> jb_status x = Unknown \<or>
      (jb_job_id x \<notin> uj_job_id ` set ujs \<and> recovered_ledger (st_candidates ?st1) x)"
    if x: "x \<in> set (st_jobs ?st1)" for x
  proof -
    consider "x \<in> set (st_jobs st)" | "jb_status x = Unknown"
      | "jb_job_id x = uj_job_id uj" "recovered_ledger (st_candidates ?st1) x"
      using recover_job_rows [OF x] by blast
    then show ?thesis
    proof cases
      case 1
      have "recovered_ledger (st_candidates ?st1) x"
        if "jb_job_id x \<notin> uj_job_id ` set (uj # ujs)" "recovered_ledger (st_candidates st) x"
        using recovered_ledger_cong [OF recover_job_other] that by (metis image_eqI list.set_intros(1))
      then show ?thesis using Cons.prems(2) [OF 1] by auto
    next
      case 3
      then show ?thesis using Cons.prems(1) by auto
    qed simp
  qed
  have "distinct (map uj_job_id ujs)" using Cons.prems(1) by simp
  from Cons.IH [OF this step, of "n + snd (recover_job ev now uj st)"] Cons.prems(3)
  show ?case by (simp add: Let_def)
qed simp

theorem startup_completes_closed:
  assumes seen: "distinct (map jb_job_id (st_jobs seen))"
    and k: "k \<in> set (st_jobs (fst (reconcile_startup_candidates l now seen st)))"
      "k \<notin> set (st_jobs st)" "jb_status k \<noteq> Unknown"
  shows "recovered_ledger (st_candidates (fst (reconcile_startup_candidates l now seen st))) k"
proof -
  let ?ujs = "startup_jobs seen"
  have "distinct (map jb_job_id (filter (\<lambda>j. list_ex (scanned j) (st_candidates seen)) (st_jobs seen)))"
    using seen by (simp add: distinct_map_filter)
  then have "distinct (map uj_job_id ?ujs)"
    by (simp add: startup_jobs_def comp_def startup_job_of_def distinct_map)
  note rows = recover_jobs_rows [OF this, of st "st_jobs st" k "collect_evidence l ?ujs" now 0]
  show ?thesis
    using k rows by (auto simp: reconcile_startup_candidates_def Let_def split: if_splits)
qed

end
