(* ===== verification/Summary_System.thy ===== *)
theory Summary_System
  imports Summary_Startup
begin

text \<open>
  The store as a state machine: one rule per operation, in any order and with any clock readings,
  and the states reachable from the empty store. Every operation is a safe step, extends the
  candidate ledger without rewriting evidence, and keeps message identifiers unique, so the
  invariants hold in every reachable state.
\<close>

section \<open>Messages\<close>

text \<open>
  \<open>add_message\<close> (\<open>message_store.py\<close>): the session row is created on demand, the message gets the next
  sequence number of its session. \<open>m\<close> carries the columns of the message, \<open>mid\<close> is the row
  identifier SQLite assigns. The participants list and the activity times are not part of the model.
\<close>

definition touch_session :: "message_row \<Rightarrow> session_row \<Rightarrow> session_row" where
  "touch_session m r = r\<lparr>se_message_count := se_message_count r + 1,
     se_metadata := (case se_metadata r of
         Doc d \<Rightarrow> Doc (d(''chat_type'' \<mapsto>
             JString (if coalesce [] (ms_group_id m) \<noteq> [] then ''group'' else ''private''),
           ''group_id'' \<mapsto> jopt (ms_group_id m),
           ''scope_id'' \<mapsto> JString (if coalesce [] (ms_group_id m) \<noteq> []
              then coalesce [] (ms_group_id m) else ms_session_id m)))
       | other \<Rightarrow> other)\<rparr>"

definition add_message :: "int \<Rightarrow> message_row \<Rightarrow> store \<Rightarrow> store" where
  "add_message mid m st =
     (let s = ms_session_id m;
          row = coalesce \<lparr>se_message_count = 0, se_metadata = Doc (\<lambda>_. None)\<rparr> (st_sessions st s)
      in st\<lparr>st_messages := st_messages st @
               [m\<lparr>ms_id := mid, ms_seq := Some (get_message_seq_end s st + 1)\<rparr>],
            st_sessions := (st_sessions st)(s \<mapsto> touch_session m row)\<rparr>)"

lemma max_message_seq_append:
  "max_message_seq s (ms @ [m]) = (if ms_session_id m = s
     then (case ms_seq m of None \<Rightarrow> max_message_seq s ms | Some n \<Rightarrow> max n (max_message_seq s ms))
     else max_message_seq s ms)"
  by (auto simp: max_message_seq_def map_filter_def split: option.splits)

lemma fold_max_ge: "(a :: int) \<le> fold max xs a \<and> (\<forall>x \<in> set xs. x \<le> fold max xs a)"
proof (induction xs arbitrary: a)
  case (Cons x xs)
  from Cons.IH [of "max x a"] show ?case by auto
qed simp

lemma message_seq_le:
  "m \<in> set (st_messages st) \<Longrightarrow> ms_session_id m = s \<Longrightarrow> ms_seq m = Some n \<Longrightarrow> n \<le> get_message_seq_end s st"
proof -
  assume m: "m \<in> set (st_messages st)" "ms_session_id m = s" "ms_seq m = Some n"
  then have "n \<in> set (List.map_filter ms_seq (filter (\<lambda>m. ms_session_id m = s) (st_messages st)))"
    by (force simp: map_filter_def)
  then have "n \<le> max_message_seq s (st_messages st)"
    unfolding max_message_seq_def using fold_max_ge by blast
  then show ?thesis by (simp add: get_message_seq_end_def)
qed

section \<open>Steps\<close>

inductive summary_step :: "host \<Rightarrow> store \<Rightarrow> store \<Rightarrow> bool" for h :: host where
  message: "mid \<notin> ms_id ` set (st_messages st) \<Longrightarrow> summary_step h st (add_message mid m st)"
| plan: "summary_step h st (fst (plan_and_enqueue_windows h c observed strict now anow uuid st))"
| claim: "summary_step h st (fst (claim_ready (ho_json h) now scheduler limit per_session lease
    order hint global_limit token st))"
| intents: "summary_step h st (fst (begin_candidate_intents h fresh c is now mnow st))"
| begin_write: "summary_step h st (fst (begin_candidate_write h fresh c i now mnow st))"
| commit: "summary_step h st (fst (commit_window h fresh c w now mnow mnow2 st))"
| fail: "summary_step h st (fst (fail_window h c f now mnow st))"
| renew: "summary_step h st (fst (renew_claim c n now st))"
| requeue: "summary_step h st (fst (requeue_claim h c code now st))"
| recover: "summary_step h st (fst (recover_expired_claims now st))"
| cancel: "summary_step h st (fst (cancel_session_jobs h s e code now st))"
| reset: "summary_step h st (fst (reset_session_epoch h s code now st))"
| clear: "summary_step h st (fst (clear_session_atomically h s p now st))"
| trim: "summary_step h st (fst (trim_if_safe s e n q st))"
| abandon: "summary_step h st (fst (confirm_abandon_session_jobs s e now st))"
| reconcile: "summary_step h st (fst (reconcile_window h fresh c mapping now mnow mnow2 st))"
| startup: "summary_step h st (fst (reconcile_startup_candidates l now seen st))"

inductive summary_run :: "host \<Rightarrow> store \<Rightarrow> store \<Rightarrow> bool" for h :: host where
  stop: "summary_run h st st"
| more: "summary_run h st st1 \<Longrightarrow> summary_step h st1 st2 \<Longrightarrow> summary_run h st st2"

inductive_cases summary_runE: "summary_run h st st'"
inductive_simps summary_run_iff: "summary_run h st st'"

abbreviation reachable :: "host \<Rightarrow> store \<Rightarrow> bool" where
  "reachable h \<equiv> summary_run h empty_store"

section \<open>Every step is safe\<close>

theorem summary_step_safe: "summary_step h st st' \<Longrightarrow> safe_step st st'"
proof (induction rule: summary_step.induct)
  case (message mid st m)
  show ?case by (rule safe_step_same) (simp_all add: add_message_def Let_def)
next
  case plan show ?case by (rule plan_and_enqueue_safe)
next
  case claim show ?case by (rule claim_ready_safe)
next
  case intents show ?case by (rule begin_candidate_intents_safe)
next
  case begin_write show ?case by (rule begin_candidate_write_safe)
next
  case (commit st fresh c w now mnow mnow2)
  show ?case
    using commit_window_closes [of c st h fresh w now mnow mnow2] by (auto simp: closes_claim_def)
next
  case fail show ?case by (rule fail_window_safe)
next
  case renew show ?case by (rule renew_claim_safe)
next
  case requeue show ?case by (rule requeue_claim_safe)
next
  case recover show ?case by (rule recover_safe)
next
  case cancel show ?case by (rule cancel_safe)
next
  case reset show ?case by (rule reset_safe)
next
  case clear show ?case by (rule clear_safe)
next
  case trim show ?case by (rule trim_safe)
next
  case abandon show ?case by (rule abandon_safe)
next
  case startup show ?case by (rule reconcile_startup_safe)
next
  case (reconcile st fresh c mapping now mnow mnow2)
  show ?case
    using reconcile_window_safe [of st h fresh c mapping now mnow mnow2] by (simp add: safe_answer_def)
qed

lemma summary_run_safe: "summary_run h st st' \<Longrightarrow> safe_step st st'"
  by (induction rule: summary_run.induct) (auto intro: safe_step_trans summary_step_safe)

lemma reachable_ok: "reachable h st \<Longrightarrow> store_ok st"
  using summary_run_safe [of h empty_store st] store_ok_empty by (simp add: safe_step_def)

lemma summary_run_evolves: "store_ok st \<Longrightarrow> summary_run h st st' \<Longrightarrow> store_ok st' \<and> store_evolves st st'"
  using summary_run_safe by (simp add: safe_step_def)

lemma summary_run_trans: "summary_run h b c \<Longrightarrow> summary_run h a b \<Longrightarrow> summary_run h a c"
  by (induction rule: summary_run.induct) (auto intro: summary_run.intros)

section \<open>The ledger across steps\<close>

abbreviation extends :: "store \<Rightarrow> store \<Rightarrow> bool" where
  "extends st st' \<equiv> ledger_extends (st_candidates st) (st_candidates st')"

lemma settle_slots_extends: "ledger_extends cs (snd (settle_slots jid now ks cs))"
proof (induction ks arbitrary: cs)
  case (Cons ki ks)
  show ?case
    using Cons.IH settle.extends
    by (cases ki) (simp add: Let_def, blast intro: ledger_extends_trans)
qed simp

lemma mark_unknown_extends:
  "ledger_extends cs (st_candidates st) \<Longrightarrow> ledger_extends cs (st_candidates st0) \<Longrightarrow>
     ledger_extends cs (st_candidates (fst (mark_unknown_claim c now r e mnow st0 st)))"
  using forget.extends
  by (simp add: mark_unknown_claim_def Let_def) (blast intro: ledger_extends_trans)

lemma commit_window_extends: "extends st (fst (commit_window h fresh c w now mnow mnow2 st))"
proof -
  let ?jid = "sj_job_id (cj_job c)"
  obtain ko st1 where k: "key_intents h fresh ?jid (wo_candidate_slots w) [] st = (ko, st1)"
    by (cases "key_intents h fresh ?jid (wo_candidate_slots w) [] st")
  have fr: "st_candidates st1 = st_candidates st"
    using key_intents_frame [of h fresh ?jid "wo_candidate_slots w" "[]" st] k by simp
  have m: "extends st (fst (mark_unknown_claim c now r e m st s))"
    if "extends st s" for r e m s by (rule mark_unknown_extends [OF that]) simp
  have j: "extends st (fst (commit_job h c w now target st s))" if "extends st s" for target s
    using that by (auto simp: commit_job_def Let_def split: option.splits prod.splits)
  show ?thesis
  proof (cases "ko = None \<or> \<not> ledger_agrees ?jid (the ko) (st_candidates st1)")
    case True
    then show ?thesis
      using m [of st] m [of st1] fr unfolding commit_window_def Let_def k
      by (auto split: option.split)
  next
    case False
    then obtain ks where ks: "ko = Some ks" "ledger_agrees ?jid ks (st_candidates st1)" by auto
    obtain ok cs where s: "settle_slots ?jid now ks (st_candidates st1) = (ok, cs)"
      by (cases "settle_slots ?jid now ks (st_candidates st1)")
    then have "extends st (st1\<lparr>st_candidates := cs\<rparr>)"
      using settle_slots_extends [of "st_candidates st1" ?jid now ks] fr by simp
    then show ?thesis
      using m [of st] m [of "st1\<lparr>st_candidates := cs\<rparr>"] j [of "st1\<lparr>st_candidates := cs\<rparr>"] ks s
      unfolding commit_window_def Let_def k
      by (auto split: option.split bool.split)
  qed
qed

lemma bind_owners_extends: "ledger_extends cs (snd (bind_owners jid rt alive now rows ns cs))"
proof (induction ns arbitrary: cs)
  case (Cons n ns)
  show ?case
    using Cons.IH bind.extends
    by (cases n) (auto simp: Let_def split: option.split intro: ledger_extends_trans [OF bind.extends])
qed simp

lemma mark_completed_extends:
  "ledger_extends cs (st_candidates st) \<Longrightarrow> ledger_extends cs (st_candidates st0) \<Longrightarrow>
     ledger_extends cs (st_candidates (fst (mark_unknown_completed c now st0 st)))"
  using forget.extends
  by (simp add: mark_unknown_completed_def) (blast intro: ledger_extends_trans)

lemma reconcile_close_extends:
  "ledger_extends cs (st_candidates st) \<Longrightarrow> ledger_extends cs (st_candidates st0) \<Longrightarrow>
     ledger_extends cs (st_candidates (fst (reconcile_close c job now mnow st0 st)))"
  by (simp add: reconcile_close_def Let_def mark_unknown_extends)

lemma reconcile_window_extends:
  "extends st (fst (reconcile_window h fresh c mapping now mnow mnow2 st))"
proof -
  have sub: "extends st (fst (reconcile_completed h fresh c mapping job rows now st)) \<and>
      extends st (fst (reconcile_running h fresh c mapping job rows now mnow2 st))" for job rows
  proof -
    obtain r1 s1 where m1: "reconcile_mapping h fresh (sj_job_id (cj_job c)) rows mapping True st = (r1, s1)"
      by (cases "reconcile_mapping h fresh (sj_job_id (cj_job c)) rows mapping True st")
    obtain r2 s2 where m2: "reconcile_mapping h fresh (sj_job_id (cj_job c)) rows mapping False st = (r2, s2)"
      by (cases "reconcile_mapping h fresh (sj_job_id (cj_job c)) rows mapping False st")
    have fr: "st_candidates s1 = st_candidates st" "st_candidates s2 = st_candidates st"
      using reconcile_mapping_frame [OF m1] reconcile_mapping_frame [OF m2] by simp_all
    have b: "ledger_extends (st_candidates st) cs"
      if "bind_owners jid rt alive now rows ns (st_candidates st) = (ok, cs)" for jid rt alive ns ok cs
      using bind_owners_extends [of "st_candidates st" jid rt alive now rows ns] that by simp
    show ?thesis
      unfolding reconcile_completed_def reconcile_running_def Let_def m1 m2
      using b fr
      by (auto split: option.split prod.split bool.split
          intro!: mark_completed_extends mark_unknown_extends reconcile_close_extends)
  qed
  show ?thesis
    unfolding reconcile_window_def Let_def using sub by (simp split: option.split)
qed

lemma abandon_all_extends:
  "ledger_extends (as_candidates a) (as_candidates (abandon_all s e now jids a))"
proof (induction jids arbitrary: a)
  case (Cons jid jids)
  have "ledger_extends (as_candidates a) (as_candidates (abandon_one s e now jid a))"
    by (simp add: abandon_one_def Let_def abandon_slot.extends)
  with Cons.IH show ?case by (simp, blast intro: ledger_extends_trans)
qed simp

lemma abandon_extends: "extends st (fst (confirm_abandon_session_jobs s e now st))"
proof (cases "st_connected st")
  case True
  have "ledger_extends (st_candidates st) (as_candidates (abandon_run s e now st))"
    unfolding abandon_run_def
    using abandon_all_extends [of "\<lparr>as_jobs = st_jobs st, as_candidates = st_candidates st,
      as_confirmed = 0, as_totals = (\<lambda>_. 0)\<rparr>"] by simp
  with True show ?thesis by (simp add: abandon_tables)
qed (simp add: confirm_abandon_session_jobs_def)

section \<open>The system invariant\<close>

definition system_ok :: "store \<Rightarrow> bool" where
  "system_ok st \<longleftrightarrow> store_ok st \<and> keyed (st_candidates st) \<and> distinct (map ms_id (st_messages st))"

lemma claim_ready_frame [simp]:
  "st_candidates (fst (claim_ready json now sch l p ls ord hint g tok st)) = st_candidates st"
  "st_messages (fst (claim_ready json now sch l p ls ord hint g tok st)) = st_messages st"
  by (simp_all add: claim_ready_def Let_def split: option.splits)

lemma plan_from_frame:
  "plan_from h c epoch now anow uuid f obs st = Some (st', r) \<Longrightarrow>
     st_candidates st' = st_candidates st \<and> st_messages st' = st_messages st"
  by (auto simp: plan_from_def Let_def split: option.splits)

lemma plan_frame:
  "st_candidates (fst (plan_and_enqueue_windows h c obs strict now anow uuid st)) = st_candidates st \<and>
   st_messages (fst (plan_and_enqueue_windows h c obs strict now anow uuid st)) = st_messages st"
  using plan_and_enqueue_cases [of h c obs strict now anow uuid st]
  using persist_scope_frame(3,4) plan_from_frame by (fastforce)

lemma fail_frame:
  "st_candidates (fst (fail_window h c f now mnow st)) = st_candidates st \<and>
   st_messages (fst (fail_window h c f now mnow st)) = st_messages st"
  by (cases rule: fail_window_cases [of h c f now mnow st]) simp_all

lemma small_frames:
  "st_candidates (fst (renew_claim c n now st)) = st_candidates st"
  "st_messages (fst (renew_claim c n now st)) = st_messages st"
  "st_candidates (fst (requeue_claim h c code now st)) = st_candidates st"
  "st_messages (fst (requeue_claim h c code now st)) = st_messages st"
  "st_candidates (fst (recover_expired_claims now st)) = st_candidates st"
  "st_messages (fst (recover_expired_claims now st)) = st_messages st"
  "st_candidates (fst (cancel_session_jobs h s e code now st)) = st_candidates st"
  "st_messages (fst (cancel_session_jobs h s e code now st)) = st_messages st"
  "st_candidates (fst (trim_if_safe s e n q st)) = st_candidates st"
  by (simp_all add: renew_claim_def requeue_claim_def recover_expired_claims_def
      cancel_session_jobs_def trim_if_safe_def Let_def split: option.splits)

lemma bump_frame [simp]:
  "st_candidates (bump_epoch s e now st) = st_candidates st"
  "st_messages (bump_epoch s e now st) = st_messages st"
  "st_sessions (bump_epoch s e now st) = st_sessions st"
  by (simp_all add: bump_epoch_def split: option.splits)

lemma reset_frame:
  "st_candidates (fst (reset_session_epoch h s code now st)) = st_candidates st"
  "st_messages (fst (reset_session_epoch h s code now st)) = st_messages st"
  "st_candidates (fst (clear_session_atomically h s p now st)) = st_candidates st"
  by (simp_all add: reset_session_epoch_def clear_session_atomically_def Let_def split: option.splits)

lemma clear_messages:
  "st_messages (fst (clear_session_atomically h s p now st)) = st_messages st \<or>
   st_messages (fst (clear_session_atomically h s p now st)) =
     filter (\<lambda>m. ms_session_id m \<noteq> s) (st_messages st)"
  by (simp add: clear_session_atomically_def Let_def split: option.splits)

lemma intents_messages:
  "st_messages (fst (begin_candidate_write h fresh c i now mnow st)) = st_messages st"
  by (simp add: begin_candidate_write_def Let_def)

lemma normalize_messages:
  "normalize_intents h fresh jid is seen st = Some (r, st') \<Longrightarrow> st_messages st' = st_messages st"
proof (induction "is" arbitrary: seen st r)
  case (Cons i "is")
  then show ?case by (fastforce simp: Let_def split: if_splits)
qed simp

lemma begin_intents_messages:
  "st_messages (fst (begin_candidate_intents h fresh c is now mnow st)) = st_messages st"
  by (auto simp: begin_candidate_intents_def Let_def dest: normalize_messages split: option.splits)

lemma commit_messages: "st_messages (fst (commit_window h fresh c w now mnow mnow2 st)) = st_messages st"
proof -
  let ?jid = "sj_job_id (cj_job c)"
  obtain ko st1 where k: "key_intents h fresh ?jid (wo_candidate_slots w) [] st = (ko, st1)"
    by (cases "key_intents h fresh ?jid (wo_candidate_slots w) [] st")
  have fr: "st_messages st1 = st_messages st"
    using key_intents_frame [of h fresh ?jid "wo_candidate_slots w" "[]" st] k by simp
  have m: "st_messages (fst (mark_unknown_claim c now r e m st s)) = st_messages st"
    if "st_messages s = st_messages st" for r e m s
    using that by (simp add: mark_unknown_claim_def Let_def)
  have j: "st_messages (fst (commit_job h c w now target st s)) = st_messages st"
    if "st_messages s = st_messages st" for target s
    using that by (auto simp: commit_job_def Let_def split: option.splits prod.splits)
  show ?thesis
    unfolding commit_window_def Let_def k using fr m j
    by (simp split: option.split bool.split prod.split)
qed

lemma reconcile_mapping_messages:
  "reconcile_mapping h fresh jid rows mapping rt st = (r, st1) \<Longrightarrow> st_messages st1 = st_messages st"
proof -
  have "st_messages (snd (check_rows h fresh jid rt ns seen cs st)) = st_messages st" for ns seen cs
    by (induction cs arbitrary: seen st) (simp_all add: Let_def)
  then show "reconcile_mapping h fresh jid rows mapping rt st = (r, st1) \<Longrightarrow> st_messages st1 = st_messages st"
    by (auto simp: reconcile_mapping_def Let_def split: option.splits)
qed

lemma reconcile_messages:
  "st_messages (fst (reconcile_window h fresh c mapping now mnow mnow2 st)) = st_messages st"
proof -
  have m: "st_messages (fst (mark_unknown_claim c now r e m st s)) = st_messages st"
    "st_messages (fst (mark_unknown_completed c now st s)) = st_messages st"
    "st_messages (fst (reconcile_close c job now m st s)) = st_messages st"
    if "st_messages s = st_messages st" for r e m s job
    using that
    by (simp_all add: mark_unknown_claim_def mark_unknown_completed_def reconcile_close_def Let_def)
  have sub: "st_messages (fst (reconcile_completed h fresh c mapping job rows now st)) = st_messages st \<and>
      st_messages (fst (reconcile_running h fresh c mapping job rows now mnow2 st)) = st_messages st"
    for job rows
  proof -
    obtain r1 s1 where m1: "reconcile_mapping h fresh (sj_job_id (cj_job c)) rows mapping True st = (r1, s1)"
      by (cases "reconcile_mapping h fresh (sj_job_id (cj_job c)) rows mapping True st")
    obtain r2 s2 where m2: "reconcile_mapping h fresh (sj_job_id (cj_job c)) rows mapping False st = (r2, s2)"
      by (cases "reconcile_mapping h fresh (sj_job_id (cj_job c)) rows mapping False st")
    show ?thesis
      unfolding reconcile_completed_def reconcile_running_def Let_def m1 m2
      using reconcile_mapping_messages [OF m1] reconcile_mapping_messages [OF m2] m
      by (simp split: option.split prod.split bool.split)
  qed
  show ?thesis
    unfolding reconcile_window_def Let_def using sub by (simp split: option.split)
qed

lemma abandon_messages:
  "st_messages (fst (confirm_abandon_session_jobs s e now st)) = st_messages st"
  by (simp add: confirm_abandon_session_jobs_def Let_def)

lemma trim_messages_distinct:
  "distinct (map ms_id (st_messages st)) \<Longrightarrow> distinct (map ms_id (st_messages (fst (trim_if_safe s e n q st))))"
  by (simp add: trim_messages distinct_map_filter)

lemma summary_step_extends: "summary_step h st st' \<Longrightarrow> extends st st'"
  by (induction rule: summary_step.induct)
    (simp_all add: add_message_def Let_def plan_frame fail_frame small_frames reset_frame
      begin_candidate_intents_extends begin_candidate_write_extends commit_window_extends
      reconcile_window_extends abandon_extends reconcile_startup_frames)

lemma summary_step_message_ids:
  "summary_step h st st' \<Longrightarrow> distinct (map ms_id (st_messages st)) \<Longrightarrow> distinct (map ms_id (st_messages st'))"
proof (induction rule: summary_step.induct)
  case (clear st s p now)
  then show ?case using clear_messages [of h s p now st] distinct_map_filter by metis
qed (simp_all add: add_message_def Let_def plan_frame fail_frame small_frames reset_frame
      begin_intents_messages intents_messages commit_messages reconcile_messages abandon_messages
      trim_messages_distinct reconcile_startup_frames)

lemma summary_step_system_ok: "summary_step h st st' \<Longrightarrow> system_ok st \<Longrightarrow> system_ok st'"
  using summary_step_safe [of h st st'] summary_step_extends [of h st st']
    summary_step_message_ids [of h st st']
  by (simp add: system_ok_def safe_step_def ledger_extends_def)

lemma system_ok_empty: "system_ok empty_store"
  using store_ok_empty by (simp add: system_ok_def keyed_def empty_store_def)

lemma reachable_system_ok: "reachable h st \<Longrightarrow> system_ok st"
proof (induction "empty_store" st rule: summary_run.induct)
  case stop
  show ?case by (rule system_ok_empty)
next
  case (more st1 st2)
  then show ?case by (blast intro: summary_step_system_ok)
qed

lemma summary_run_extends: "summary_run h st st' \<Longrightarrow> extends st st'"
  by (induction rule: summary_run.induct) (auto intro: ledger_extends_trans summary_step_extends)

end
