(* ===== verification/Summary_Scenario.thy ===== *)
theory Summary_Scenario
  imports Summary_System
begin

text \<open>
  One run of the store on concrete data, used by the witnesses: two messages arrive, their window is
  planned, claimed, its single candidate is recorded and committed, and the source is trimmed. Each
  state is the value the operation computes.
\<close>

definition sc_host :: host where
  "sc_host = \<lparr>ho_json = (\<lambda>s. if s = ''{}'' then Some JObject else None),
     ho_digest = (\<lambda>ms. if list_ex (\<lambda>m. ms_sender_name m \<noteq> None) ms then ''renamed'' else ''digest''), ho_sha = (\<lambda>_. ''sha''), ho_hmac = (\<lambda>_ _ _ _. ''key'')\<rparr>"

definition sc_message :: "int \<Rightarrow> message_row" where
  "sc_message n = \<lparr>ms_id = n, ms_session_id = ''s'', ms_role = ''user'', ms_content = ''hi'',
     ms_sender_id = ''u'', ms_sender_name = None, ms_group_id = None, ms_platform = None,
     ms_timestamp = 0, ms_metadata = Doc (\<lambda>_. None), ms_seq = Some n\<rparr>"

definition sc_context :: window_context where
  "sc_context = \<lparr>cx_session_id = ''s'', cx_session_epoch = 1, cx_start_seq = 0, cx_end_seq = 0,
     cx_expected_count = 0, cx_source_digest = '''', cx_persona_id = None,
     cx_chat_type = Some ''private'', cx_group_id = None, cx_scope_id = Some ''s'',
     cx_triggered_by = ''auto'', cx_gate_revision = '''', cx_gate_snapshot_json = ''{}'',
     cx_window_size = 2, cx_scope_key = '''', cx_privacy_level = None,
     cx_resolver_revision = '''', cx_scope_reason_code = ''scope_unavailable'',
     cx_scope_provenance_complete = None, cx_scope_subject_id = ''''\<rparr>"

lemmas text_eval = text_field_def text_required_def text_or_empty_def py_strip_def strip_of_def
  py_space_def max_text_length_def nonnegative_int_def nonnegative_number_def guard_result_def
  bounded_json_object_def utf8_length_def max_gate_json_bytes_def scope_any_def scope_all_def
  scope_marker_def

lemma sc_context_valid: "make_context (ho_json sc_host) sc_context = Inr sc_context"
  by (simp add: make_context_def sc_context_def sc_host_def text_eval context_range_def
      context_chat_ok_def scope_fields_def Let_def)

definition sc_uuid :: "int \<Rightarrow> int \<Rightarrow> string" where "sc_uuid lo hi = (if lo = 0 then ''j1'' else ''j2'')"

definition sc_filled :: store where
  "sc_filled = add_message 2 (sc_message 2) (add_message 1 (sc_message 1) empty_store)"

lemma sc_filled_tables:
  "st_connected sc_filled = True" "st_jobs sc_filled = []" "st_epochs sc_filled = (\<lambda>_. None)"
  "st_candidates sc_filled = []" "st_messages sc_filled = [sc_message 1, sc_message 2]"
  "st_meta sc_filled = (\<lambda>_. None)"
  by (simp_all add: sc_filled_def add_message_def Let_def empty_store_def sc_message_def
      get_message_seq_end_def max_message_seq_def map_filter_def)

definition sc_job :: job where
  "sc_job = window_job sc_context 1 10 ''j1'' 0 2 ''digest'' Queued RQueued"

definition sc_epoch :: epoch_row where
  "sc_epoch = \<lparr>eo_epoch = 1, eo_cursor_seq = 0, eo_pending = Some \<lparr>pd_start_seq = 0, pd_end_seq = 2,
     pd_status = Queued, pd_reason = RQueued\<rparr>, eo_tombstoned_at = None, eo_updated_at = 10\<rparr>"

definition sc_planned :: store where
  "sc_planned = sc_filled\<lparr>st_jobs := [sc_job], st_epochs := [''s'' \<mapsto> sc_epoch]\<rparr>"

lemma sc_ranges: "plan_ranges 2 0 2 = [(0, 2)]"
  by (simp add: plan_ranges.simps)

lemma sc_checks: "job_checks (ho_json sc_host) sc_job"
  by (simp add: job_checks_def sc_job_def window_job_def sc_context_def sc_host_def
      length_between_def schema_reasons_def none_if_empty_def)

lemma sc_window:
  "plan_window sc_host sc_context 1 10 sc_uuid (sc_filled\<lparr>st_epochs := es\<rparr>) (0, 2)
     \<lparr>ps_jobs = [], ps_queued = 0, ps_duplicates = 0, ps_blocked = False\<rparr> =
   Some \<lparr>ps_jobs = [sc_job], ps_queued = 1, ps_duplicates = 0, ps_blocked = False\<rparr>"
  using sc_checks
  by (simp add: plan_window_def Let_def source_rows_def seq_in_def sc_filled_tables sc_message_def
      window_complete_def row_seqs_def upto.simps rows_digest_def insert_job_def sc_uuid_def
      sc_job_def) (simp add: sc_host_def sc_context_def)

lemma sc_plan:
  "plan_and_enqueue_windows sc_host sc_context 2 strict 10 10 sc_uuid sc_filled =
     (sc_planned, Inr \<lparr>er_accepted = True, er_queued = 1, er_duplicates = 0,
        er_active_parallelism = 0, er_target_parallelism = 1, er_reason_code = RQueued\<rparr>)"
proof -
  have ctx: "cx_session_id sc_context = ''s''" "cx_session_epoch sc_context = 1"
    "cx_start_seq sc_context = 0" "cx_window_size sc_context = 2" "cx_triggered_by sc_context = ''auto''"
    "\<not> context_scope_available sc_context"
    by (simp_all add: sc_context_def context_scope_available_def)
  have job: "jb_start_seq sc_job = 0" "jb_end_seq sc_job = 2" "jb_status sc_job = Queued"
    "jb_session_id sc_job = ''s''" "jb_session_epoch sc_job = 1" "jb_reason_code sc_job = RQueued"
    "jb_next_attempt_at sc_job = 10"
    by (simp_all add: sc_job_def window_job_def ctx)
  show ?thesis
    by (simp add: plan_and_enqueue_windows_def Let_def ensure_epoch_def sc_filled_tables ctx
        persist_scope_snapshot_def manual_blocker_def validated_frontier_def epoch_jobs_def
        plan_from_def sc_ranges sc_window active_count_def advance_cursor_def epoch_at_def
        settled_prefix.simps next_settled_def in_epoch_def job settled_status_def pending_at_def
        open_status_def enqueue_reason_def sc_planned_def sc_epoch_def)
qed

section \<open>Claiming\<close>

definition sc_running :: job where
  "sc_running = claim_update sc_job ''tok'' 131 11 sc_job"

definition sc_dto :: summary_job where
  "sc_dto = job_dto sc_running"

definition sc_claim :: claimed_job where
  "sc_claim = \<lparr>cj_job = sc_dto, cj_claim_token = ''tok'', cj_scheduler_id = ''w'',
     cj_lease_until = 131, cj_worker_generation = 1\<rparr>"

definition sc_claimed :: store where
  "sc_claimed = sc_planned\<lparr>st_jobs := [sc_running],
     st_meta := [round_robin_key \<mapsto> ''s'']\<rparr>"

lemmas sc_row_defs = sc_running_def claim_update_def sc_job_def window_job_def sc_context_def

lemma sc_row_job: "row_job (ho_json sc_host) sc_running = Inr sc_dto"
  by (simp add: row_job_def make_job_def job_identity_def job_dto_def sc_row_defs text_eval Let_def
      job_numbers_ok_def normalize_exception_type_def job_scope_def sc_host_def sc_dto_def
      none_if_empty_def context_scope_available_def)

lemma sc_claim_ready:
  "claim_ready (ho_json sc_host) 11 ''w'' 1 1 120 [] None None (\<lambda>_. ''tok'') sc_planned =
     (sc_claimed, Inr [sc_claim])"
proof -
  have job: "jb_job_id sc_job = ''j1''" "jb_session_id sc_job = ''s''" "jb_session_epoch sc_job = 1"
    "jb_status sc_job = Queued" "jb_attempt_count sc_job = 0" "jb_next_attempt_at sc_job = 10"
    "jb_worker_generation sc_job = 0"
    by (simp_all add: sc_job_def window_job_def sc_context_def)
  have run: "jb_job_id sc_running = ''j1''" "sj_session_id sc_dto = ''s''"
    by (simp_all add: sc_running_def claim_update_def job sc_dto_def job_dto_def)
  have up: "claim_update sc_job ''tok'' 131 11 sc_job = sc_running" by (simp add: sc_running_def)
  show ?thesis
    by (simp add: claim_ready_def Let_def sc_planned_def sc_filled_tables ready_row_def
        active_row_def current_job_def epoch_at_def sc_epoch_def job claims_full_def
        session_busy_def claim_one_def claim_guard_def up fetch_one_def run sc_row_job
        make_claim_def text_eval sc_claim_def sc_claimed_def)
qed

lemma sc_matches: "t < 131 \<Longrightarrow> claim_matches sc_claim t (sc_claimed\<lparr>st_candidates := cs, st_meta := m\<rparr>)"
  by (simp add: claim_matches_def fence_row_def claim_fence_def sc_claim_def sc_claimed_def
      sc_planned_def current_job_def epoch_at_def sc_epoch_def sc_dto_def job_dto_def sc_row_defs
      context_scope_available_def none_if_empty_def)

section \<open>Recording, committing, trimming\<close>

definition sc_intent :: "ledger_status \<Rightarrow> candidate_intent" where
  "sc_intent s = \<lparr>ci_slot = 0, ci_content_digest = ''cd'', ci_idempotency_key = ''ik'',
     ci_slot_key = '''', ci_disposition = (if s = Committed then Some Canonical else None),
     ci_status = s, ci_canonical_id = (if s = Committed then Some 7 else None)\<rparr>"

definition sc_slot :: "real \<Rightarrow> ledger_status \<Rightarrow> candidate" where
  "sc_slot now s = intent_row ''j1'' now ''key'' (sc_intent s)"

definition sc_secret :: "string \<Rightarrow> string option" where
  "sc_secret = [round_robin_key \<mapsto> ''s'', secret_key \<mapsto> ''secret'']"

definition sc_recorded :: store where
  "sc_recorded = sc_claimed\<lparr>st_meta := sc_secret, st_candidates := [sc_slot 12 Planned]\<rparr>"

lemma sc_claim_id: "sj_job_id (cj_job sc_claim) = ''j1''"
  by (simp add: sc_claim_def sc_dto_def job_dto_def sc_row_defs)

lemma sc_claimed_tables:
  "st_connected sc_claimed = True" "st_candidates sc_claimed = []" "st_jobs sc_claimed = [sc_running]"
  "st_meta sc_claimed = [round_robin_key \<mapsto> ''s'']" "st_epochs sc_claimed = [''s'' \<mapsto> sc_epoch]"
  by (simp_all add: sc_claimed_def sc_planned_def sc_filled_tables)

lemma sc_intents:
  "begin_candidate_intents sc_host ''secret'' sc_claim [sc_intent Planned] 12 12 sc_claimed =
     (sc_recorded, True)"
proof -
  have m: "claim_matches sc_claim 12 sc_claimed"
    using sc_matches [where t = 12 and cs = "st_candidates sc_claimed" and m = "st_meta sc_claimed"]
    by simp
  show ?thesis
    by (simp add: begin_candidate_intents_def Let_def sc_claim_id m sc_claimed_tables sc_intent_def
        owned_slot_key_def ensure_summary_secret_def round_robin_key_def secret_key_def sc_host_def
        job_ledger_def ledger_entry_def fetch_one_def insert_candidate_def candidate_checks_def
        length_between_def intent_row_def sc_recorded_def sc_slot_def sc_secret_def)
qed

definition sc_outcome :: window_outcome where
  "sc_outcome = \<lparr>wo_can_advance = True, wo_canonical_count = 1, wo_quarantine_count = 0,
     wo_discard_count = 0, wo_mark_write_count = 0, wo_merged_count = 0,
     wo_facts_rejected_count = 0, wo_failed_count = 0, wo_skipped_idempotent_count = 0,
     wo_unknown_count = 0, wo_candidate_slots = [sc_intent Committed], wo_failed_stage = None,
     wo_reason_code = RCompleted, wo_exception_type = None\<rparr>"

definition sc_done :: job where
  "sc_done = commit_update sc_outcome Completed RCompleted None 13 sc_running"

definition sc_totals :: "string \<Rightarrow> int option" where
  "sc_totals = bump_counters (outcome_totals sc_outcome) (st_counters sc_recorded)"

definition sc_committed :: store where
  "sc_committed = sc_recorded\<lparr>st_jobs := [sc_done], st_candidates := [sc_slot 13 Committed],
     st_counters := sc_totals,
     st_epochs := [''s'' \<mapsto> sc_epoch\<lparr>eo_cursor_seq := 2, eo_pending := None, eo_updated_at := 13\<rparr>]\<rparr>"

lemma sc_recorded_tables:
  "st_connected sc_recorded = True" "st_candidates sc_recorded = [sc_slot 12 Planned]"
  "st_jobs sc_recorded = [sc_running]" "st_epochs sc_recorded = [''s'' \<mapsto> sc_epoch]"
  "st_meta sc_recorded = sc_secret"
  by (simp_all add: sc_recorded_def sc_claimed_tables)

lemma sc_valid_outcome: "valid_window_outcome sc_outcome"
  by (simp add: valid_window_outcome_def sc_outcome_def sc_intent_def dispositions_def)

lemma sc_done_checks: "job_checks (ho_json sc_host) sc_done"
  by (simp add: job_checks_def sc_done_def commit_update_def sc_row_defs sc_host_def sc_outcome_def
      length_between_def schema_reasons_def none_if_empty_def)

lemma sc_guard: "close_guard sc_claim sc_running"
  by (simp add: close_guard_def sc_claim_def sc_dto_def job_dto_def sc_row_defs)

lemma sc_commit:
  "commit_window sc_host ''secret'' sc_claim sc_outcome 13 13 13 sc_recorded =
     (sc_committed, completion True Completed 2 RCompleted)"
proof -
  have m: "claim_matches sc_claim 13 sc_recorded"
    using sc_matches [where t = 13 and cs = "st_candidates sc_claimed" and m = "st_meta sc_claimed"]
      claim_matches_frame [of sc_recorded sc_claimed] by (simp add: sc_recorded_def)
  have o: "wo_candidate_slots sc_outcome = [sc_intent Committed]" "wo_unknown_count sc_outcome = 0"
    "wo_can_advance sc_outcome" "wo_reason_code sc_outcome = RCompleted"
    by (simp_all add: sc_outcome_def)
  have k: "key_intents sc_host ''secret'' ''j1'' [sc_intent Committed] [] sc_recorded =
      (Some [(''key'', sc_intent Committed)], sc_recorded)"
    by (simp add: owned_slot_key_def ensure_summary_secret_def Let_def sc_recorded_tables
        sc_secret_def secret_key_def sc_host_def)
  have s: "settle_slots ''j1'' 13 [(''key'', sc_intent Committed)] [sc_slot 12 Planned] =
      (True, [sc_slot 13 Committed])"
    by (simp add: sc_slot_def intent_row_def sc_intent_def slot_guard_def same_evidence_def
        settle_row_def Let_def)
  have a: "ledger_agrees ''j1'' [(''key'', sc_intent Committed)] [sc_slot 12 Planned]"
    by (simp add: ledger_agrees_def job_ledger_def sc_slot_def intent_row_def sc_intent_def
        ledger_entry_def fetch_one_def slot_consistent_def same_evidence_def owner_disposition_def)
  have d: "jb_start_seq sc_done = 0" "jb_end_seq sc_done = 2" "jb_status sc_done = Completed"
    "jb_session_id sc_done = ''s''" "jb_session_epoch sc_done = 1"
    by (simp_all add: sc_done_def commit_update_def sc_row_defs)
  have c: "sj_session_id (cj_job sc_claim) = ''s''" "sj_session_epoch (cj_job sc_claim) = 1"
    by (simp_all add: sc_claim_def sc_dto_def job_dto_def sc_row_defs)
  have j: "commit_job sc_host sc_claim sc_outcome 13 (Completed, RCompleted, None) sc_recorded
      (sc_recorded\<lparr>st_candidates := [sc_slot 13 Committed]\<rparr>) =
      (sc_committed, completion True Completed 2 RCompleted)"
    using sc_done_checks
    by (simp add: commit_job_def checked_update_def sc_recorded_tables sc_guard sc_done_def [symmetric]
        Let_def advance_cursor_def epoch_at_def sc_epoch_def epoch_jobs_def in_epoch_def d c
        settled_prefix.simps next_settled_def settled_status_def pending_at_def sc_committed_def
        sc_totals_def)
  show ?thesis
    by (simp add: commit_window_def Let_def sc_claim_id sc_recorded_tables m sc_valid_outcome
        commit_status_def o k a s j del: key_intents.simps settle_slots.simps)
qed

definition sc_trimmed :: store where
  "sc_trimmed = fst (trim_if_safe ''s'' 1 1 NoChecker sc_committed)"

lemma sc_committed_tables:
  "st_connected sc_committed = True" "st_candidates sc_committed = [sc_slot 13 Committed]"
  "st_jobs sc_committed = [sc_done]" "st_messages sc_committed = [sc_message 1, sc_message 2]"
  by (simp_all add: sc_committed_def sc_recorded_def sc_claimed_def sc_planned_def sc_filled_tables)

lemma sc_trim: "st_messages sc_trimmed = [sc_message 2]"
proof -
  have d: "jb_job_id sc_done = ''j1''" "jb_start_seq sc_done = 0" "jb_status sc_done = Completed"
    "jb_canonical_count sc_done = 1" "jb_quarantine_count sc_done = 0" "jb_discard_count sc_done = 0"
    "jb_mark_write_count sc_done = 0" "jb_merged_count sc_done = 0" "jb_failed_count sc_done = 0"
    "jb_skipped_count sc_done = 0"
    by (simp_all add: sc_done_def commit_update_def sc_row_defs sc_outcome_def)
  have s: "cd_job_id (sc_slot 13 Committed) = ''j1''" "cd_status (sc_slot 13 Committed) = Committed"
    "cd_disposition (sc_slot 13 Committed) = Some Canonical" "cd_canonical_id (sc_slot 13 Committed) = Some 7"
    by (simp_all add: sc_slot_def intent_row_def sc_intent_def)
  have "\<not> job_blocks_trim [sc_slot 13 Committed] sc_done"
    by (simp add: job_blocks_trim_def open_slot_blocks_def bad_slot_blocks_def bad_terminal_row_def
        missing_ledger_blocks_def count_mismatch_blocks_def job_ledger_def job_total_def
        dispositions_def ledger_count_def d s settled_status_def owner_dispositions_def)
  then have "\<not> trim_refused ''s'' 1 1 NoChecker sc_committed"
    by (auto simp: trim_refused_def has_trim_blocker_def sc_committed_tables epoch_jobs_def
        in_epoch_def d open_status_def beyond_cursor_def ledger_blocks_trim_iff epoch_at_def
        sc_committed_def sc_recorded_tables)
  then show ?thesis
    by (simp add: sc_trimmed_def trim_messages sc_committed_tables trim_ids_def summarised_def
        epoch_at_def) (simp add: sc_committed_def sc_epoch_def sc_message_def)
qed

section \<open>The run is a run\<close>

lemma sc_reach_filled: "reachable sc_host sc_filled"
proof -
  have "reachable sc_host (add_message 1 (sc_message 1) empty_store)"
    by (rule summary_run.more [OF summary_run.stop summary_step.message]) (simp add: empty_store_def)
  then show ?thesis unfolding sc_filled_def
    by (rule summary_run.more [OF _ summary_step.message])
      (simp add: empty_store_def add_message_def Let_def)
qed

lemma sc_reach_planned: "reachable sc_host sc_planned"
  using summary_run.more [OF sc_reach_filled summary_step.plan] sc_plan by (metis fst_conv)

lemma sc_reach_claimed: "reachable sc_host sc_claimed"
  using summary_run.more [OF sc_reach_planned summary_step.claim] sc_claim_ready by (metis fst_conv)

lemma sc_reach_recorded: "reachable sc_host sc_recorded"
  using summary_run.more [OF sc_reach_claimed summary_step.intents] sc_intents by (metis fst_conv)

lemma sc_reach_committed: "reachable sc_host sc_committed"
  using summary_run.more [OF sc_reach_recorded summary_step.commit] sc_commit by (metis fst_conv)

lemma sc_reach_trimmed: "reachable sc_host sc_trimmed"
  unfolding sc_trimmed_def by (rule summary_run.more [OF sc_reach_committed summary_step.trim])

section \<open>A failing worker\<close>

definition sc_failure :: summary_failure where
  "sc_failure = \<lparr>sf_failed_stage = ''extract'', sf_reason_code = RStoreUnavailable,
     sf_exception_type = ''OSError'', sf_retryable = True, sf_cancelled = False\<rparr>"

lemma sc_fail_accepted: "rr_accepted (snd (fail_window sc_host sc_claim sc_failure 13 13 sc_recorded))"
proof -
  have m: "claim_matches sc_claim 13 sc_recorded"
    using sc_matches [where t = 13 and cs = "st_candidates sc_claimed" and m = "st_meta sc_claimed"]
      claim_matches_frame [of sc_recorded sc_claimed] by (simp add: sc_recorded_def)
  have a: "sj_attempt_count (cj_job sc_claim) = 1"
    by (simp add: sc_claim_def sc_dto_def job_dto_def sc_row_defs)
  have "job_checks (ho_json sc_host) (fail_update sc_failure Failed 18 RStoreUnavailable 13 sc_running)"
    by (simp add: job_checks_def fail_update_def sc_failure_def sc_row_defs sc_host_def
        length_between_def schema_reasons_def none_if_empty_def)
  then show ?thesis
    by (simp add: fail_window_def Let_def sc_recorded_tables m a fail_target_def sc_failure_def
        retry_delay_seconds_def nonnegative_int_def checked_update_def sc_guard retry_def)
qed

end
