(* ===== verification/Recovery_Properties.thy ===== *)
theory Recovery_Properties
  imports Summary_Scenario
begin

text \<open>
  What recovery after a crash may do, stated over the runs of the store, and the evidence the ledger
  keeps for it. The witnesses let a worker crash between writing a memory and recording it.
\<close>

section \<open>A crash while writing\<close>

definition sc_writing :: store where
  "sc_writing = sc_recorded\<lparr>st_candidates := [write_mark 12 (sc_slot 12 Planned)]\<rparr>"

lemma sc_begin_write:
  "begin_candidate_write sc_host ''secret'' sc_claim (sc_intent Planned) 12 12 sc_recorded = (sc_writing, True)"
proof -
  have m: "claim_matches sc_claim 12 sc_recorded"
    using sc_matches [where t = 12 and cs = "st_candidates sc_claimed" and m = "st_meta sc_claimed"]
      claim_matches_frame [of sc_recorded sc_claimed] by (simp add: sc_recorded_def)
  show ?thesis
    by (simp add: begin_candidate_write_def Let_def sc_recorded_tables m sc_claim_id owned_slot_key_def
        ensure_summary_secret_def sc_secret_def secret_key_def sc_intent_def sc_host_def write_guard_def
        sc_slot_def intent_row_def same_evidence_def writable_status_def sc_writing_def)
qed

lemma sc_reach_writing: "reachable sc_host sc_writing"
  using summary_run.more [OF sc_reach_recorded summary_step.begin_write] sc_begin_write by (metis fst_conv)

definition sc_lookups :: startup_lookups where
  "sc_lookups = \<lparr>sl_merged = None, sl_canonical = Some (\<lambda>_. OwnerId 7), sl_quarantine = None\<rparr>"

definition sc_recovered :: store where
  "sc_recovered = fst (reconcile_startup_candidates sc_lookups 20 sc_writing sc_writing)"

lemma sc_writing_tables:
  "st_connected sc_writing" "st_jobs sc_writing = [sc_running]" "st_epochs sc_writing = [''s'' \<mapsto> sc_epoch]"
  "st_candidates sc_writing = [(sc_slot 12 Planned)\<lparr>cd_status := Writing\<rparr>]"
  by (simp_all add: sc_writing_def sc_recorded_tables write_mark_def sc_slot_def intent_row_def sc_intent_def)

definition sc_found :: candidate where
  "sc_found = resolve_row Canonical (Some 7) 20 ((sc_slot 12 Planned)\<lparr>cd_status := Writing\<rparr>)"

lemma sc_recover_with:
  assumes merged: "lookup_step (sl_merged l) ''ik'' = Absent" and owner: "lookup_step (sl_canonical l) ''ik'' = Found 7"
    and st: "st = fst (reconcile_startup_candidates l 20 sc_writing sc_writing)"
  shows "st_candidates st = [sc_found] \<and> (\<exists>k. st_jobs st = [k] \<and> jb_status k = Completed)"
proof -
  let ?c = "(sc_slot 12 Planned)\<lparr>cd_status := Writing\<rparr>"
  have c: "cd_job_id ?c = ''j1''" "cd_slot ?c = 0" "cd_status ?c = Writing"
    "cd_idempotency_key ?c = ''ik''" "cd_canonical_id ?c = None"
    by (simp_all add: sc_slot_def intent_row_def sc_intent_def)
  have j: "jb_job_id sc_running = ''j1''" "jb_session_id sc_running = ''s''"
    "jb_session_epoch sc_running = 1" "jb_status sc_running = Running"
    by (simp_all add: sc_row_defs)
  have f: "cd_job_id sc_found = ''j1''" "cd_status sc_found = Committed" "cd_disposition sc_found = Some Canonical"
    "cd_canonical_id sc_found = Some 7"
    using c by (simp_all add: sc_found_def resolve_row_def)
  let ?uj = "\<lparr>uj_job_id = ''j1'', uj_source = row_source sc_running,
    uj_slots = [\<lparr>su_slot = 0, su_key = ''ik'', su_status = Writing\<rparr>]\<rparr>"
  have u: "startup_jobs sc_writing = [?uj]"
    using c j by (simp add: startup_jobs_def sc_writing_tables scanned_def startup_job_of_def)
  have e: "epoch_at sc_writing ''s'' 1 = Some sc_epoch"
    by (simp add: epoch_at_def sc_writing_tables sc_epoch_def)
  let ?ev = "collect_evidence l [?uj]"
  have ev: "ue_merged ?ev = (\<lambda>_. None)" "ue_owners ?ev (''j1'', 0) = Some 7"
    by (simp_all add: collect_evidence_def collect_job_def collect_slot_def uncertain_def quality_key_def
        merged owner no_startup_evidence_def)
  have r: "recover_slots ?ev ?uj 1 True 20 [?c] False [?c] = (False, [sc_found])"
    using c by (simp add: recover_slot_def Let_def initial_slot_def fetch_one_def slot_verdict_def ev
        uncertain_def resolvable_def slot_of_def uncertain_row_def sc_found_def)
  have l: "job_ledger ''j1'' [?c] = [?c]" "job_ledger ''j1'' [sc_found] = [sc_found]"
    by (simp_all add: job_ledger_def c f)
  have o: "\<not> slot_open sc_found" by (simp add: slot_open_def f owner_disposition_def)
  have n: "ledger_count [sc_found] DFailed = 0" by (simp add: ledger_count_def f)
  have job: "recover_job ?ev 20 ?uj sc_writing =
      close_recovered ?ev ?uj sc_running 20 False (sc_writing\<lparr>st_candidates := [sc_found]\<rparr>)"
    using r l by (simp add: recover_job_def Let_def sc_writing_tables fetch_one_def j e same_row_def)
  show ?thesis
    using o n l
    by (simp add: st reconcile_startup_candidates_def Let_def sc_writing_tables u job
        close_recovered_def completable_def same_row_def j startup_completed_def reconcile_update_def)
qed

lemma sc_recovered_rows:
  "st_candidates sc_recovered = [sc_found] \<and> (\<exists>k. st_jobs sc_recovered = [k] \<and> jb_status k = Completed)"
  by (rule sc_recover_with [of sc_lookups]) (simp_all add: sc_lookups_def sc_recovered_def)

section \<open>Properties\<close>

lemma singleton_of_distinct:
  assumes "set xs = {d}" "distinct xs"
  shows "xs = [d]"
proof (cases xs)
  case (Cons x ys)
  with assms have "x = d" "set ys \<subseteq> {d}" "d \<notin> set ys" by auto
  then have "set ys = {}" by (metis singletonI subset_singletonD)
  with Cons \<open>x = d\<close> show ?thesis by simp
qed (use assms in simp)

lemma startup_changes_proved:
  assumes "reachable h seen" and "summary_run h seen st"
    and "c \<in> set (st_candidates (fst (reconcile_startup_candidates l now seen st)))"
    and "c \<notin> set (st_candidates st)"
  shows "cd_status c = LUnknown \<or> proved_slot l seen c"
proof -
  have sys: "system_ok seen" by (rule reachable_system_ok [OF assms(1)])
  then have ok: "store_ok seen" "keyed (st_candidates seen)" "distinct (map jb_job_id (st_jobs seen))"
    by (simp_all add: system_ok_def store_ok_def)
  from summary_run_evolves [OF ok(1) assms(2)] have ev: "store_ok st" "store_evolves seen st" by simp_all
  have "same_epochs seen st"
    unfolding same_epochs_def
  proof (intro ballI impI)
    fix j k assume j: "j \<in> set (st_jobs seen)" and k: "k \<in> set (st_jobs st)" "jb_job_id k = jb_job_id j"
    from ev(2) j obtain i where i: "i \<in> set (st_jobs st)" "job_evolves j i"
      by (auto simp: store_evolves_def)
    have "distinct (map jb_job_id (st_jobs st))" using ev(1) by (simp add: store_ok_def)
    from key_unique [OF this i(1) k(1)] i(2) k(2) have "i = k" by (simp add: job_evolves_def)
    with i(2) show "jb_session_epoch k = jb_session_epoch j" by (simp add: job_evolves_def)
  qed
  from startup_accounted [OF ok(2,3) this] assms(3,4) show ?thesis
    unfolding accounted_def by blast
qed

text \<open>
  C26: recovery after a crash invents nothing. Whatever happened between the scan and the transaction,
  every slot it changes either becomes unknown or was proved for its own idempotency key: by an owner
  the merged or the canonical lookup returned, or by a quarantine entry of the same window.
\<close>

theorem startup_invents_no_owner:
  assumes "reachable h seen" and "summary_run h seen st"
    and "c \<in> set (st_candidates (fst (reconcile_startup_candidates l now seen st)))"
    and "c \<notin> set (st_candidates st)"
  shows "cd_status c = LUnknown \<or> proved_slot l seen c"
  by (rule startup_changes_proved [OF assms])

theorem startup_invents_no_owner_witness:
  "sc_found \<in> set (st_candidates sc_recovered) \<and> proved_slot sc_lookups sc_writing sc_found"
proof -
  have s: "cd_status sc_found = Committed" by (simp add: sc_found_def resolve_row_def)
  moreover have "cd_status ((sc_slot 12 Planned)\<lparr>cd_status := Writing\<rparr>) = Writing" by simp
  ultimately have "sc_found \<noteq> (sc_slot 12 Planned)\<lparr>cd_status := Writing\<rparr>" by fastforce
  then have "sc_found \<notin> set (st_candidates sc_writing)" by (simp add: sc_writing_tables)
  moreover have "sc_found \<in> set (st_candidates (fst (reconcile_startup_candidates sc_lookups 20 sc_writing sc_writing)))"
    using sc_recovered_rows by (simp add: sc_recovered_def)
  ultimately show ?thesis
    using startup_invents_no_owner [OF sc_reach_writing summary_run.stop, of sc_found sc_lookups 20] s
    by (simp add: sc_recovered_def)
qed

text \<open>
  C27: recovery completes a window only with a closed ledger: every job row it writes is either unknown,
  or completed with at least one slot, all of them resolved and none failed, and with counters that
  are the counts of the ledger.
\<close>

theorem startup_completes_only_closed_ledgers:
  assumes "reachable h seen"
    and "k \<in> set (st_jobs (fst (reconcile_startup_candidates l now seen st)))" and "k \<notin> set (st_jobs st)"
  shows "jb_status k = Unknown \<or>
    recovered_ledger (st_candidates (fst (reconcile_startup_candidates l now seen st))) k"
proof -
  have "distinct (map jb_job_id (st_jobs seen))"
    using reachable_ok [OF assms(1)] by (simp add: store_ok_def)
  from startup_completes_closed [OF this assms(2,3)] show ?thesis by blast
qed

theorem startup_completes_only_closed_ledgers_witness:
  "\<exists>k \<in> set (st_jobs sc_recovered). recovered_ledger (st_candidates sc_recovered) k"
proof -
  obtain k where k: "st_jobs sc_recovered = [k]" "jb_status k = Completed" using sc_recovered_rows by blast
  then have "k \<in> set (st_jobs (fst (reconcile_startup_candidates sc_lookups 20 sc_writing sc_writing)))"
    by (simp add: sc_recovered_def)
  moreover have "k \<notin> set (st_jobs sc_writing)" using k(2) by (auto simp: sc_writing_tables sc_row_defs)
  ultimately have "recovered_ledger (st_candidates sc_recovered) k"
    using startup_completes_only_closed_ledgers [OF sc_reach_writing, of k sc_lookups 20 sc_writing] k
    by (simp add: sc_recovered_def)
  with k(1) show ?thesis by simp
qed

text \<open>
  C28: the evidence of a candidate is write-once. Whatever operations follow, the ledger keeps exactly
  one row for the slot, with the slot key, content digest and idempotency key it was recorded with.
\<close>

theorem ledger_evidence_is_write_once:
  assumes "reachable h st" and "summary_run h st st'" and "c \<in> set (st_candidates st)"
  shows "\<exists>d. filter (\<lambda>d. cd_job_id d = cd_job_id c \<and> cd_slot d = cd_slot c) (st_candidates st') = [d] \<and>
    cd_slot_key d = cd_slot_key c \<and> cd_content_digest d = cd_content_digest c \<and>
    cd_idempotency_key d = cd_idempotency_key c"
proof -
  let ?p = "\<lambda>d. cd_job_id d = cd_job_id c \<and> cd_slot d = cd_slot c"
  have x: "extends st st'" by (rule summary_run_extends [OF assms(2)])
  have k: "keyed (st_candidates st')"
    using reachable_system_ok [OF assms(1)] x by (simp add: system_ok_def ledger_extends_def)
  from x assms(3) obtain d where d: "d \<in> set (st_candidates st')" "evidence_kept c d"
    by (auto simp: ledger_extends_def)
  then have p: "?p d" by (simp add: evidence_kept_def ledger_key_def)
  have "b = d" if "b \<in> set (st_candidates st')" "?p b" for b
  proof -
    have "ledger_key b = ledger_key d" using that(2) p by (simp add: ledger_key_def)
    then show ?thesis using key_unique [OF k [unfolded keyed_def] d(1) that(1)] by simp
  qed
  then have "set (filter ?p (st_candidates st')) = {d}" unfolding set_filter using d(1) p by blast
  moreover have "distinct (filter ?p (st_candidates st'))"
    by (rule distinct_filter) (use k in \<open>simp add: keyed_def distinct_map\<close>)
  ultimately have "filter ?p (st_candidates st') = [d]" by (rule singleton_of_distinct)
  with d(2) show ?thesis by (simp add: evidence_kept_def)
qed

theorem ledger_evidence_is_write_once_witness:
  "\<exists>d. st_candidates sc_recovered = [d] \<and> cd_idempotency_key d = ''ik''"
proof -
  have run: "summary_run sc_host sc_writing sc_recovered"
    unfolding sc_recovered_def by (rule summary_run.more [OF summary_run.stop summary_step.startup])
  let ?c = "(sc_slot 12 Planned)\<lparr>cd_status := Writing\<rparr>"
  have "?c \<in> set (st_candidates sc_writing)" by (simp add: sc_writing_tables)
  from ledger_evidence_is_write_once [OF sc_reach_writing run this] sc_recovered_rows
  show ?thesis by (auto simp: sc_slot_def intent_row_def sc_intent_def split: if_splits)
qed

end
