(* ===== verification/Summary_Coverage.thy ===== *)
theory Summary_Coverage
  imports Summary_Invariant
begin

text \<open>
  What an accepted plan achieves: together with the windows that were already there, the planned
  windows cover every message up to the observed end except at most the last one; a queued window has
  its complete source; planning the same range again plans nothing. And what the cursor tells: no
  window behind it can still be claimed.
\<close>

text \<open>The transaction got past every refusal.\<close>

definition plan_executed ::
  "host \<Rightarrow> window_context \<Rightarrow> int \<Rightarrow> real \<Rightarrow> real \<Rightarrow> (int \<Rightarrow> int \<Rightarrow> string) \<Rightarrow> store \<Rightarrow> store \<Rightarrow> bool" where
  "plan_executed h c observed now active_now uuid st st' \<longleftrightarrow>
     (let es = ensure_epoch (cx_session_id c) now st in \<exists>st2 frontier res.
        cx_session_epoch c = fst (fst es) \<and> cx_start_seq c = snd (fst es) \<and>
        persist_scope_snapshot c (snd es) = Inr st2 \<and>
        validated_frontier (cx_session_id c) (fst (fst es)) (snd (fst es)) st2 = Some frontier \<and>
        frontier \<le> observed \<and>
        plan_from h c (fst (fst es)) now active_now uuid frontier observed st2 = Some (st', res))"

lemma plan_executed_or_refused:
  assumes "plan_and_enqueue_windows h c observed strict now active_now uuid st = (st', r)"
  shows "(st' = st \<and> (\<forall>res. r = Inr res \<longrightarrow> \<not> er_accepted res)) \<or>
    plan_executed h c observed now active_now uuid st st'"
  using assms unfolding plan_executed_def plan_and_enqueue_windows_def planning_error_def Let_def
  by (auto simp: enqueue_refused_def split: sum.splits option.splits if_splits)

text \<open>The epoch the plan works in, after the frontier is known.\<close>

record plan_view =
  pv_frontier :: int
  pv_new :: "job list"

definition planned_view ::
  "host \<Rightarrow> window_context \<Rightarrow> int \<Rightarrow> store \<Rightarrow> store \<Rightarrow> plan_view \<Rightarrow> bool" where
  "planned_view h c observed st st' v \<longleftrightarrow>
     (let js = epoch_jobs st (cx_session_id c) (cx_session_epoch c) in
      tiles 0 js \<and> pv_frontier v = tiles_end 0 js \<and> pv_frontier v \<le> observed \<and>
      st_jobs st' = st_jobs st @ pv_new v \<and>
      map (\<lambda>j. (jb_start_seq j, jb_end_seq j)) (pv_new v) =
        plan_ranges (max 2 (cx_window_size c)) (pv_frontier v) observed \<and>
      (\<forall>j \<in> set (pv_new v). planned_job h c (cx_session_epoch c) j \<and>
         (jb_status j = Queued \<longrightarrow> source_intact h st j)))"

lemma plan_executed_view:
  assumes ok: "store_ok st" and plan: "plan_executed h c observed now active_now uuid st st'"
  shows "\<exists>v. planned_view h c observed st st' v"
proof -
  let ?s = "cx_session_id c" and ?e = "cx_session_epoch c"
  let ?es = "ensure_epoch ?s now st"
  obtain st2 f res where p: "?e = fst (fst ?es)" "cx_start_seq c = snd (fst ?es)"
    "persist_scope_snapshot c (snd ?es) = Inr st2"
    "validated_frontier ?s ?e (cx_start_seq c) st2 = Some f" "f \<le> observed"
    "plan_from h c ?e now active_now uuid f observed st2 = Some (st', res)"
    using plan by (auto simp: plan_executed_def Let_def)
  note fr = persist_scope_frame [OF p(3)]
  obtain r where r: "st_epochs (snd ?es) ?s = Some r" "eo_epoch r = ?e" "eo_cursor_seq r = cx_start_seq c"
    using ensure_epoch_row [of ?s now st] p(1,2) by auto
  have ok2: "store_ok st2" by (rule store_ok_cong [OF ensure_epoch_ok [OF ok]]) (simp_all add: fr)
  let ?js = "epoch_jobs st2 ?s ?e"
  have w: "windows_ok (cx_start_seq c) ?js" using store_okD(4) [OF ok2] r fr by metis
  then have t: "tiles 0 ?js" by (simp add: windows_ok_def)
  have fe: "f = tiles_end 0 ?js" using validated_frontier_windows [OF w] p(4) by simp
  have start: "max f (cx_start_seq c) = f" using windows_ok_cursor_le [OF w] fe by simp
  let ?w = "max 2 (cx_window_size c)"
  from p(6) obtain ps d where ps: "plan_windows h c ?e now uuid st2 (plan_ranges ?w f observed)
      \<lparr>ps_jobs = st_jobs st2, ps_queued = 0, ps_duplicates = d, ps_blocked = False\<rparr> = Some ps"
    and st': "st_jobs st' = ps_jobs ps"
    by (auto simp: plan_from_def Let_def start split: option.splits)
  have "\<forall>j \<in> set (st_jobs st2). in_epoch ?s ?e j \<longrightarrow> jb_end_seq j \<le> f"
    using tiles_bounds [OF t] fe by (auto simp: epoch_jobs_def)
  then obtain new where new: "ps_jobs ps = st_jobs st2 @ new"
    "map (\<lambda>j. (jb_start_seq j, jb_end_seq j)) new = plan_ranges ?w f observed"
    "\<forall>j \<in> set new. planned_job h c ?e j \<and> (jb_status j = Queued \<longrightarrow> source_intact h st2 j)"
    using plan_windows_adds [OF ps plan_ranges_covers(1) [OF _ p(5)]] store_okD(1) [OF ok2] by auto
  have "source_intact h st2 j = source_intact h st j" for j
    by (rule source_intact_cong) (simp add: fr)
  moreover have "?js = epoch_jobs st ?s ?e" using fr by (simp add: epoch_jobs_def)
  ultimately show ?thesis
    using t fe p(5) new st' fr
    by (intro exI [of _ "\<lparr>pv_frontier = f, pv_new = new\<rparr>"])
      (simp add: planned_view_def Let_def)
qed

lemma planned_view_tiles:
  assumes "planned_view h c observed st st' v"
  shows "epoch_jobs st' (cx_session_id c) (cx_session_epoch c) =
      epoch_jobs st (cx_session_id c) (cx_session_epoch c) @ pv_new v"
    and "tiles 0 (epoch_jobs st' (cx_session_id c) (cx_session_epoch c))"
    and "observed - 1 \<le> tiles_end 0 (epoch_jobs st' (cx_session_id c) (cx_session_epoch c))"
proof -
  let ?s = "cx_session_id c" and ?e = "cx_session_epoch c" and ?w = "max 2 (cx_window_size c)"
  let ?js = "epoch_jobs st ?s ?e"
  have v: "st_jobs st' = st_jobs st @ pv_new v" "tiles 0 ?js" "pv_frontier v = tiles_end 0 ?js"
    "pv_frontier v \<le> observed"
    "map (\<lambda>j. (jb_start_seq j, jb_end_seq j)) (pv_new v) = plan_ranges ?w (pv_frontier v) observed"
    "\<forall>j \<in> set (pv_new v). in_epoch ?s ?e j"
    using assms by (simp_all add: planned_view_def Let_def planned_job_def)
  show e: "epoch_jobs st' ?s ?e = ?js @ pv_new v"
    using v(1,6) by (simp add: epoch_jobs_def filter_id_conv)
  note cov = plan_ranges_covers [of ?w "pv_frontier v" observed]
  have tn: "tiles (tiles_end 0 ?js) (pv_new v)" "observed - 1 \<le> tiles_end (tiles_end 0 ?js) (pv_new v)"
    using cov(1,2) v(3-5) tiles_of_chain by (metis max.cobounded1)+
  show "tiles 0 (epoch_jobs st' ?s ?e)" "observed - 1 \<le> tiles_end 0 (epoch_jobs st' ?s ?e)"
    using e v(2) tn by (simp_all add: tiles_append tiles_end_append)
qed

lemma plan_accepted_view:
  assumes "store_ok st"
    and "plan_and_enqueue_windows h c observed strict now active_now uuid st = (st', Inr res)"
    and "er_accepted res"
  shows "\<exists>v. planned_view h c observed st st' v"
  using plan_executed_or_refused [OF assms(2)] assms(3) plan_executed_view [OF assms(1)] by blast

lemma plan_covers:
  assumes "store_ok st"
    and "plan_and_enqueue_windows h c observed strict now active_now uuid st = (st', Inr res)"
      "er_accepted res"
    and "0 < n" "n < observed"
  shows "\<exists>j \<in> set (epoch_jobs st' (cx_session_id c) (cx_session_epoch c)).
    jb_start_seq j < n \<and> n \<le> jb_end_seq j"
proof -
  obtain v where v: "planned_view h c observed st st' v" using plan_accepted_view [OF assms(1-3)] ..
  show ?thesis
    by (rule tiles_cover [OF planned_view_tiles(2) [OF v] assms(4)])
      (use planned_view_tiles(3) [OF v] assms(5) in linarith)
qed

text \<open>Planning again adds nothing: the frontier is at most one message away.\<close>

lemma plan_again:
  assumes ok: "store_ok st"
    and plan: "plan_and_enqueue_windows h c observed strict now active_now uuid st = (st', Inr res)"
      "er_accepted res"
  shows "st_jobs (fst (plan_and_enqueue_windows h c observed strict' now' active_now' uuid' st')) = st_jobs st'"
proof -
  obtain st2 r where p2: "plan_and_enqueue_windows h c observed strict' now' active_now' uuid' st' = (st2, r)"
    by (cases "plan_and_enqueue_windows h c observed strict' now' active_now' uuid' st'")
  have ok': "store_ok st'" using plan_and_enqueue_ok [OF ok] plan(1) by (metis fst_conv)
  from plan_executed_or_refused [OF p2] show ?thesis
  proof
    assume "plan_executed h c observed now' active_now' uuid' st' st2"
    then obtain u where u: "planned_view h c observed st' st2 u" using plan_executed_view [OF ok'] by blast
    obtain v where v: "planned_view h c observed st st' v" using plan_accepted_view [OF ok plan] ..
    let ?js = "epoch_jobs st' (cx_session_id c) (cx_session_epoch c)"
    have "pv_frontier u = tiles_end 0 ?js" using u by (simp add: planned_view_def Let_def)
    with planned_view_tiles(3) [OF v]
    have "plan_ranges (max 2 (cx_window_size c)) (pv_frontier u) observed = []"
      by (intro plan_ranges_done) simp_all
    with u p2 show ?thesis by (simp add: planned_view_def Let_def)
  qed (use p2 in simp)
qed

section \<open>Behind the cursor\<close>

text \<open>A boundary separates: a window that ends behind it also starts behind or at it.\<close>

lemma windows_ok_side:
  assumes "windows_ok c js" "j \<in> set js" "c < jb_end_seq j"
  shows "c \<le> jb_start_seq j"
proof -
  from assms(1) have t: "tiles 0 js" "c = 0 \<or> c \<in> jb_end_seq ` set js" by (auto simp: windows_ok_def)
  obtain pre post where p: "js = pre @ post" "tiles c post" "\<forall>j \<in> set pre. jb_end_seq j \<le> c"
    by (rule tiles_split [OF t]) blast
  from assms(2,3) p(1,3) have "j \<in> set post" by auto
  with tiles_bounds [OF p(2)] show ?thesis by blast
qed

text \<open>Every sequence number an epoch covers lies in exactly one of its windows.\<close>

lemma windows_ok_unique:
  assumes "windows_ok c js" "0 < n" "k \<in> set js" "n \<le> jb_end_seq k"
  shows "\<exists>!j. j \<in> set js \<and> jb_start_seq j < n \<and> n \<le> jb_end_seq j"
proof -
  have t: "tiles 0 js" using assms(1) by (simp add: windows_ok_def)
  have "n \<le> tiles_end 0 js" using tiles_bounds [OF t assms(3)] assms(4) by linarith
  then obtain j where j: "j \<in> set js" "jb_start_seq j < n" "n \<le> jb_end_seq j"
    using tiles_cover [OF t assms(2)] by blast
  moreover have "i = j" if "i \<in> set js" "jb_start_seq i < n" "n \<le> jb_end_seq i" for i
    using tiles_disjoint [OF t that(1) j(1)] that(2,3) j(2,3) by linarith
  ultimately show ?thesis by blast
qed

end
