(* ===== verification/Summary_Sources.thy ===== *)
theory Summary_Sources
  imports Summary_System Summary_Coverage
begin

text \<open>
  Reading the source of a claimed window (\<open>read_claimed_window\<close> of \<open>summary_store.py\<close> and the
  validating constructor \<open>SourceWindow\<close> of \<open>summary_models.py\<close>). The main lemma: in every reachable
  state an active window of the current epoch still has all its messages, and they still have the
  digest the window was planned with, so a worker whose claim matches always gets its source.
\<close>

section \<open>The source window\<close>

record source_window =
  sw_session_id :: string
  sw_start_seq :: int
  sw_end_seq :: int
  sw_expected_count :: int
  sw_source_digest :: string
  sw_messages :: "message_row list"
  sw_message_seqs :: "int list"

text \<open>\<open>source_window_digest(messages, seqs)\<close>: the numbers come from the second argument.\<close>

definition window_digest :: "host \<Rightarrow> message_row list \<Rightarrow> int list \<Rightarrow> string" where
  "window_digest h ms seqs = ho_digest h (map2 (\<lambda>m n. m\<lparr>ms_seq := Some n\<rparr>) ms seqs)"

definition make_source_window :: "host \<Rightarrow> source_window \<Rightarrow> source_window result" where
  "make_source_window h w =
     bind_result (text_required ''session_id'' (sw_session_id w)) (\<lambda>sid.
     bind_result (nonnegative_int ''start_seq'' False (sw_start_seq w)) (\<lambda>start.
     bind_result (nonnegative_int ''end_seq'' False (sw_end_seq w)) (\<lambda>stop.
     bind_result (nonnegative_int ''expected_count'' False (sw_expected_count w)) (\<lambda>n.
     bind_result (guard_result (start < stop \<and> n = stop - start)
       (ValueError ''source window range'')) (\<lambda>_.
     bind_result (guard_result (int (length (sw_messages w)) = n \<and> sw_message_seqs w = [start + 1..stop])
       (ValueError ''source window incomplete'')) (\<lambda>_.
     bind_result (guard_result (\<forall>m \<in> set (sw_messages w). ms_session_id m = sid)
       (ValueError ''source window foreign message'')) (\<lambda>_.
     bind_result (text_required ''source_digest'' (sw_source_digest w)) (\<lambda>digest.
     bind_result (guard_result (digest = window_digest h (sw_messages w) (sw_message_seqs w))
       (ValueError ''source window digest'')) (\<lambda>_.
     Inr (w\<lparr>sw_session_id := sid, sw_start_seq := start, sw_end_seq := stop,
            sw_expected_count := n, sw_source_digest := digest\<rparr>))))))))))"

text \<open>\<open>_message\<close> raises on metadata that is no JSON object.\<close>

definition read_claimed_window :: "host \<Rightarrow> claimed_job \<Rightarrow> real \<Rightarrow> store \<Rightarrow> source_window result" where
  "read_claimed_window h c now st =
     (if \<not> st_connected st \<or> \<not> claim_matches c now st then Inl (RuntimeError ''claim_lost'')
      else (let j = cj_job c; rows = source_rows (sj_session_id j) (sj_start_seq j) (sj_end_seq j) st in
        if \<not> (\<forall>m \<in> set rows. is_object (ms_metadata m)) then Inl (ValueError ''source_metadata_invalid'')
        else make_source_window h
          \<lparr>sw_session_id = sj_session_id j, sw_start_seq = sj_start_seq j, sw_end_seq = sj_end_seq j,
           sw_expected_count = sj_expected_count j, sw_source_digest = sj_source_digest j,
           sw_messages = rows, sw_message_seqs = row_seqs rows\<rparr>))"

section \<open>Jobs come from somewhere\<close>

lemma rows_evolve_back:
  assumes ev: "store_evolves st st'" and d: "distinct (map jb_job_id (st_jobs st))"
    "distinct (map jb_job_id (st_jobs st'))" and n: "length (st_jobs st') = length (st_jobs st)"
    and k: "k \<in> set (st_jobs st')"
  shows "\<exists>j \<in> set (st_jobs st). job_evolves j k"
proof -
  let ?ids = "jb_job_id ` set (st_jobs st)" and ?ids' = "jb_job_id ` set (st_jobs st')"
  have fwd: "\<exists>i \<in> set (st_jobs st'). job_evolves j i" if "j \<in> set (st_jobs st)" for j
    using ev that by (simp add: store_evolves_def)
  have sub: "?ids \<subseteq> ?ids'"
  proof
    fix x assume "x \<in> ?ids"
    then obtain j i where "x = jb_job_id j" "i \<in> set (st_jobs st')" "job_evolves j i" using fwd by blast
    then show "x \<in> ?ids'" by (auto simp: job_evolves_def intro: rev_image_eqI)
  qed
  have "card ?ids = length (st_jobs st)" "card ?ids' = length (st_jobs st')"
    using d distinct_card by fastforce+
  with n sub have "?ids = ?ids'" by (simp add: card_subset_eq)
  with k obtain j where j: "j \<in> set (st_jobs st)" "jb_job_id j = jb_job_id k" by (metis imageE imageI)
  obtain i where i: "i \<in> set (st_jobs st')" "job_evolves j i" using fwd [OF j(1)] by blast
  then have "jb_job_id i = jb_job_id k" using j(2) by (simp add: job_evolves_def)
  from key_unique [OF d(2) k i(1) this] i(2) j(1) show ?thesis by blast
qed

lemma current_before:
  assumes ev: "store_evolves st st'" and known: "known_epoch (st_epochs st) j"
    and s: "jb_session_id k = jb_session_id j" "jb_session_epoch k = jb_session_epoch j"
    and cur: "current_job st' k"
  shows "current_job st j"
proof -
  from known obtain r where r: "st_epochs st (jb_session_id j) = Some r" "jb_session_epoch j \<le> eo_epoch r"
    by (auto simp: known_epoch_def)
  then obtain q where q: "st_epochs st' (jb_session_id j) = Some q" "epoch_evolves r q"
    using ev unfolding store_evolves_def by blast
  with cur s have "eo_epoch q = jb_session_epoch j"
    by (auto simp: current_job_def epoch_at_def split: option.splits if_splits)
  with q(2) r show ?thesis by (auto simp: current_job_def epoch_at_def epoch_evolves_def)
qed

section \<open>Sources stay intact\<close>

definition sources_ok :: "host \<Rightarrow> store \<Rightarrow> bool" where
  "sources_ok h st \<longleftrightarrow> (\<forall>j \<in> set (st_jobs st).
     active_status (jb_status j) \<and> current_job st j \<longrightarrow> source_intact h st j)"

lemma sources_keep:
  assumes ok: "store_ok st" and safe: "safe_step st st'"
    and n: "length (st_jobs st') = length (st_jobs st)"
    and keep: "\<And>k. k \<in> set (st_jobs st') \<Longrightarrow> active_status (jb_status k) \<Longrightarrow> current_job st' k \<Longrightarrow>
      source_intact h st k \<Longrightarrow> source_intact h st' k"
    and src: "sources_ok h st"
  shows "sources_ok h st'"
  unfolding sources_ok_def
proof (intro ballI impI)
  fix k assume k: "k \<in> set (st_jobs st')" "active_status (jb_status k) \<and> current_job st' k"
  from ok safe have st': "store_ok st'" "store_evolves st st'" by (simp_all add: safe_step_def)
  obtain j where j: "j \<in> set (st_jobs st)" "job_evolves j k"
    using rows_evolve_back [OF st'(2) store_okD(1) [OF ok] store_okD(1) [OF st'(1)] n k(1)] ..
  have "current_job st j"
    by (rule current_before [OF st'(2) store_okD(3) [OF ok j(1)], of k])
      (use j(2) k(2) in \<open>simp_all add: job_evolves_def\<close>)
  moreover have "active_status (jb_status j)" using j(2) k(2) by (simp add: job_evolves_def claim_evolves_def)
  ultimately have "source_intact h st j" using src j(1) by (simp add: sources_ok_def)
  then have "source_intact h st k" using j(2) by (simp add: source_intact_def job_evolves_def)
  with keep k show "source_intact h st' k" by blast
qed

text \<open>Most operations change no message.\<close>

lemma sources_same:
  assumes "store_ok st" "safe_step st st'" "length (st_jobs st') = length (st_jobs st)"
    and "st_messages st' = st_messages st" "sources_ok h st"
  shows "sources_ok h st'"
  by (rule sources_keep [OF assms(1-3) _ assms(5)]) (simp add: source_intact_cong [OF assms(4)])

section \<open>Only planning adds jobs\<close>

abbreviation same_size :: "store \<Rightarrow> store \<Rightarrow> bool" where
  "same_size st st' \<equiv> length (st_jobs st') = length (st_jobs st)"

lemma checked_update_length: "checked_update ok p f rs = Some rs' \<Longrightarrow> length rs' = length rs"
  by (simp add: checked_update_Some)

lemma claim_one_length: "claim_one cp item cs = Some cs' \<Longrightarrow> length (cs_jobs cs') = length (cs_jobs cs)"
  by (auto simp: claim_one_def Let_def split: if_splits option.splits sum.splits)

lemma claim_loop_length: "claim_loop cp items cs = Some cs' \<Longrightarrow> length (cs_jobs cs') = length (cs_jobs cs)"
proof (induction items arbitrary: cs)
  case (Cons item items)
  then show ?case using claim_one_length by (fastforce split: if_splits option.splits)
qed simp

lemma claim_ready_size: "same_size st (fst (claim_ready json now sch l p ls ord hint g tok st))"
  using claim_loop_length by (fastforce simp: claim_ready_def Let_def split: option.splits)

lemma small_sizes:
  "same_size st (fst (renew_claim c n now st))"
  "same_size st (fst (requeue_claim h c code now st))"
  "same_size st (fst (recover_expired_claims now st))"
  "same_size st (fst (cancel_session_jobs h s e code now st))"
  "same_size st (fst (fail_window h c f now mnow st))"
  "same_size st (fst (trim_if_safe s e k q st))"
  by (auto simp: renew_claim_def requeue_claim_def recover_expired_claims_def cancel_session_jobs_def
      fail_window_def trim_if_safe_def Let_def dest: checked_update_length split: option.splits)

lemma intents_sizes:
  "same_size st (fst (begin_candidate_intents h fresh c is now mnow st))"
  "same_size st (fst (begin_candidate_write h fresh c i now mnow st))"
  by (auto simp: begin_candidate_intents_def begin_candidate_write_def Let_def
      dest: normalize_intents_frame split: option.splits)

lemma bump_epoch_jobs [simp]: "st_jobs (bump_epoch s e now st) = st_jobs st"
  by (simp add: bump_epoch_def split: option.split)

lemma reset_sizes:
  "same_size st (fst (reset_session_epoch h s code now st))"
  "same_size st (fst (clear_session_atomically h s p now st))"
  by (auto simp: reset_session_epoch_def clear_session_atomically_def Let_def
      dest: checked_update_length split: option.splits)

lemma mark_unknown_sizes:
  assumes "same_size st s"
  shows "same_size st (fst (mark_unknown_claim c now r e m st s))"
    "same_size st (fst (mark_unknown_completed c now st s))"
    "same_size st (fst (reconcile_close c job now m st s))"
  using assms by (simp_all add: mark_unknown_claim_def mark_unknown_completed_def reconcile_close_def Let_def)

lemma commit_size: "same_size st (fst (commit_window h fresh c w now mnow mnow2 st))"
proof -
  let ?jid = "sj_job_id (cj_job c)"
  obtain ko st1 where k: "key_intents h fresh ?jid (wo_candidate_slots w) [] st = (ko, st1)"
    by (cases "key_intents h fresh ?jid (wo_candidate_slots w) [] st")
  have fr: "st_jobs st1 = st_jobs st"
    using key_intents_frame [of h fresh ?jid "wo_candidate_slots w" "[]" st] k by simp
  have j: "same_size st (fst (commit_job h c w now target st s))" if "same_size st s" for target s
    using that by (auto simp: commit_job_def Let_def dest: checked_update_length split: option.splits prod.splits)
  show ?thesis
    unfolding commit_window_def Let_def k using fr mark_unknown_sizes(1) j
    by (simp split: option.split bool.split prod.split)
qed

lemma reconcile_size: "same_size st (fst (reconcile_window h fresh c mapping now mnow mnow2 st))"
proof -
  have sub: "same_size st (fst (reconcile_completed h fresh c mapping job rows now st)) \<and>
      same_size st (fst (reconcile_running h fresh c mapping job rows now mnow2 st))" for job rows
  proof -
    obtain r1 s1 where m1: "reconcile_mapping h fresh (sj_job_id (cj_job c)) rows mapping True st = (r1, s1)"
      by (cases "reconcile_mapping h fresh (sj_job_id (cj_job c)) rows mapping True st")
    obtain r2 s2 where m2: "reconcile_mapping h fresh (sj_job_id (cj_job c)) rows mapping False st = (r2, s2)"
      by (cases "reconcile_mapping h fresh (sj_job_id (cj_job c)) rows mapping False st")
    have "st_jobs s1 = st_jobs st" "st_jobs s2 = st_jobs st"
      using reconcile_mapping_frame [OF m1] reconcile_mapping_frame [OF m2] by simp_all
    then show ?thesis
      unfolding reconcile_completed_def reconcile_running_def Let_def m1 m2
      using mark_unknown_sizes by (simp split: option.split prod.split bool.split)
  qed
  show ?thesis
    unfolding reconcile_window_def Let_def using sub by (simp split: option.split)
qed

lemma abandon_size: "same_size st (fst (confirm_abandon_session_jobs s e now st))"
proof -
  have "length (as_jobs (abandon_all s e now jids a)) = length (as_jobs a)" for jids a
    by (induction jids arbitrary: a) (simp_all add: abandon_one_def Let_def)
  then show ?thesis by (simp add: confirm_abandon_session_jobs_def abandon_run_def Let_def)
qed

lemma startup_size: "same_size st (fst (reconcile_startup_candidates l now seen st))"
proof -
  have one: "same_size s (fst (recover_job ev now uj s))" for ev uj s
    by (simp add: recover_job_def close_recovered_def Let_def mark_startup_def forget_uncertain_def
        split: option.split)
  have "same_size s (fst (recover_jobs ev now ujs n s))" for ev ujs n s
    by (induction ujs arbitrary: n s) (simp_all add: Let_def one)
  then show ?thesis by (simp add: reconcile_startup_candidates_def Let_def)
qed

section \<open>The operations that touch messages or add jobs\<close>

lemma source_rows_filter:
  assumes "\<And>m. m \<in> set ms \<Longrightarrow> \<not> p m \<Longrightarrow> \<not> (ms_session_id m = s \<and> seq_in lo hi m)"
    and "st_messages st = ms" "st_messages st' = filter p ms"
  shows "source_rows s lo hi st' = source_rows s lo hi st"
proof -
  have "filter (\<lambda>m. ms_session_id m = s \<and> seq_in lo hi m) (filter p ms) =
      filter (\<lambda>m. ms_session_id m = s \<and> seq_in lo hi m) ms"
    using assms(1) by (induction ms) auto
  then show ?thesis by (simp add: source_rows_def assms(2,3))
qed

lemma source_intact_rows:
  "source_rows (jb_session_id j) (jb_start_seq j) (jb_end_seq j) st' =
     source_rows (jb_session_id j) (jb_start_seq j) (jb_end_seq j) st \<Longrightarrow>
   source_intact h st j \<Longrightarrow> source_intact h st' j"
  by (simp add: source_intact_def)

lemma intact_end_le:
  assumes "source_intact h st j" "jb_start_seq j < jb_end_seq j"
  shows "jb_end_seq j \<le> get_message_seq_end (jb_session_id j) st"
proof -
  let ?rows = "source_rows (jb_session_id j) (jb_start_seq j) (jb_end_seq j) st"
  have "row_seqs ?rows = [jb_start_seq j + 1..jb_end_seq j]"
    using assms(1) by (simp add: source_intact_def window_complete_def Let_def)
  then have "jb_end_seq j \<in> set (row_seqs ?rows)" using assms(2) by simp
  then obtain m where m: "m \<in> set (st_messages st)" "ms_session_id m = jb_session_id j"
    "seq_in (jb_start_seq j) (jb_end_seq j) m" "coalesce 0 (ms_seq m) = jb_end_seq j"
    by (auto simp: row_seqs_def source_rows_def)
  then have "ms_seq m = Some (jb_end_seq j)" by (auto simp: seq_in_def split: option.splits)
  with message_seq_le [OF m(1,2)] show ?thesis by simp
qed

lemma add_message_intact:
  assumes "source_intact h st j"
  shows "source_intact h (add_message mid m st) j"
proof (rule source_intact_rows [OF _ assms])
  let ?lo = "jb_start_seq j" and ?hi = "jb_end_seq j" and ?s = "jb_session_id j"
  let ?new = "m\<lparr>ms_id := mid, ms_seq := Some (get_message_seq_end (ms_session_id m) st + 1)\<rparr>"
  have "\<not> (ms_session_id ?new = ?s \<and> seq_in ?lo ?hi ?new)"
    using intact_end_le [OF assms] by (auto simp: seq_in_def)
  then show "source_rows ?s ?lo ?hi (add_message mid m st) = source_rows ?s ?lo ?hi st"
    by (cases "ms_session_id m = ?s") (simp_all add: source_rows_def add_message_def Let_def)
qed

lemma trim_intact:
  assumes ok: "system_ok st" and k: "k \<in> set (st_jobs st)" "active_status (jb_status k)" "current_job st k"
    and src: "source_intact h st k"
  shows "source_intact h (fst (trim_if_safe s e n q st)) k"
proof (rule source_intact_rows [OF _ src])
  let ?st' = "fst (trim_if_safe s e n q st)" and ?c = "case epoch_at st s e of None \<Rightarrow> 0 | Some r \<Rightarrow> eo_cursor_seq r"
  from ok have st: "store_ok st" "distinct (map ms_id (st_messages st))" by (simp_all add: system_ok_def)
  define p where "p m \<longleftrightarrow> trim_refused s e n q st \<or> ms_id m \<notin> set (trim_ids s ?c n st)" for m :: message_row
  have msgs: "st_messages ?st' = filter p (st_messages st)"
    by (simp add: trim_messages p_def [abs_def])
  obtain r where r: "epoch_at st (jb_session_id k) (jb_session_epoch k) = Some r"
    using k(3) by (auto simp: current_job_def)
  then have "st_epochs st (jb_session_id k) = Some r" "eo_epoch r = jb_session_epoch k"
    by (auto simp: epoch_at_def split: option.splits if_splits)
  from store_okD(4) [OF st(1) this(1)] this(2)
  have "tiles 0 (epoch_jobs st (jb_session_id k) (jb_session_epoch k))" by (simp add: windows_ok_def)
  then have lo: "0 \<le> jb_start_seq k"
    using tiles_bounds k(1) by (fastforce simp: epoch_jobs_def in_epoch_def)
  have "\<not> (ms_session_id m = jb_session_id k \<and> seq_in (jb_start_seq k) (jb_end_seq k) m)"
    if m: "m \<in> set (st_messages st)" "\<not> p m" for m
  proof
    assume b: "ms_session_id m = jb_session_id k \<and> seq_in (jb_start_seq k) (jb_end_seq k) m"
    have "m \<notin> set (st_messages ?st')" using m by (simp add: msgs)
    from trim_deleted [OF st(2) m(1) this] obtain x where d: "\<not> has_trim_blocker None s e st"
      "ms_session_id m = s" "ms_seq m = Some x" "x \<le> ?c" by blast
    have "epoch_at st s e = None"
    proof (rule ccontr)
      assume "epoch_at st s e \<noteq> None"
      with r b d(2) have "jb_session_epoch k = e" by (auto simp: epoch_at_def split: option.splits if_splits)
      with b d(2) k(1) have "k \<in> set (epoch_jobs st s e)" by (simp add: epoch_jobs_def in_epoch_def)
      moreover have "open_status (jb_status k)"
        using k(2) by (auto simp: open_status_def active_status_def)
      ultimately show False using d(1) by (auto simp: has_trim_blocker_def list_ex_iff)
    qed
    with d(3,4) b lo show False by (auto simp: seq_in_def)
  qed
  from source_rows_filter [OF this refl msgs]
  show "source_rows (jb_session_id k) (jb_start_seq k) (jb_end_seq k) ?st' =
      source_rows (jb_session_id k) (jb_start_seq k) (jb_end_seq k) st" by simp
qed

text \<open>Clearing a session deletes its messages, but it also leaves no job of it in the new epoch.\<close>

lemma clear_sources:
  assumes ok: "store_ok st" and src: "sources_ok h st"
  shows "sources_ok h (fst (clear_session_atomically h s p now st))"
proof -
  let ?st' = "fst (clear_session_atomically h s p now st)"
  let ?es = "ensure_epoch s now st"
  have "sources_ok h ?st' \<or> ?st' = st"
  proof (cases "?st' = st")
    case False
    then obtain js where js: "checked_update (job_checks (ho_json h)) (cancel_guard s (fst (fst ?es)))
        (cancel_update REpochFenced now) (st_jobs st) = Some js"
      and st': "\<exists>ss. ?st' = bump_epoch s (fst (fst ?es)) now ((snd ?es)\<lparr>st_jobs := js,
        st_messages := filter (\<lambda>m. ms_session_id m \<noteq> s) (st_messages st), st_sessions := ss\<rparr>)"
      by (auto simp: clear_session_atomically_def Let_def split: option.splits if_splits)
    have ev: "store_evolves st ?st'" "store_ok ?st'"
      using clear_safe [of st h s p now] ok by (simp_all add: safe_step_def)
    have msgs: "st_messages ?st' = filter (\<lambda>m. ms_session_id m \<noteq> s) (st_messages st)" using st' by auto
    have jobs: "st_jobs ?st' = update_where (cancel_guard s (fst (fst ?es))) (cancel_update REpochFenced now) (st_jobs st)"
      using st' js by (auto simp: checked_update_Some)
    show ?thesis
      unfolding sources_ok_def
    proof (intro disjI1 ballI impI)
      fix k assume k: "k \<in> set (st_jobs ?st')" "active_status (jb_status k) \<and> current_job ?st' k"
      from k(1) have j: "k \<in> set (st_jobs st)"
        unfolding jobs by (rule update_where_memE) (use k(2) in \<open>auto simp: cancel_update_def\<close>)
      have cur: "current_job st k"
        by (rule current_before [OF ev(1) store_okD(3) [OF ok j], of k]) (use k(2) in simp_all)
      have "jb_session_id k \<noteq> s"
      proof
        assume s: "jb_session_id k = s"
        with cur obtain r where r: "st_epochs st s = Some r" "eo_epoch r = jb_session_epoch k"
          by (auto simp: current_job_def epoch_at_def split: option.splits if_splits)
        then have "st_epochs ?st' s = Some (r\<lparr>eo_epoch := jb_session_epoch k + 1, eo_cursor_seq := 0,
            eo_pending := None, eo_tombstoned_at := Some now, eo_updated_at := now\<rparr>)"
          using st' by (auto simp: ensure_epoch_def bump_epoch_def epoch_at_def)
        with k(2) s show False by (simp add: current_job_def epoch_at_def)
      qed
      then have "source_rows (jb_session_id k) (jb_start_seq k) (jb_end_seq k) ?st' =
          source_rows (jb_session_id k) (jb_start_seq k) (jb_end_seq k) st"
        by (intro source_rows_filter [OF _ refl msgs]) simp
      moreover have "source_intact h st k" using src j k(2) cur by (simp add: sources_ok_def)
      ultimately show "source_intact h ?st' k" by (rule source_intact_rows)
    qed
  qed simp
  with src show ?thesis by auto
qed

lemma plan_sources:
  assumes ok: "store_ok st" and src: "sources_ok h st"
  shows "sources_ok h (fst (plan_and_enqueue_windows h c observed strict now anow uuid st))"
proof -
  obtain st' r where p: "plan_and_enqueue_windows h c observed strict now anow uuid st = (st', r)"
    by (cases "plan_and_enqueue_windows h c observed strict now anow uuid st")
  have msgs: "st_messages st' = st_messages st"
    using plan_frame [of h c observed strict now anow uuid st] p by simp
  have "st' = st \<or> (\<exists>v. planned_view h c observed st st' v)"
    using plan_executed_or_refused [OF p] plan_executed_view [OF ok] by blast
  then have "sources_ok h st'"
  proof
    assume "\<exists>v. planned_view h c observed st st' v"
    then obtain v where "planned_view h c observed st st' v" ..
    then have v: "st_jobs st' = st_jobs st @ pv_new v" "\<forall>j \<in> set (pv_new v).
        planned_job h c (cx_session_epoch c) j \<and> (jb_status j = Queued \<longrightarrow> source_intact h st j)"
      by (simp_all add: planned_view_def Let_def)
    have ev: "store_evolves st st'"
      using plan_and_enqueue_safe [of st h c observed strict now anow uuid] ok p by (simp add: safe_step_def)
    have "source_intact h st j" if j: "j \<in> set (st_jobs st')" "active_status (jb_status j)" "current_job st' j" for j
    proof (cases "j \<in> set (st_jobs st)")
      case True
      have "current_job st j"
        by (rule current_before [OF ev store_okD(3) [OF ok True], of j]) (use j(3) in simp_all)
      with src True j(2) show ?thesis by (simp add: sources_ok_def)
    next
      case False
      with v j(1) have "jb_status j \<in> {Queued, Blocked}" "jb_status j = Queued \<longrightarrow> source_intact h st j"
        by (auto simp: planned_job_def)
      with j(2) show ?thesis by auto
    qed
    then show ?thesis by (auto simp: sources_ok_def source_intact_cong [OF msgs])
  qed (use src in simp)
  with p show ?thesis by simp
qed

section \<open>Every reachable state\<close>

lemma summary_step_sources:
  assumes step: "summary_step h st st'" and ok: "system_ok st" and src: "sources_ok h st"
  shows "sources_ok h st'"
proof -
  from ok have sok: "store_ok st" by (simp add: system_ok_def)
  have safe: "safe_step st st'" by (rule summary_step_safe [OF step])
  note same = sources_same [OF sok safe _ _ src]
  from step show ?thesis
  proof cases
    case (message mid m)
    show ?thesis
      by (rule sources_keep [OF sok safe _ _ src])
        (auto simp: message add_message_intact, simp add: add_message_def Let_def)
  next
    case plan
    then show ?thesis using plan_sources [OF sok src] by simp
  next
    case (trim s e n q)
    have j: "st_jobs st' = st_jobs st" "st_epochs st' = st_epochs st"
      by (simp_all add: trim trim_if_safe_def Let_def)
    show ?thesis
      by (rule sources_keep [OF sok safe _ _ src])
        (use j trim_intact [OF ok] in \<open>auto simp: trim current_job_def epoch_at_def\<close>)
  next
    case clear
    then show ?thesis using clear_sources [OF sok src] by simp
  qed ((rule same; simp add: claim_ready_size small_sizes intents_sizes reset_sizes commit_size
      reconcile_size abandon_size startup_size fail_frame small_frames reset_frame
      begin_intents_messages intents_messages commit_messages reconcile_messages abandon_messages
      reconcile_startup_frames)+)
qed

lemma reachable_sources: "reachable h st \<Longrightarrow> sources_ok h st"
proof (induction "empty_store" st rule: summary_run.induct)
  case stop
  show ?case by (simp add: sources_ok_def empty_store_def)
next
  case (more st1 st2)
  then show ?case using reachable_system_ok summary_step_sources by blast
qed

section \<open>A matching claim reads its source\<close>

definition claimed_source :: "claimed_job \<Rightarrow> store \<Rightarrow> message_row list" where
  "claimed_source c st = source_rows (sj_session_id (cj_job c)) (sj_start_seq (cj_job c)) (sj_end_seq (cj_job c)) st"

lemma map2_own: "\<forall>x \<in> set xs. f x (g x) = x \<Longrightarrow> map2 f xs (map g xs) = xs"
  by (induction xs) simp_all

lemma source_rows_numbered:
  "map2 (\<lambda>m n. m\<lparr>ms_seq := Some n\<rparr>) (source_rows s lo hi st) (row_seqs (source_rows s lo hi st)) =
     source_rows s lo hi st"
proof -
  have "ms_seq m = Some (coalesce 0 (ms_seq m))" if "m \<in> set (source_rows s lo hi st)" for m
    using that by (auto simp: source_rows_def seq_in_def split: option.splits)
  then have "\<forall>m \<in> set (source_rows s lo hi st). m\<lparr>ms_seq := Some (coalesce 0 (ms_seq m))\<rparr> = m"
    by (metis message_row.surjective message_row.update_convs(11))
  then show ?thesis unfolding row_seqs_def by (rule map2_own)
qed

text \<open>SHA-256 in hexadecimal is a short text without white space.\<close>

definition digest_is_text :: "host \<Rightarrow> bool" where
  "digest_is_text h \<longleftrightarrow> (\<forall>ms. py_strip (ho_digest h ms) = ho_digest h ms \<and> ho_digest h ms \<noteq> [] \<and>
     length (ho_digest h ms) \<le> max_text_length)"

lemma matching_row:
  assumes "claim_matches c now st"
  obtains j where "j \<in> set (st_jobs st)" "current_job st j" "jb_status j = Running"
    "jb_session_id j = sj_session_id (cj_job c)" "jb_start_seq j = sj_start_seq (cj_job c)"
    "jb_end_seq j = sj_end_seq (cj_job c)" "jb_source_digest j = sj_source_digest (cj_job c)"
    "jb_expected_count j = sj_expected_count (cj_job c)" "jb_session_epoch j = sj_session_epoch (cj_job c)"
  using assms by (auto simp: claim_matches_def list_ex_iff fence_row_def claim_fence_def Let_def)

lemma claim_texts:
  assumes "make_job json a = Inr j"
  shows "text_required n (sj_session_id j) = Inr (sj_session_id j)"
    "0 \<le> sj_start_seq j" "0 \<le> sj_end_seq j" "sj_expected_count j = sj_end_seq j - sj_start_seq j"
proof -
  from assms obtain j1 where j1: "job_identity json a = Inr j1" "sj_session_id j = sj_session_id j1"
      "sj_start_seq j = sj_start_seq j1" "sj_end_seq j = sj_end_seq j1"
      "sj_expected_count j = sj_expected_count j1"
    by (auto simp: make_job_def bind_result_Inr)
  then have "text_required ''session_id'' (sj_session_id a) = Inr (sj_session_id j)"
    "0 \<le> sj_start_seq j" "0 \<le> sj_end_seq j" "sj_expected_count j = sj_end_seq j - sj_start_seq j"
    unfolding job_identity_def bind_result_Inr by (auto simp: text_required_Inr)
  then show "text_required n (sj_session_id j) = Inr (sj_session_id j)"
    "0 \<le> sj_start_seq j" "0 \<le> sj_end_seq j" "sj_expected_count j = sj_end_seq j - sj_start_seq j"
    by (auto simp: text_required_Inr)
qed

theorem claimed_window_reads:
  assumes st: "store_ok st" "sources_ok h st" "st_connected st" and h: "digest_is_text h"
    and m: "claim_matches c now st" and dto: "make_job json a = Inr (cj_job c)"
  shows "\<exists>w. read_claimed_window h c now st = Inr w \<and> sw_messages w = claimed_source c st \<and>
    sw_message_seqs w = [sj_start_seq (cj_job c) + 1..sj_end_seq (cj_job c)] \<and>
    sw_source_digest w = ho_digest h (claimed_source c st)"
proof -
  let ?c = "cj_job c" and ?rows = "claimed_source c st"
  obtain j where j: "j \<in> set (st_jobs st)" "current_job st j" "jb_status j = Running"
    "jb_session_id j = sj_session_id ?c" "jb_start_seq j = sj_start_seq ?c" "jb_end_seq j = sj_end_seq ?c"
    "jb_source_digest j = sj_source_digest ?c" "jb_expected_count j = sj_expected_count ?c"
    "jb_session_epoch j = sj_session_epoch ?c"
    by (rule matching_row [OF m])
  have "source_intact h st j" using st(2) j(1-3) by (simp add: sources_ok_def)
  then have rows: "int (length ?rows) = sj_end_seq ?c - sj_start_seq ?c"
    "row_seqs ?rows = [sj_start_seq ?c + 1..sj_end_seq ?c]" "rows_digest h ?rows = Some (sj_source_digest ?c)"
    by (simp_all add: source_intact_def window_complete_def claimed_source_def Let_def j)
  then have doc: "\<forall>m \<in> set ?rows. is_object (ms_metadata m)" and digest: "sj_source_digest ?c = ho_digest h ?rows"
    by (auto simp: rows_digest_def split: if_splits)
  have own: "\<forall>m \<in> set ?rows. ms_session_id m = sj_session_id ?c"
    by (simp add: claimed_source_def source_rows_def)
  from j(2) obtain r where r: "st_epochs st (jb_session_id j) = Some r" "eo_epoch r = jb_session_epoch j"
    by (auto simp: current_job_def epoch_at_def split: option.splits if_splits)
  from store_okD(4) [OF st(1) r(1)] r(2)
  have "tiles 0 (epoch_jobs st (jb_session_id j) (jb_session_epoch j))" by (simp add: windows_ok_def)
  from tiles_bounds [OF this, of j] j(1) have lt: "sj_start_seq ?c < sj_end_seq ?c"
    by (simp add: epoch_jobs_def in_epoch_def j)
  have wd: "window_digest h ?rows (row_seqs ?rows) = ho_digest h ?rows"
    unfolding window_digest_def claimed_source_def by (simp add: source_rows_numbered)
  have t: "text_required ''source_digest'' (ho_digest h ?rows) = Inr (ho_digest h ?rows)"
    using h by (simp add: digest_is_text_def text_required_Inr)
  let ?w = "\<lparr>sw_session_id = sj_session_id ?c, sw_start_seq = sj_start_seq ?c, sw_end_seq = sj_end_seq ?c,
      sw_expected_count = sj_expected_count ?c, sw_source_digest = sj_source_digest ?c,
      sw_messages = ?rows, sw_message_seqs = row_seqs ?rows\<rparr>"
  note texts = claim_texts [OF dto]
  have "make_source_window h ?w = Inr ?w"
    unfolding make_source_window_def bind_result_Inr
    using texts lt rows own digest wd t by simp
  then have "read_claimed_window h c now st = Inr ?w"
    using st(3) m doc by (simp add: read_claimed_window_def Let_def claimed_source_def)
  with rows(2) digest show ?thesis by simp
qed

end
