(* ===== verification/Conversation_Messages.thy ===== *)
theory Conversation_Messages
  imports Summary_Sources "HOL-Library.Multiset"
begin

text \<open>
  The readers and writers of stored messages beside \<open>add_message\<close> (\<open>message_store.py\<close>): the latest
  messages of a session, the display names a sender was stored with, and the update that renames a
  sender. The rename rewrites source rows, so it is no step of the summary store; the last section
  shows what it does to a window that was planned before.
\<close>

section \<open>Reading\<close>

text \<open>\<open>ORDER BY message_seq DESC\<close>; SQLite sorts NULL before every number.\<close>

definition seq_rank :: "message_row \<Rightarrow> int \<times> int" where
  "seq_rank m = (case ms_seq m of None \<Rightarrow> (0, 0) | Some n \<Rightarrow> (1, n))"

definition by_seq_desc :: "message_row list \<Rightarrow> message_row list" where
  "by_seq_desc ms = sort_key (\<lambda>m. (- fst (seq_rank m), - snd (seq_rank m))) ms"

definition session_messages :: "string \<Rightarrow> string option \<Rightarrow> store \<Rightarrow> message_row list" where
  "session_messages s sender st = filter (\<lambda>m. ms_session_id m = s \<and>
     (case sender of None \<Rightarrow> True | Some x \<Rightarrow> x = [] \<or> ms_sender_id m = x)) (st_messages st)"

definition get_messages :: "string \<Rightarrow> int \<Rightarrow> string option \<Rightarrow> store \<Rightarrow> message_row list" where
  "get_messages s limit sender st =
     (if \<not> st_connected st then []
      else (let rows = by_seq_desc (session_messages s sender st)
            in rev (if 0 < limit then take (nat limit) rows else rows)))"

section \<open>Sender names\<close>

text \<open>\<open>_identity_name_scope\<close>: exactly one of the two scopes must be given and not empty.\<close>

definition identity_name_scope :: "string option \<Rightarrow> string option \<Rightarrow> unit result" where
  "identity_name_scope session platform =
     guard_result ((coalesce [] session \<noteq> []) \<noteq> (coalesce [] platform \<noteq> [])) (ValueError ''scope'')"

definition sender_row :: "string \<Rightarrow> string option \<Rightarrow> string option \<Rightarrow> message_row \<Rightarrow> bool" where
  "sender_row sender session platform m \<longleftrightarrow> ms_role m = ''user'' \<and> ms_sender_id m = sender \<and>
     ((case session of None \<Rightarrow> False | Some s \<Rightarrow> ms_session_id m = s) \<or>
      (case platform of None \<Rightarrow> False | Some p \<Rightarrow> ms_platform m = Some p \<and> ms_group_id m = None))"

definition find_user_sender_names ::
  "string \<Rightarrow> string option \<Rightarrow> string option \<Rightarrow> store \<Rightarrow> string list result" where
  "find_user_sender_names sender session platform st =
     (if \<not> st_connected st then Inl (RuntimeError ''not initialised'')
      else bind_result (identity_name_scope session platform) (\<lambda>_.
        Inr (remdups (filter (\<lambda>n. n \<noteq> []) (List.map_filter ms_sender_name
          (filter (sender_row sender session platform) (st_messages st)))))))"

definition rename_row :: "string \<Rightarrow> string \<Rightarrow> string option \<Rightarrow> string option \<Rightarrow> message_row \<Rightarrow> bool" where
  "rename_row sender name session platform m \<longleftrightarrow>
     sender_row sender session platform m \<and> ms_sender_name m \<noteq> Some name"

definition update_user_sender_name ::
  "string \<Rightarrow> string \<Rightarrow> string option \<Rightarrow> string option \<Rightarrow> store \<Rightarrow> store \<times> string list result" where
  "update_user_sender_name sender name session platform st =
     (if \<not> st_connected st then (st, Inl (RuntimeError ''not initialised''))
      else if name = [] then (st, Inl (ValueError ''sender_name''))
      else (case identity_name_scope session platform of
          Inl e \<Rightarrow> (st, Inl e)
        | Inr _ \<Rightarrow>
            (st\<lparr>st_messages := update_where (rename_row sender name session platform)
                  (\<lambda>m. m\<lparr>ms_sender_name := Some name\<rparr>) (st_messages st)\<rparr>,
             Inr (remdups (map ms_session_id
               (filter (rename_row sender name session platform) (st_messages st)))))))"

section \<open>Numbers are unique\<close>

text \<open>
  Every message gets a number that no message of its session has; a trim or a clear only removes
  messages. So the numbers of a session stay distinct and grow in the order of arrival.
\<close>

definition numbered :: "message_row list \<Rightarrow> bool" where
  "numbered ms \<longleftrightarrow> (\<forall>m \<in> set ms. ms_seq m \<noteq> None) \<and>
     (\<forall>s. sorted_wrt (<) (row_seqs (filter (\<lambda>m. ms_session_id m = s) ms)))"

lemma numbered_filter:
  assumes "numbered ms"
  shows "numbered (filter p ms)"
proof -
  have "sorted_wrt (<) (row_seqs (filter (\<lambda>m. ms_session_id m = s) (filter p ms)))" for s
  proof -
    have "sorted_wrt (\<lambda>x y. coalesce 0 (ms_seq x) < coalesce 0 (ms_seq y)) (filter (\<lambda>m. ms_session_id m = s) ms)"
      using assms by (simp add: numbered_def row_seqs_def sorted_wrt_map)
    from sorted_wrt_filter [OF this, of p] show ?thesis
      by (simp add: row_seqs_def sorted_wrt_map filter_filter conj_commute)
  qed
  with assms show ?thesis by (simp add: numbered_def)
qed

lemma numbered_add:
  assumes "numbered (st_messages st)"
  shows "numbered (st_messages (add_message mid m st))"
proof -
  let ?new = "m\<lparr>ms_id := mid, ms_seq := Some (get_message_seq_end (ms_session_id m) st + 1)\<rparr>"
  have le: "coalesce 0 (ms_seq x) < get_message_seq_end (ms_session_id m) st + 1"
    if "x \<in> set (st_messages st)" "ms_session_id x = ms_session_id m" for x
    using message_seq_le [OF that] assms that(1) by (auto simp: numbered_def)
  have "sorted_wrt (<) (row_seqs (filter (\<lambda>x. ms_session_id x = s) (st_messages st @ [?new])))" for s
    using assms le by (auto simp: numbered_def row_seqs_def sorted_wrt_append)
  then show ?thesis using assms by (simp add: add_message_def Let_def numbered_def)
qed

lemma summary_step_numbered:
  "summary_step h st st' \<Longrightarrow> numbered (st_messages st) \<Longrightarrow> numbered (st_messages st')"
proof (induction rule: summary_step.induct)
  case (message mid st m)
  then show ?case by (intro numbered_add)
next
  case (clear st s p now)
  then show ?case using clear_messages [of h s p now st] numbered_filter by metis
next
  case (trim st s e n q)
  then show ?case by (simp add: trim_messages numbered_filter)
qed (simp_all add: plan_frame fail_frame small_frames reset_frame begin_intents_messages
      intents_messages commit_messages reconcile_messages abandon_messages reconcile_startup_frames)

lemma reachable_numbered: "reachable h st \<Longrightarrow> numbered (st_messages st)"
proof (induction "empty_store" st rule: summary_run.induct)
  case stop
  show ?case by (simp add: numbered_def empty_store_def row_seqs_def)
next
  case (more st1 st2)
  then show ?case by (blast intro: summary_step_numbered)
qed

lemma numbered_desc:
  assumes "numbered ms"
  shows "by_seq_desc (filter (\<lambda>m. ms_session_id m = s \<and> p m) ms) = rev (filter (\<lambda>m. ms_session_id m = s \<and> p m) ms)"
proof -
  let ?f = "\<lambda>m. (- fst (seq_rank m), - snd (seq_rank m))" and ?ms = "filter (\<lambda>m. ms_session_id m = s \<and> p m) ms"
  have split: "?ms = filter p (filter (\<lambda>m. ms_session_id m = s) ms)" by (simp add: conj_commute)
  have some: "\<forall>m \<in> set ?ms. ?f m = (-1, - coalesce 0 (ms_seq m))"
    using assms by (auto simp: numbered_def seq_rank_def)
  have "sorted_wrt (\<lambda>x y. coalesce 0 (ms_seq x) < coalesce 0 (ms_seq y)) (filter (\<lambda>m. ms_session_id m = s) ms)"
    using assms by (simp add: numbered_def row_seqs_def sorted_wrt_map)
  from sorted_wrt_filter [OF this, of p]
  have asc: "sorted_wrt (\<lambda>x y. coalesce 0 (ms_seq x) < coalesce 0 (ms_seq y)) ?ms" unfolding split .
  have "sorted_wrt (\<lambda>x y. ?f x < ?f y) (rev ?ms)"
    unfolding sorted_wrt_rev
  proof (rule sorted_wrt_mono_rel [OF _ asc])
    fix x y assume "x \<in> set ?ms" "y \<in> set ?ms" "coalesce 0 (ms_seq x) < coalesce 0 (ms_seq y)"
    with some show "?f y < ?f x" by (metis less_prod_simp neg_less_iff_less order_refl)
  qed
  then have desc: "sorted_wrt (<) (map ?f (rev ?ms))" by (simp add: sorted_wrt_map)
  have "distinct (map ?f (rev ?ms))" using desc unfolding strict_sorted_iff by (rule conjunct2)
  then have "inj_on ?f (set ?ms)" unfolding distinct_map by simp
  from sort_key_inj_key_eq [OF _ this, of "rev ?ms"] desc show ?thesis
    by (simp add: by_seq_desc_def strict_sorted_iff)
qed

lemma get_messages_latest:
  assumes "numbered (st_messages st)" "st_connected st"
  shows "get_messages s limit sender st =
    (let ms = session_messages s sender st
     in if 0 < limit then drop (length ms - nat limit) ms else ms)"
proof -
  have "by_seq_desc (session_messages s sender st) = rev (session_messages s sender st)"
    unfolding session_messages_def by (rule numbered_desc [OF assms(1)])
  then show ?thesis
    using assms(2) by (simp add: get_messages_def Let_def take_rev)
qed

section \<open>Renaming a sender\<close>

definition renamed :: "string \<Rightarrow> string \<Rightarrow> string option \<Rightarrow> string option \<Rightarrow> message_row \<Rightarrow> message_row" where
  "renamed sender name session platform m =
     (if rename_row sender name session platform m then m\<lparr>ms_sender_name := Some name\<rparr> else m)"

lemma renamed_frame [simp]:
  "ms_id (renamed x n s p m) = ms_id m" "ms_session_id (renamed x n s p m) = ms_session_id m"
  "ms_seq (renamed x n s p m) = ms_seq m" "ms_metadata (renamed x n s p m) = ms_metadata m"
  "ms_content (renamed x n s p m) = ms_content m"
  by (simp_all add: renamed_def)

lemma sort_key_map: "sort_key f (map g xs) = map g (sort_key (f \<circ> g) xs)"
proof -
  have "insort_key f (g x) (map g ys) = map g (insort_key (f \<circ> g) x ys)" for x ys
    by (induction ys) simp_all
  then show ?thesis by (induction xs) simp_all
qed

lemma rename_source_rows:
  assumes "snd (update_user_sender_name x n s p st) = Inr changed"
  shows "source_rows sid lo hi (fst (update_user_sender_name x n s p st)) =
    map (renamed x n s p) (source_rows sid lo hi st)"
proof -
  let ?q = "\<lambda>m. ms_session_id m = sid \<and> seq_in lo hi m"
  have m: "st_messages (fst (update_user_sender_name x n s p st)) = map (renamed x n s p) (st_messages st)"
    using assms
    by (auto simp: update_user_sender_name_def renamed_def update_where_def split: if_splits sum.splits)
  have "?q \<circ> renamed x n s p = ?q" by (auto simp: seq_in_def)
  moreover have "(\<lambda>m. coalesce 0 (ms_seq m)) \<circ> renamed x n s p = (\<lambda>m. coalesce 0 (ms_seq m))" by auto
  ultimately show ?thesis by (simp add: source_rows_def m filter_map sort_key_map)
qed

lemma rename_frame:
  "st_jobs (fst (update_user_sender_name x n s p st)) = st_jobs st"
  "st_epochs (fst (update_user_sender_name x n s p st)) = st_epochs st"
  "st_connected (fst (update_user_sender_name x n s p st)) = st_connected st"
  by (simp_all add: update_user_sender_name_def split: sum.split)

text \<open>The claim still matches, but its source no longer has the digest of the plan.\<close>

lemma rename_breaks_read:
  assumes st: "store_ok st" "sources_ok h st" "st_connected st" and h: "digest_is_text h"
    and m: "claim_matches c now st" and dto: "make_job json a = Inr (cj_job c)"
    and ren: "update_user_sender_name x n s p st = (st', Inr changed)"
    and other: "ho_digest h (claimed_source c st') \<noteq> ho_digest h (claimed_source c st)"
  shows "claim_matches c now st' \<and> read_claimed_window h c now st' = Inl (ValueError ''source window digest'')"
proof -
  let ?c = "cj_job c" and ?rows = "claimed_source c st'"
  have fr: "st_jobs st' = st_jobs st" "st_epochs st' = st_epochs st" "st_connected st' = st_connected st"
    using rename_frame [of x n s p st] ren by simp_all
  have match: "claim_matches c now st'" using m claim_matches_frame [OF fr(1,2)] by simp
  have rows: "?rows = map (renamed x n s p) (claimed_source c st)"
    using rename_source_rows [of x n s p st changed] ren by (simp add: claimed_source_def)
  obtain w where w: "read_claimed_window h c now st = Inr w" "sw_messages w = claimed_source c st"
    "sw_message_seqs w = [sj_start_seq ?c + 1..sj_end_seq ?c]" "sw_source_digest w = ho_digest h (claimed_source c st)"
    using claimed_window_reads [OF st h m dto] by blast
  have ok: "\<forall>m \<in> set (claimed_source c st). is_object (ms_metadata m)"
    using w(1) by (auto simp: read_claimed_window_def Let_def claimed_source_def split: if_splits)
  let ?w = "\<lambda>r. \<lparr>sw_session_id = sj_session_id ?c, sw_start_seq = sj_start_seq ?c, sw_end_seq = sj_end_seq ?c,
      sw_expected_count = sj_expected_count ?c, sw_source_digest = sj_source_digest ?c,
      sw_messages = r, sw_message_seqs = row_seqs r\<rparr>"
  have make: "make_source_window h (?w (claimed_source c st)) = Inr w"
    using w(1) ok st(3) m by (simp add: read_claimed_window_def Let_def claimed_source_def)
  then have good: "text_required ''session_id'' (sj_session_id ?c) = Inr (sj_session_id ?c)" "0 \<le> sj_start_seq ?c"
    "0 \<le> sj_end_seq ?c" "sj_expected_count ?c = sj_end_seq ?c - sj_start_seq ?c" "sj_start_seq ?c < sj_end_seq ?c"
    "int (length (claimed_source c st)) = sj_expected_count ?c"
    "row_seqs (claimed_source c st) = [sj_start_seq ?c + 1..sj_end_seq ?c]"
    "text_required ''source_digest'' (sj_source_digest ?c) = Inr (sw_source_digest w)"
    using claim_texts [OF dto] by (auto simp: make_source_window_def bind_result_Inr)
  have seqs: "row_seqs ?rows = row_seqs (claimed_source c st)" by (simp add: rows row_seqs_def)
  have wd: "window_digest h ?rows (row_seqs ?rows) = ho_digest h ?rows"
    unfolding window_digest_def claimed_source_def by (simp add: source_rows_numbered)
  have own: "\<forall>m \<in> set ?rows. ms_session_id m = sj_session_id ?c"
    by (simp add: claimed_source_def source_rows_def)
  have nn: "nonnegative_int name False k = Inr k" if "0 \<le> k" for name k
    using that by (simp add: nonnegative_int_def)
  have "0 \<le> sj_expected_count ?c" using good(4,5) by simp
  note nn3 = nn [OF good(2)] nn [OF good(3)] nn [OF this]
  have "make_source_window h (?w ?rows) = Inl (ValueError ''source window digest'')"
    unfolding make_source_window_def
    by (simp add: nn3 good(1) guard_result_def)
      (use good(4-8) seqs own wd other w(4) in \<open>simp add: rows\<close>)
  moreover have "\<forall>m \<in> set ?rows. is_object (ms_metadata m)" using ok by (simp add: rows)
  ultimately have "read_claimed_window h c now st' = Inl (ValueError ''source window digest'')"
    using match fr(3) st(3) by (simp add: read_claimed_window_def Let_def claimed_source_def)
  with match show ?thesis by simp
qed

end
