(* ===== verification/Source_Properties.thy ===== *)
theory Source_Properties
  imports Recovery_Properties Conversation_Messages
begin

text \<open>
  What a worker can rely on when it reads the messages of its window, stated over the runs of the
  store, and the one writer of messages that breaks it.
\<close>






lemma sc_claimed_messages: "st_messages sc_claimed = [sc_message 1, sc_message 2]"
  by (simp add: sc_claimed_def sc_planned_def sc_filled_tables)




text \<open>
  C31: the numbers of a session's messages are distinct and grow in the order of arrival, in every
  reachable state; no message is without a number.
\<close>

theorem messages_are_numbered_in_order:
  assumes "reachable h st"
  shows "(\<forall>m \<in> set (st_messages st). ms_seq m \<noteq> None) \<and>
    sorted_wrt (<) (row_seqs (filter (\<lambda>m. ms_session_id m = s) (st_messages st)))"
  using reachable_numbered [OF assms] by (simp add: numbered_def)

theorem messages_are_numbered_in_order_witness:
  "sorted_wrt (<) (row_seqs (filter (\<lambda>m. ms_session_id m = ''s'') [sc_message 1, sc_message 2]))"
  using messages_are_numbered_in_order [OF sc_reach_claimed, of "''s''"] by (simp add: sc_claimed_messages)

text \<open>
  Reading the messages of a session gives the latest ones, at most as many as asked for, oldest
  first; a limit that is not positive gives all.
\<close>

theorem get_messages_returns_latest:
  assumes "reachable h st" and "st_connected st"
  shows "get_messages s limit None st =
    (let ms = filter (\<lambda>m. ms_session_id m = s) (st_messages st)
     in if 0 < limit then drop (length ms - nat limit) ms else ms)"
  using get_messages_latest [OF reachable_numbered [OF assms(1)] assms(2), of s limit None]
  by (simp add: session_messages_def)

theorem get_messages_returns_latest_witness: "get_messages ''s'' 1 None sc_claimed = [sc_message 2]"
  using get_messages_returns_latest [OF sc_reach_claimed, of "''s''" 1]
  by (simp add: sc_claimed_tables sc_claimed_messages) (simp add: sc_message_def)

end
