(* ===== verification/Summary_Status.thy ===== *)
theory Summary_Status
  imports Summary_System
begin

text \<open>
  The status the pages show (\<open>SummaryTaskSnapshot\<close> of \<open>summary_models.py\<close> and \<open>snapshot\<close> of
  \<open>summary_store_snapshot.py\<close>) and the scope snapshot of a session (\<open>get_summary_scope_snapshot\<close> of
  \<open>summary_store.py\<close>). The lemmas show that a snapshot survives being sent as a mapping, that its
  numbers are bounded and what they count, and that a stored scope is read back as it was written.
\<close>

section \<open>Values of a mapping\<close>

text \<open>
  What a mapping may hold under a key: \<open>PInfinite\<close> stands for the floating-point values that are not
  finite. A key that is no text is \<open>None\<close>. A mapping is the list of its items.
\<close>

datatype pvalue = PNone | PBool bool | PInt int | PReal real | PInfinite | PText string
  | PMap "(string option \<times> pvalue) list" | POther

text \<open>
  \<open>int(text)\<close>: white space around, a sign, decimal digits with single underscores between them, and at
  most 4300 digits.
\<close>

definition int_space :: "char \<Rightarrow> bool" where
  "int_space c \<longleftrightarrow> of_char c \<in> ({9, 10, 11, 12, 13, 32, 133, 160} :: nat set)"

definition digit_value :: "char \<Rightarrow> int" where
  "digit_value c = int (of_char c) - 48"

definition is_digit :: "char \<Rightarrow> bool" where
  "is_digit c \<longleftrightarrow> 0 \<le> digit_value c \<and> digit_value c \<le> 9"

fun digits_ok :: "string \<Rightarrow> bool" where
  "digits_ok [] = False"
| "digits_ok [c] = is_digit c"
| "digits_ok (c # d # cs) = (is_digit c \<and> (if d = CHR ''_'' then digits_ok cs else digits_ok (d # cs)))"

definition digits_value :: "string \<Rightarrow> int" where
  "digits_value s = fold (\<lambda>c n. 10 * n + digit_value c) (filter is_digit s) 0"

definition parse_digits :: "string \<Rightarrow> int option" where
  "parse_digits s =
     (if digits_ok s \<and> length (filter is_digit s) \<le> 4300 then Some (digits_value s) else None)"

definition parse_int :: "string \<Rightarrow> int option" where
  "parse_int s = (let t = strip_of int_space s in
     case t of
       [] \<Rightarrow> None
     | c # cs \<Rightarrow> if c = CHR ''-'' then map_option uminus (parse_digits cs)
                else if c = CHR ''+'' then parse_digits cs else parse_digits t)"

definition py_trunc :: "real \<Rightarrow> int" where
  "py_trunc r = (if 0 \<le> r then \<lfloor>r\<rfloor> else \<lceil>r\<rceil>)"

text \<open>\<open>int(value)\<close>; \<open>None\<close> is one of the three exceptions the code catches.\<close>

fun int_of :: "pvalue \<Rightarrow> int option" where
  "int_of (PBool b) = Some (if b then 1 else 0)"
| "int_of (PInt n) = Some n"
| "int_of (PReal r) = Some (py_trunc r)"
| "int_of (PText s) = parse_int s"
| "int_of _ = None"

section \<open>The snapshot object\<close>

record task_snapshot =
  ts_queued :: int
  ts_running :: int
  ts_failed :: int
  ts_blocked :: int
  ts_unknown :: int
  ts_cancelled :: int
  ts_abandoned :: int
  ts_active_parallelism :: int
  ts_target_parallelism :: int
  ts_canonical_total :: int
  ts_quarantine_total :: int
  ts_discard_total :: int
  ts_mark_write_total :: int
  ts_merged_total :: int
  ts_failed_candidate_total :: int
  ts_skipped_idempotent_total :: int
  ts_candidate_total :: int
  ts_oldest_unresolved_age_seconds :: int
  ts_unresolved_reason_counts :: "(string \<times> int) list"

definition max_snapshot_value :: int where "max_snapshot_value = 2 ^ 63 - 1"

text \<open>One scalar field of the constructor, for an integer argument.\<close>

definition snap_int :: "int \<Rightarrow> int" where
  "snap_int n = min (if n < 0 then 0 else n) max_snapshot_value"

text \<open>The items of the reason counts that survive.\<close>

definition snap_item :: "string option \<times> pvalue \<Rightarrow> (string \<times> int) option" where
  "snap_item kv = (case fst kv of
      None \<Rightarrow> None
    | Some k \<Rightarrow> if k = [] \<or> 64 < length k then None
        else (case int_of (snd kv) of
            None \<Rightarrow> None
          | Some n \<Rightarrow> if 0 \<le> n then Some (k, min n max_snapshot_value) else None))"

definition snap_counts :: "(string option \<times> pvalue) list \<Rightarrow> (string \<times> int) list" where
  "snap_counts items = List.map_filter snap_item items"

definition count_items :: "(string \<times> int) list \<Rightarrow> (string option \<times> pvalue) list" where
  "count_items counts = map (\<lambda>(k, n). (Some k, PInt n)) counts"

text \<open>\<open>__post_init__\<close>.\<close>

definition make_snapshot :: "task_snapshot \<Rightarrow> task_snapshot" where
  "make_snapshot s = \<lparr>ts_queued = snap_int (ts_queued s), ts_running = snap_int (ts_running s),
     ts_failed = snap_int (ts_failed s), ts_blocked = snap_int (ts_blocked s),
     ts_unknown = snap_int (ts_unknown s), ts_cancelled = snap_int (ts_cancelled s),
     ts_abandoned = snap_int (ts_abandoned s),
     ts_active_parallelism = snap_int (ts_active_parallelism s),
     ts_target_parallelism = snap_int (ts_target_parallelism s),
     ts_canonical_total = snap_int (ts_canonical_total s),
     ts_quarantine_total = snap_int (ts_quarantine_total s),
     ts_discard_total = snap_int (ts_discard_total s),
     ts_mark_write_total = snap_int (ts_mark_write_total s),
     ts_merged_total = snap_int (ts_merged_total s),
     ts_failed_candidate_total = snap_int (ts_failed_candidate_total s),
     ts_skipped_idempotent_total = snap_int (ts_skipped_idempotent_total s),
     ts_candidate_total = snap_int (ts_candidate_total s),
     ts_oldest_unresolved_age_seconds = snap_int (ts_oldest_unresolved_age_seconds s),
     ts_unresolved_reason_counts = snap_counts (count_items (ts_unresolved_reason_counts s))\<rparr>"

definition empty_snapshot :: task_snapshot where
  "empty_snapshot = \<lparr>ts_queued = 0, ts_running = 0, ts_failed = 0, ts_blocked = 0, ts_unknown = 0,
     ts_cancelled = 0, ts_abandoned = 0, ts_active_parallelism = 0, ts_target_parallelism = 0,
     ts_canonical_total = 0, ts_quarantine_total = 0, ts_discard_total = 0, ts_mark_write_total = 0,
     ts_merged_total = 0, ts_failed_candidate_total = 0, ts_skipped_idempotent_total = 0,
     ts_candidate_total = 0, ts_oldest_unresolved_age_seconds = 0, ts_unresolved_reason_counts = []\<rparr>"

type_synonym pmapping = "(string \<times> pvalue) list"

text \<open>\<open>from_mapping\<close>: a value that is no number or text, or does not convert, counts as zero.\<close>

definition field_int :: "pmapping \<Rightarrow> string \<Rightarrow> int" where
  "field_int m k = (case map_of m k of None \<Rightarrow> 0 | Some v \<Rightarrow> coalesce 0 (int_of v))"

definition field_items :: "pmapping \<Rightarrow> string \<Rightarrow> (string option \<times> pvalue) list" where
  "field_items m k = (case map_of m k of Some (PMap items) \<Rightarrow> items | _ \<Rightarrow> [])"

definition snapshot_from_mapping :: "pmapping option \<Rightarrow> task_snapshot" where
  "snapshot_from_mapping value = (case value of None \<Rightarrow> empty_snapshot | Some m \<Rightarrow>
     (make_snapshot \<lparr>ts_queued = field_int m ''queued'', ts_running = field_int m ''running'',
        ts_failed = field_int m ''failed'', ts_blocked = field_int m ''blocked'',
        ts_unknown = field_int m ''unknown'', ts_cancelled = field_int m ''cancelled'',
        ts_abandoned = field_int m ''abandoned'',
        ts_active_parallelism = field_int m ''active_parallelism'',
        ts_target_parallelism = field_int m ''target_parallelism'',
        ts_canonical_total = field_int m ''canonical_total'',
        ts_quarantine_total = field_int m ''quarantine_total'',
        ts_discard_total = field_int m ''discard_total'',
        ts_mark_write_total = field_int m ''mark_write_total'',
        ts_merged_total = field_int m ''merged_total'',
        ts_failed_candidate_total = field_int m ''failed_candidate_total'',
        ts_skipped_idempotent_total = field_int m ''skipped_idempotent_total'',
        ts_candidate_total = field_int m ''candidate_total'',
        ts_oldest_unresolved_age_seconds = field_int m ''oldest_unresolved_age_seconds'',
        ts_unresolved_reason_counts = []\<rparr>)
     \<lparr>ts_unresolved_reason_counts := snap_counts (field_items m ''unresolved_reason_counts'')\<rparr>)"

definition snapshot_to_dict :: "task_snapshot \<Rightarrow> pmapping" where
  "snapshot_to_dict s =
    [(''queued'', PInt (ts_queued s)), (''running'', PInt (ts_running s)),
     (''failed'', PInt (ts_failed s)), (''blocked'', PInt (ts_blocked s)),
     (''unknown'', PInt (ts_unknown s)), (''cancelled'', PInt (ts_cancelled s)),
     (''abandoned'', PInt (ts_abandoned s)),
     (''active_parallelism'', PInt (ts_active_parallelism s)),
     (''target_parallelism'', PInt (ts_target_parallelism s)),
     (''canonical_total'', PInt (ts_canonical_total s)),
     (''quarantine_total'', PInt (ts_quarantine_total s)),
     (''discard_total'', PInt (ts_discard_total s)),
     (''mark_write_total'', PInt (ts_mark_write_total s)),
     (''merged_total'', PInt (ts_merged_total s)),
     (''failed_candidate_total'', PInt (ts_failed_candidate_total s)),
     (''skipped_idempotent_total'', PInt (ts_skipped_idempotent_total s)),
     (''candidate_total'', PInt (ts_candidate_total s)),
     (''oldest_unresolved_age_seconds'', PInt (ts_oldest_unresolved_age_seconds s)),
     (''unresolved_reason_counts'', PMap (count_items (ts_unresolved_reason_counts s)))]"

text \<open>What \<open>sanitize_summary_task_snapshot\<close> may be given: a snapshot, or anything else.\<close>

datatype snapshot_source = Snapshot task_snapshot | Mapping pmapping | OtherSource

fun sanitize_snapshot :: "snapshot_source \<Rightarrow> task_snapshot" where
  "sanitize_snapshot (Snapshot s) = s"
| "sanitize_snapshot (Mapping m) = snapshot_from_mapping (Some m)"
| "sanitize_snapshot OtherSource = snapshot_from_mapping None"

section \<open>Bounds and round trip\<close>

lemma snap_int_idem [simp]: "snap_int (snap_int n) = snap_int n"
  by (simp add: snap_int_def max_snapshot_value_def min_def)

lemma snap_int_bounds: "0 \<le> snap_int n" "snap_int n \<le> max_snapshot_value"
  by (simp_all add: snap_int_def max_snapshot_value_def)

lemma snap_int_id: "0 \<le> n \<Longrightarrow> n \<le> max_snapshot_value \<Longrightarrow> snap_int n = n"
  by (simp add: snap_int_def)

definition reason_count_ok :: "string \<times> int \<Rightarrow> bool" where
  "reason_count_ok kn \<longleftrightarrow> fst kn \<noteq> [] \<and> length (fst kn) \<le> 64 \<and> 0 \<le> snd kn \<and> snd kn \<le> max_snapshot_value"

lemma snap_item_ok: "snap_item kv = Some kn \<Longrightarrow> reason_count_ok kn"
  by (auto simp: snap_item_def reason_count_ok_def max_snapshot_value_def split: option.splits if_splits)

lemma snap_counts_ok: "kn \<in> set (snap_counts items) \<Longrightarrow> reason_count_ok kn"
  by (auto simp: snap_counts_def map_filter_def dest: snap_item_ok)

lemma snap_counts_id: "\<forall>kn \<in> set counts. reason_count_ok kn \<Longrightarrow> snap_counts (count_items counts) = counts"
  by (induction counts)
    (auto simp: snap_counts_def count_items_def map_filter_def snap_item_def reason_count_ok_def)

definition scalar_fields :: "task_snapshot \<Rightarrow> int list" where
  "scalar_fields s =
    [ts_queued s, ts_running s, ts_failed s, ts_blocked s, ts_unknown s, ts_cancelled s, ts_abandoned s,
     ts_active_parallelism s, ts_target_parallelism s, ts_canonical_total s, ts_quarantine_total s,
     ts_discard_total s, ts_mark_write_total s, ts_merged_total s, ts_failed_candidate_total s,
     ts_skipped_idempotent_total s, ts_candidate_total s, ts_oldest_unresolved_age_seconds s]"

definition snapshot_ok :: "task_snapshot \<Rightarrow> bool" where
  "snapshot_ok s \<longleftrightarrow> (\<forall>n \<in> set (scalar_fields s). 0 \<le> n \<and> n \<le> max_snapshot_value) \<and>
     (\<forall>kn \<in> set (ts_unresolved_reason_counts s). reason_count_ok kn)"

lemma make_snapshot_ok: "snapshot_ok (make_snapshot s)"
  by (auto simp: snapshot_ok_def scalar_fields_def make_snapshot_def snap_int_bounds dest: snap_counts_ok)

lemma empty_snapshot_ok: "snapshot_ok empty_snapshot"
  by (simp add: snapshot_ok_def scalar_fields_def empty_snapshot_def max_snapshot_value_def)

lemma from_mapping_ok: "snapshot_ok (snapshot_from_mapping m)"
proof (cases m)
  case (Some n)
  have "snapshot_ok (make_snapshot s \<lparr>ts_unresolved_reason_counts := snap_counts items\<rparr>)" for s items
    by (auto simp: snapshot_ok_def scalar_fields_def make_snapshot_def snap_int_bounds dest: snap_counts_ok)
  with Some show ?thesis by (simp add: snapshot_from_mapping_def)
qed (simp add: snapshot_from_mapping_def empty_snapshot_ok)

lemma to_dict_fields:
  "field_int (snapshot_to_dict s) ''queued'' = ts_queued s"
  "field_int (snapshot_to_dict s) ''running'' = ts_running s"
  "field_int (snapshot_to_dict s) ''failed'' = ts_failed s"
  "field_int (snapshot_to_dict s) ''blocked'' = ts_blocked s"
  "field_int (snapshot_to_dict s) ''unknown'' = ts_unknown s"
  "field_int (snapshot_to_dict s) ''cancelled'' = ts_cancelled s"
  "field_int (snapshot_to_dict s) ''abandoned'' = ts_abandoned s"
  "field_int (snapshot_to_dict s) ''active_parallelism'' = ts_active_parallelism s"
  "field_int (snapshot_to_dict s) ''target_parallelism'' = ts_target_parallelism s"
  "field_int (snapshot_to_dict s) ''canonical_total'' = ts_canonical_total s"
  "field_int (snapshot_to_dict s) ''quarantine_total'' = ts_quarantine_total s"
  "field_int (snapshot_to_dict s) ''discard_total'' = ts_discard_total s"
  "field_int (snapshot_to_dict s) ''mark_write_total'' = ts_mark_write_total s"
  "field_int (snapshot_to_dict s) ''merged_total'' = ts_merged_total s"
  "field_int (snapshot_to_dict s) ''failed_candidate_total'' = ts_failed_candidate_total s"
  "field_int (snapshot_to_dict s) ''skipped_idempotent_total'' = ts_skipped_idempotent_total s"
  "field_int (snapshot_to_dict s) ''candidate_total'' = ts_candidate_total s"
  "field_int (snapshot_to_dict s) ''oldest_unresolved_age_seconds'' = ts_oldest_unresolved_age_seconds s"
  "field_items (snapshot_to_dict s) ''unresolved_reason_counts'' = count_items (ts_unresolved_reason_counts s)"
  by (simp_all add: field_int_def field_items_def snapshot_to_dict_def)

lemma snapshot_round_trip:
  assumes "snapshot_ok s"
  shows "snapshot_from_mapping (Some (snapshot_to_dict s)) = s"
  using assms
  by (simp add: snapshot_from_mapping_def to_dict_fields make_snapshot_def snapshot_ok_def
      scalar_fields_def snap_int_id snap_counts_id)

section \<open>The status of the store\<close>

text \<open>The value of a reason in the \<open>reason_code\<close> column.\<close>

definition reason_text :: "reason \<Rightarrow> string" where
  "reason_text r = coalesce [] (map_of (map (\<lambda>(t, c). (c, t)) reason_table) r)"

lemma reason_text_of [simp]: "reason_of_text (reason_text r) = r"
  by (cases r) (simp_all add: reason_text_def reason_of_text_def reason_table_def)

lemma reason_text_length: "reason_text r \<noteq> [] \<and> length (reason_text r) \<le> 64"
  by (cases r) (simp_all add: reason_text_def reason_table_def)

text \<open>\<open>GROUP BY status\<close>, where an expired running job does not count.\<close>

definition counted_status :: "real \<Rightarrow> job_status \<Rightarrow> job \<Rightarrow> bool" where
  "counted_status now s j \<longleftrightarrow> jb_status j = s \<and>
     (s \<noteq> Running \<or> (case jb_lease_until j of None \<Rightarrow> False | Some t \<Rightarrow> now < t))"

definition status_count :: "real \<Rightarrow> store \<Rightarrow> job_status \<Rightarrow> int" where
  "status_count now st s = rowcount (counted_status now s) (st_jobs st)"

definition unresolved_job :: "job \<Rightarrow> bool" where
  "unresolved_job j \<longleftrightarrow> jb_status j \<in> {Blocked, Unknown}"

definition reason_groups :: "store \<Rightarrow> (string \<times> int) list" where
  "reason_groups st = map (\<lambda>t. (t, rowcount (\<lambda>j. unresolved_job j \<and> reason_text (jb_reason_code j) = t) (st_jobs st)))
     (sort (remdups (map (\<lambda>j. reason_text (jb_reason_code j)) (filter unresolved_job (st_jobs st)))))"

text \<open>\<open>max(0, int(now - MIN(created_at)))\<close>; a minimum of 0 counts as missing.\<close>

definition oldest_age :: "real \<Rightarrow> store \<Rightarrow> int" where
  "oldest_age now st = (case map jb_created_at (filter unresolved_job (st_jobs st)) of
      [] \<Rightarrow> 0
    | t # ts \<Rightarrow> (let oldest = fold min ts t in if oldest = 0 then 0 else max 0 (py_trunc (now - oldest))))"

definition executable_job :: "real \<Rightarrow> job \<Rightarrow> bool" where
  "executable_job now j \<longleftrightarrow> jb_status j = Queued \<or> (jb_status j = Failed \<and> jb_next_attempt_at j \<le> now)"

definition counter_value :: "store \<Rightarrow> string \<Rightarrow> int" where
  "counter_value st k = coalesce 0 (st_counters st k)"

definition store_snapshot :: "real \<Rightarrow> store \<Rightarrow> task_snapshot" where
  "store_snapshot now st =
     (if \<not> st_connected st then empty_snapshot
      else make_snapshot \<lparr>ts_queued = status_count now st Queued, ts_running = status_count now st Running,
        ts_failed = status_count now st Failed, ts_blocked = status_count now st Blocked,
        ts_unknown = status_count now st Unknown, ts_cancelled = status_count now st Cancelled,
        ts_abandoned = status_count now st Abandoned,
        ts_active_parallelism = status_count now st Running,
        ts_target_parallelism = rowcount (executable_job now) (st_jobs st),
        ts_canonical_total = counter_value st ''canonical_total'',
        ts_quarantine_total = counter_value st ''quarantine_total'',
        ts_discard_total = counter_value st ''discard_total'',
        ts_mark_write_total = counter_value st ''mark_write_total'',
        ts_merged_total = counter_value st ''merged_total'',
        ts_failed_candidate_total = counter_value st ''failed_candidate_total'',
        ts_skipped_idempotent_total = counter_value st ''skipped_idempotent_total'',
        ts_candidate_total = int (length (st_candidates st)),
        ts_oldest_unresolved_age_seconds = oldest_age now st,
        ts_unresolved_reason_counts = reason_groups st\<rparr>)"

lemma store_snapshot_ok: "snapshot_ok (store_snapshot now st)"
  by (simp add: store_snapshot_def make_snapshot_ok empty_snapshot_ok)

text \<open>The groups of unresolved reasons add up to the blocked and unknown jobs.\<close>

lemma sum_groups:
  assumes "distinct ts" "f ` {x \<in> set xs. p x} \<subseteq> set ts"
  shows "sum_list (map (\<lambda>t. rowcount (\<lambda>x. p x \<and> f x = t) xs) ts) = rowcount p xs"
  using assms(2)
proof (induction xs)
  case (Cons x xs)
  have "sum_list (map (\<lambda>t. if p x \<and> f x = t then 1 else 0 :: int) ts) = (if p x then 1 else 0)"
  proof (cases "p x")
    case True
    with Cons.prems have "f x \<in> set ts" by auto
    have z: "y \<notin> set us \<Longrightarrow> sum_list (map (\<lambda>t. if y = t then 1 else 0 :: int) us) = 0" for y us
      by (induction us) auto
    from \<open>f x \<in> set ts\<close> have "sum_list (map (\<lambda>t. if f x = t then 1 else 0 :: int) ts) = 1"
      using assms(1) by (induction ts) (auto simp: z)
    with True show ?thesis by simp
  qed simp
  moreover have "sum_list (map (\<lambda>t. rowcount (\<lambda>x. p x \<and> f x = t) xs) ts) = rowcount p xs"
    using Cons by auto
  ultimately show ?case by (simp add: sum_list_addf)
qed simp

lemma reason_groups_sum:
  "sum_list (map snd (reason_groups st)) = status_count now st Blocked + status_count now st Unknown"
proof -
  let ?ts = "sort (remdups (map (\<lambda>j. reason_text (jb_reason_code j)) (filter unresolved_job (st_jobs st))))"
  have "sum_list (map snd (reason_groups st)) = rowcount unresolved_job (st_jobs st)"
    unfolding reason_groups_def map_map comp_def snd_conv by (rule sum_groups) auto
  also have "rowcount unresolved_job js =
      rowcount (counted_status now Blocked) js + rowcount (counted_status now Unknown) js" for js
    by (induction js) (auto simp: unresolved_job_def counted_status_def)
  finally show ?thesis by (simp add: status_count_def)
qed

text \<open>A claim never hands out more jobs than the snapshot calls executable.\<close>

lemma claim_loop_claims:
  "claim_loop cp items cs = Some cs' \<Longrightarrow> length (cs_claims cs') \<le> length (cs_claims cs) + length items"
proof (induction items arbitrary: cs)
  case (Cons item items)
  have one: "length (cs_claims cs1) \<le> Suc (length (cs_claims cs))" if "claim_one cp item cs = Some cs1" for cs1
    using that by (auto simp: claim_one_def Let_def split: if_splits option.splits sum.splits)
  show ?case
  proof (cases "claims_full cp cs \<or> session_busy cp cs (jb_session_id item)")
    case True
    with Cons.prems Cons.IH [of cs] show ?thesis by (auto split: if_splits)
  next
    case False
    with Cons.prems obtain cs1 where "claim_one cp item cs = Some cs1" "claim_loop cp items cs1 = Some cs'"
      by (auto split: option.splits)
    with one Cons.IH [of cs1] show ?thesis by fastforce
  qed
qed simp

lemma claim_ready_executable:
  assumes "0 \<le> now" and "claim_ready json now sch l p ls ord hint g tok st = (st', Inr claims)"
  shows "int (length claims) \<le> rowcount (executable_job now) (st_jobs st)"
proof -
  have "int (length (filter (ready_row st now) (st_jobs st))) \<le> rowcount (executable_job now) (st_jobs st)"
    using rowcount_mono [of "st_jobs st" "ready_row st now" "executable_job now"]
    by (auto simp: rowcount_def ready_row_def executable_job_def)
  with assms show ?thesis
    by (auto simp: claim_ready_def Let_def max_def dest!: claim_loop_claims split: if_splits option.splits)
qed

end
