(* ===== verification/Summary_Scope.thy ===== *)
theory Summary_Scope
  imports Summary_Sources
begin

text \<open>
  The scope snapshot of a session and the planning at startup (\<open>get_summary_scope_snapshot\<close> and
  \<open>plan_existing_frontiers\<close> of \<open>summary_store.py\<close>). The lemmas show that validated contexts are fixed
  points of their constructor, that a scope a plan has stored is read back, and that planning at
  startup leaves no stored message of any session outside the windows.
\<close>

section \<open>Validated contexts\<close>

lemma none_if_empty_strip [simp]: "none_if_empty (py_strip (coalesce [] (none_if_empty (py_strip s)))) =
    none_if_empty (py_strip s)"
  by (simp add: none_if_empty_def)

definition context_texts_ok :: "window_context \<Rightarrow> bool" where
  "context_texts_ok c \<longleftrightarrow>
     py_strip (cx_session_id c) = cx_session_id c \<and> cx_session_id c \<noteq> [] \<and>
     py_strip (cx_scope_key c) = cx_scope_key c \<and>
     py_strip (cx_resolver_revision c) = cx_resolver_revision c \<and>
     py_strip (coalesce [] (cx_privacy_level c)) = coalesce [] (cx_privacy_level c) \<and>
     py_strip (coalesce [] (cx_chat_type c)) = coalesce [] (cx_chat_type c) \<and>
     py_strip (coalesce [] (cx_scope_id c)) = coalesce [] (cx_scope_id c) \<and>
     (cx_scope_provenance_complete c = Some True \<longrightarrow>
        scope_all (cx_scope_key c) (cx_privacy_level c) (cx_resolver_revision c) \<and> cx_chat_type c \<noteq> None)"

lemma scope_fields_texts:
  assumes "scope_fields chat k p rv r marker = Inr sv"
  shows "py_strip (sv_scope_key sv) = sv_scope_key sv" "py_strip (sv_resolver_revision sv) = sv_resolver_revision sv"
    "py_strip (coalesce [] (sv_privacy_level sv)) = coalesce [] (sv_privacy_level sv)"
    "sv_marker sv = Some True \<Longrightarrow>
       scope_all (sv_scope_key sv) (sv_privacy_level sv) (sv_resolver_revision sv) \<and> chat \<noteq> None"
  using assms unfolding scope_fields_def bind_result_Inr
  by (auto simp: text_or_empty_Inr text_field_optional_Inr scope_marker_def Let_def split: if_splits)

lemma make_context_texts:
  assumes "make_context json c0 = Inr c"
  shows "context_texts_ok c"
proof -
  obtain chat sv where sv: "scope_fields chat (cx_scope_key c0) (cx_privacy_level c0)
      (cx_resolver_revision c0) (cx_scope_reason_code c0) (cx_scope_provenance_complete c0) = Inr sv"
    and c: "cx_scope_key c = sv_scope_key sv" "cx_privacy_level c = sv_privacy_level sv"
      "cx_resolver_revision c = sv_resolver_revision sv" "cx_scope_provenance_complete c = sv_marker sv"
      "cx_chat_type c = chat"
    and t: "text_required ''session_id'' (cx_session_id c0) = Inr (cx_session_id c)"
      "text_field ''chat_type'' True (cx_chat_type c0) = Inr chat"
      "text_field ''scope_id'' True (cx_scope_id c0) = Inr (cx_scope_id c)"
    using assms unfolding make_context_def bind_result_Inr by (auto split: prod.splits simp: bind_result_Inr)
  with scope_fields_texts [OF sv] show ?thesis
    by (auto simp: context_texts_ok_def text_required_Inr text_field_optional_Inr)
qed

text \<open>The rows planned from a validated context are normal, so a claim on them matches.\<close>

lemma window_job_normal:
  assumes "context_texts_ok c" "py_strip uuid = uuid" "py_strip digest = digest"
  shows "row_normal (window_job c epoch now uuid lo hi digest status r)"
  using assms
  by (auto simp: row_normal_def window_job_def context_texts_ok_def context_scope_available_def
      scope_all_def none_if_empty_def)

lemma reason_texts:
  "text_required n ''scope_resolved'' = Inr ''scope_resolved''"
  "text_required n ''scope_unavailable'' = Inr ''scope_unavailable''"
  by (simp_all add: text_required_Inr py_strip_def strip_of_def py_space_def max_text_length_def)

lemma scope_marker_again:
  "sv = scope_marker chat k p rv r m \<Longrightarrow>
     scope_marker chat (sv_scope_key sv) (sv_privacy_level sv) (sv_resolver_revision sv) (sv_reason sv) (sv_marker sv) = sv \<and>
     sv_scope_key sv = k \<and> sv_privacy_level sv = p \<and> sv_resolver_revision sv = rv \<and>
     sv_reason sv \<in> {''scope_resolved'', ''scope_unavailable''}"
  by (cases "m = Some False"; cases "scope_all k p rv \<and> chat \<noteq> None";
      cases "r \<in> {''scope_resolved'', ''scope_unavailable''}")
    (simp_all add: scope_marker_def Let_def)

lemma scope_fields_again:
  assumes "scope_fields chat k p rv r marker = Inr sv"
  shows "scope_fields chat (sv_scope_key sv) (sv_privacy_level sv) (sv_resolver_revision sv)
    (sv_reason sv) (sv_marker sv) = Inr sv"
proof -
  from assms obtain key priv rev rt where t: "text_or_empty ''scope_key'' (Some k) = Inr key"
    "text_field ''privacy_level'' True p = Inr priv" "text_or_empty ''resolver_revision'' (Some rv) = Inr rev"
    and g: "\<not> (scope_any key priv rev \<and> (\<not> scope_all key priv rev \<or> chat = None))"
    "priv = None \<or> coalesce [] priv \<in> set privacy_levels"
    and sv: "sv = scope_marker chat key priv rev rt marker"
    unfolding scope_fields_def bind_result_Inr by auto
  note a = scope_marker_again [OF sv]
  have "text_or_empty ''scope_key'' (Some key) = Inr key" "text_field ''privacy_level'' True priv = Inr priv"
    "text_or_empty ''resolver_revision'' (Some rev) = Inr rev"
    using t by (auto simp: text_or_empty_Inr text_field_optional_Inr)
  moreover have "\<exists>t. text_required ''scope_reason_code'' (sv_reason sv) = Inr t \<and> t = sv_reason sv"
    using a reason_texts by auto
  ultimately show ?thesis
    unfolding scope_fields_def bind_result_Inr using a g by auto
qed

text \<open>A context that the constructor accepted is accepted again, unchanged.\<close>

lemma context_range_again: "context_range s e0 n0 = Inr (e, n) \<Longrightarrow> 0 \<le> s \<Longrightarrow> context_range s e n = Inr (e, n)"
  by (auto simp: context_range_def Let_def split: if_splits)

lemma make_context_again:
  assumes "make_context json c0 = Inr c"
  shows "make_context json c = Inr c"
proof -
  from assms obtain stop expected sv where
    t: "text_required ''session_id'' (cx_session_id c0) = Inr (cx_session_id c)"
      "text_or_empty ''source_digest'' (Some (cx_source_digest c0)) = Inr (cx_source_digest c)"
      "text_required ''triggered_by'' (cx_triggered_by c0) = Inr (cx_triggered_by c)"
      "text_or_empty ''gate_revision'' (Some (cx_gate_revision c0)) = Inr (cx_gate_revision c)"
      "text_field ''persona_id'' True (cx_persona_id c0) = Inr (cx_persona_id c)"
      "text_field ''chat_type'' True (cx_chat_type c0) = Inr (cx_chat_type c)"
      "text_field ''group_id'' True (cx_group_id c0) = Inr (cx_group_id c)"
      "text_field ''scope_id'' True (cx_scope_id c0) = Inr (cx_scope_id c)"
      "text_or_empty ''scope_subject_id'' (Some (cx_scope_subject_id c0)) = Inr (cx_scope_subject_id c)"
    and n: "0 < cx_session_epoch c" "0 \<le> cx_start_seq c" "2 \<le> cx_window_size c" "0 \<le> cx_end_seq c0"
      "0 \<le> cx_expected_count c0"
    and rng: "context_range (cx_start_seq c) (cx_end_seq c0) (cx_expected_count c0) =
      Inr (cx_end_seq c, cx_expected_count c)"
    and chat: "context_chat_ok (cx_chat_type c) (cx_group_id c)"
    and gate: "bounded_json_object json (cx_gate_snapshot_json c) ''gate_snapshot_json'' = Inr (cx_gate_snapshot_json c)"
    and sv: "scope_fields (cx_chat_type c) (cx_scope_key c0) (cx_privacy_level c0)
      (cx_resolver_revision c0) (cx_scope_reason_code c0) (cx_scope_provenance_complete c0) = Inr sv"
      "cx_scope_key c = sv_scope_key sv" "cx_privacy_level c = sv_privacy_level sv"
      "cx_resolver_revision c = sv_resolver_revision sv" "cx_scope_reason_code c = sv_reason sv"
      "cx_scope_provenance_complete c = sv_marker sv"
    unfolding make_context_def bind_result_Inr
    by (auto split: prod.splits simp: bind_result_Inr bounded_json_object_Inr)
  have u: "text_required ''session_id'' (cx_session_id c) = Inr (cx_session_id c)"
      "text_or_empty ''source_digest'' (Some (cx_source_digest c)) = Inr (cx_source_digest c)"
      "text_required ''triggered_by'' (cx_triggered_by c) = Inr (cx_triggered_by c)"
      "text_or_empty ''gate_revision'' (Some (cx_gate_revision c)) = Inr (cx_gate_revision c)"
      "text_field ''persona_id'' True (cx_persona_id c) = Inr (cx_persona_id c)"
      "text_field ''chat_type'' True (cx_chat_type c) = Inr (cx_chat_type c)"
      "text_field ''group_id'' True (cx_group_id c) = Inr (cx_group_id c)"
      "text_field ''scope_id'' True (cx_scope_id c) = Inr (cx_scope_id c)"
      "text_or_empty ''scope_subject_id'' (Some (cx_scope_subject_id c)) = Inr (cx_scope_subject_id c)"
    using t by (auto simp: text_or_empty_Inr text_field_optional_Inr text_required_Inr)
  have pos: "0 \<le> cx_end_seq c" "0 \<le> cx_expected_count c"
    using rng n by (auto simp: context_range_def Let_def split: if_splits)
  note r = context_range_again [OF rng n(2)] and s = scope_fields_again [OF sv(1)]
  have num: "nonnegative_int name False k = Inr k" if "0 \<le> k" for name k
    using that by (simp add: nonnegative_int_def)
  have num': "nonnegative_int name True k = Inr k" if "0 < k" for name k
    using that by (simp add: nonnegative_int_def)
  show ?thesis
    using num' [OF n(1)] num [OF n(2)] num [OF pos(1)] num [OF pos(2)] num' [of "cx_window_size c"] n(3)
    by (simp add: make_context_def u r s gate chat sv guard_result_def del: nonnegative_int_Inr)
qed

section \<open>Reading the scope snapshot\<close>

record scope_snapshot =
  sn_scope_key :: string
  sn_chat_type :: string
  sn_privacy_level :: string
  sn_resolver_revision :: string
  sn_scope_id :: string

definition filled :: "string option \<Rightarrow> bool" where
  "filled x \<longleftrightarrow> py_strip (coalesce [] x) \<noteq> []"

definition make_scope_snapshot ::
  "string option \<Rightarrow> string option \<Rightarrow> string option \<Rightarrow> string option \<Rightarrow> string option \<Rightarrow>
   scope_snapshot option" where
  "make_scope_snapshot key chat priv rv sid =
     (if filled key \<and> filled chat \<and> filled priv \<and> filled rv \<and> filled sid
      then Some \<lparr>sn_scope_key = coalesce [] key, sn_chat_type = coalesce [] chat,
        sn_privacy_level = coalesce [] priv, sn_resolver_revision = coalesce [] rv,
        sn_scope_id = coalesce [] sid\<rparr>
      else None)"

definition json_text :: "jvalue \<Rightarrow> string option" where
  "json_text v = (case v of JString s \<Rightarrow> Some s | _ \<Rightarrow> None)"

definition metadata_scope :: "(string \<Rightarrow> jvalue option) \<Rightarrow> scope_snapshot option" where
  "metadata_scope m =
     (if doc_get m ''scope_provenance_complete'' \<noteq> JBool True then None
      else (let text = (\<lambda>k. json_text (doc_get m k)); subject = text ''scope_subject_id''
            in make_scope_snapshot (text ''scope_key'') (text ''chat_type'') (text ''privacy_level'')
                 (text ''resolver_revision'') (if filled subject then subject else text ''scope_id'')))"

text \<open>\<open>ORDER BY updated_at DESC,created_at DESC LIMIT 1\<close> over the jobs of the session.\<close>

definition job_scope_snapshot :: "string \<Rightarrow> store \<Rightarrow> scope_snapshot option" where
  "job_scope_snapshot s st =
     (case first_row (sort_key (\<lambda>j. (- jb_updated_at j, - jb_created_at j))
             (filter (\<lambda>j. jb_session_id j = s) (st_jobs st))) of
        None \<Rightarrow> None
      | Some j \<Rightarrow> if \<not> jb_scope_complete j then None
          else make_scope_snapshot (jb_scope_key j) (jb_chat_type j) (jb_privacy_level j)
                 (jb_resolver_revision j) (jb_scope_id j))"

text \<open>Metadata that does not decode is an exception, which the code answers with no snapshot.\<close>

definition get_summary_scope_snapshot :: "string \<Rightarrow> store \<Rightarrow> scope_snapshot option" where
  "get_summary_scope_snapshot s st =
     (if \<not> st_connected st then None
      else case st_sessions st s of
        None \<Rightarrow> job_scope_snapshot s st
      | Some row \<Rightarrow> (case se_metadata row of
            Undecodable \<Rightarrow> None
          | NotObject \<Rightarrow> job_scope_snapshot s st
          | Doc m \<Rightarrow> (case metadata_scope m of
                Some x \<Rightarrow> Some x
              | None \<Rightarrow> job_scope_snapshot s st)))"

text \<open>A scope that a plan has stored is read back; a subject that was stored before stays.\<close>

lemma stored_scope_read_back:
  assumes c: "context_texts_ok c" "context_scope_available c" and sid: "filled (cx_scope_id c)"
    and row: "st_sessions st (cx_session_id c) = Some row" and conn: "st_connected st"
    and persist: "persist_scope_snapshot c st = Inr st'"
    and later: "st_sessions st2 = st_sessions st'" "st_connected st2"
  shows "\<exists>x. get_summary_scope_snapshot (cx_session_id c) st2 = Some x \<and>
    sn_scope_key x = cx_scope_key c \<and> sn_chat_type x = coalesce [] (cx_chat_type c) \<and>
    sn_privacy_level x = coalesce [] (cx_privacy_level c) \<and>
    sn_resolver_revision x = cx_resolver_revision c \<and>
    (py_strip (cx_scope_subject_id c) \<noteq> [] \<longrightarrow> sn_scope_id x = py_strip (cx_scope_subject_id c))"
proof -
  obtain m where m: "se_metadata row = Doc m"
    using persist c(2) row conn by (auto simp: persist_scope_snapshot_def split: doc.splits)
  let ?m = "(m ++ map_of (snapshot_values c))(''scope_provenance_complete'' \<mapsto> JBool True)"
  have st': "st_sessions st2 = (st_sessions st)(cx_session_id c \<mapsto> row\<lparr>se_metadata := Doc ?m\<rparr>)"
    using persist c(2) row conn m later(1) by (auto simp: persist_scope_snapshot_def split: if_splits)
  have av: "cx_scope_key c \<noteq> []" "coalesce [] (cx_chat_type c) \<noteq> []" "coalesce [] (cx_privacy_level c) \<noteq> []"
    "cx_resolver_revision c \<noteq> []"
    using c(2) by (simp_all add: context_scope_available_def)
  then obtain chat priv where o: "cx_chat_type c = Some chat" "cx_privacy_level c = Some priv"
    by (cases "cx_chat_type c"; cases "cx_privacy_level c") auto
  obtain scope where sc: "cx_scope_id c = Some scope" using sid by (cases "cx_scope_id c") (auto simp: filled_def)
  let ?sub = "py_strip (cx_scope_subject_id c)"
  have g: "doc_get ?m ''scope_key'' = JString (cx_scope_key c)" "doc_get ?m ''chat_type'' = JString chat"
    "doc_get ?m ''privacy_level'' = JString priv" "doc_get ?m ''resolver_revision'' = JString (cx_resolver_revision c)"
    "doc_get ?m ''scope_id'' = JString scope" "doc_get ?m ''scope_provenance_complete'' = JBool True"
    "?sub \<noteq> [] \<Longrightarrow> doc_get ?m ''scope_subject_id'' = JString ?sub"
    by (simp_all add: doc_get_def snapshot_values_def jopt_def o sc)
  have f: "filled (Some (cx_scope_key c))" "filled (Some chat)" "filled (Some priv)"
    "filled (Some (cx_resolver_revision c))" "filled (Some scope)"
    using c(1) av o sc sid by (simp_all add: filled_def context_texts_ok_def)
  let ?id = "if filled (json_text (doc_get ?m ''scope_subject_id'')) then json_text (doc_get ?m ''scope_subject_id'') else Some scope"
  have fid: "filled ?id" using f(5) by simp
  have sub: "?sub \<noteq> [] \<Longrightarrow> ?id = Some ?sub" using g(7) by (simp add: json_text_def filled_def)
  have "metadata_scope ?m = make_scope_snapshot (Some (cx_scope_key c)) (Some chat) (Some priv)
      (Some (cx_resolver_revision c)) ?id"
    unfolding metadata_scope_def Let_def g(1-6) by (simp add: json_text_def [of "JString x" for x])
  also have "\<dots> = Some \<lparr>sn_scope_key = cx_scope_key c, sn_chat_type = chat, sn_privacy_level = priv,
      sn_resolver_revision = cx_resolver_revision c, sn_scope_id = coalesce [] ?id\<rparr>"
    unfolding make_scope_snapshot_def using f fid by simp
  finally have "get_summary_scope_snapshot (cx_session_id c) st2 =
      Some \<lparr>sn_scope_key = cx_scope_key c, sn_chat_type = chat, sn_privacy_level = priv,
      sn_resolver_revision = cx_resolver_revision c, sn_scope_id = coalesce [] ?id\<rparr>"
    using later(2) by (simp add: get_summary_scope_snapshot_def st' del: fun_upd_apply) simp
  then show ?thesis using o by (cases "?sub = []") (simp_all add: sub del: fun_upd_apply)
qed

section \<open>Planning at startup\<close>

text \<open>
  \<open>plan_existing_frontiers\<close>: \<open>ids\<close> are the session identifiers the query returned, \<open>factory\<close> the callback
  that builds a context (\<open>Inl\<close> an exception, \<open>Inr None\<close> an object of another class), \<open>clock\<close> and \<open>uuid\<close>
  what the plan of a session reads. Every plan is a transaction of its own, so an error keeps the
  plans made before it.
\<close>

type_synonym context_factory = "string \<Rightarrow> int \<Rightarrow> int \<Rightarrow> window_context option result"

definition invalid_context :: py_error where
  "invalid_context = RuntimeError ''summary_startup_context_invalid''"

fun plan_frontiers ::
  "host \<Rightarrow> context_factory \<Rightarrow> (string \<Rightarrow> real \<times> real) \<Rightarrow> (string \<Rightarrow> int \<Rightarrow> int \<Rightarrow> string) \<Rightarrow>
   string list \<Rightarrow> int \<Rightarrow> store \<Rightarrow> store \<times> int result" where
  "plan_frontiers h factory clock uuid [] queued st = (st, Inr queued)"
| "plan_frontiers h factory clock uuid (s # ids) queued st =
     (let (epoch, cursor) = get_summary_epoch s st in
      case factory s epoch cursor of
        Inl e \<Rightarrow> (st, Inl e)
      | Inr None \<Rightarrow> (st, Inl invalid_context)
      | Inr (Some c) \<Rightarrow>
          if cx_session_id c \<noteq> s \<or> cx_session_epoch c \<noteq> epoch \<or> cx_start_seq c \<noteq> cursor \<or> cx_end_seq c \<noteq> cursor
          then (st, Inl invalid_context)
          else (case plan_and_enqueue_windows h c (get_message_seq_end s st) True (fst (clock s))
                  (snd (clock s)) (uuid s) st of
                  (st1, Inl e) \<Rightarrow> (st1, Inl e)
                | (st1, Inr r) \<Rightarrow> plan_frontiers h factory clock uuid ids (queued + er_queued r) st1))"

definition plan_existing_frontiers ::
  "host \<Rightarrow> context_factory \<Rightarrow> (string \<Rightarrow> real \<times> real) \<Rightarrow> (string \<Rightarrow> int \<Rightarrow> int \<Rightarrow> string) \<Rightarrow>
   string list \<Rightarrow> store \<Rightarrow> store \<times> int result" where
  "plan_existing_frontiers h factory clock uuid ids st =
     (if \<not> st_connected st then (st, Inl (RuntimeError ''summary_recovery_failed''))
      else plan_frontiers h factory clock uuid ids 0 st)"

lemma max_message_seq_nonneg: "0 \<le> max_message_seq s ms"
  unfolding max_message_seq_def using fold_max_ge by blast

lemma message_seq_end_nonneg: "0 \<le> get_message_seq_end s st"
  using max_message_seq_nonneg [of s "st_messages st"] by (simp add: get_message_seq_end_def)

text \<open>A strict plan that answers was executed, unless it was triggered by hand.\<close>

lemma strict_plan_executed:
  assumes "plan_and_enqueue_windows h c observed True now anow uuid st = (st', Inr r)"
    and "0 \<le> observed" "st_connected st" "cx_triggered_by c \<noteq> ''manual''"
    and "get_summary_epoch (cx_session_id c) st = (cx_session_epoch c, cx_start_seq c)"
  shows "plan_executed h c observed now anow uuid st st'"
  using assms ensure_epoch_get [of "cx_session_id c" now st]
  unfolding plan_executed_def plan_and_enqueue_windows_def planning_error_def Let_def manual_blocker_def
  by (auto split: sum.splits option.splits if_splits)

text \<open>A plan changes no epoch number and lowers no high-water mark.\<close>

definition epoch_of :: "store \<Rightarrow> string \<Rightarrow> int" where
  "epoch_of st s = fst (get_summary_epoch s st)"

lemma epoch_of_advance [simp]: "epoch_of (snd (advance_cursor s e now st)) x = epoch_of st x"
  by (auto simp: epoch_of_def get_summary_epoch_def advance_cursor_def epoch_at_def Let_def split: option.splits)

lemma epoch_of_ensure [simp]: "epoch_of (snd (ensure_epoch s now st)) x = epoch_of st x"
  by (auto simp: epoch_of_def get_summary_epoch_def ensure_epoch_def split: option.splits)

lemma plan_epoch_of:
  "epoch_of (fst (plan_and_enqueue_windows h c observed strict now anow uuid st)) x = epoch_of st x \<and>
   st_connected (fst (plan_and_enqueue_windows h c observed strict now anow uuid st)) = st_connected st"
proof -
  have e: "epoch_of st' x = epoch_of st0 x" if "st_epochs st' = st_epochs st0" for st' st0
    using that by (simp add: epoch_of_def get_summary_epoch_def)
  from plan_and_enqueue_cases [of h c observed strict now anow uuid st] show ?thesis
  proof (elim disjE exE conjE)
    fix st2 f st3 res
    assume p: "persist_scope_snapshot c (snd (ensure_epoch (cx_session_id c) now st)) = Inr st2"
      "plan_from h c (fst (fst (ensure_epoch (cx_session_id c) now st))) now anow uuid f observed st2 = Some (st3, res)"
      "fst (plan_and_enqueue_windows h c observed strict now anow uuid st) = st3"
    have "epoch_of st2 x = epoch_of st x" using e [OF persist_scope_frame(2) [OF p(1)]] by simp
    moreover have "epoch_of (st2\<lparr>st_jobs := js\<rparr>) x = epoch_of st2 x" for js by (rule e) simp
    moreover have "st_connected st2 = st_connected st" using persist_scope_frame(5) [OF p(1)] by simp
    moreover have "\<exists>js s e. st3 = snd (advance_cursor s e now (st2\<lparr>st_jobs := js\<rparr>))"
      using p(2) by (auto simp: plan_from_def Let_def split: option.splits)
    ultimately show ?thesis using p(3) by auto
  qed simp
qed

lemma seq_end_mono:
  assumes "store_evolves st st'" "st_messages st' = st_messages st" "epoch_of st' s = epoch_of st s"
  shows "get_message_seq_end s st \<le> get_message_seq_end s st'"
proof (cases "st_epochs st s")
  case None
  then show ?thesis
    using max_message_seq_nonneg [of s "st_messages st"]
    by (auto simp: get_message_seq_end_def assms(2) split: option.split)
next
  case (Some r)
  then obtain q where "st_epochs st' s = Some q" "epoch_evolves r q"
    using assms(1) unfolding store_evolves_def by blast
  with Some assms(3) show ?thesis
    by (auto simp: get_message_seq_end_def assms(2) epoch_of_def get_summary_epoch_def epoch_evolves_def)
qed

lemma plan_frontiers_frame:
  assumes "store_ok st"
  shows "store_ok (fst (plan_frontiers h factory clock uuid ids q st)) \<and>
    store_evolves st (fst (plan_frontiers h factory clock uuid ids q st)) \<and>
    (\<forall>x. epoch_of (fst (plan_frontiers h factory clock uuid ids q st)) x = epoch_of st x)"
  using assms
proof (induction ids arbitrary: q st)
  case (Cons s ids)
  have step: "store_ok st1 \<and> store_evolves st st1 \<and> (\<forall>x. epoch_of st1 x = epoch_of st x)"
    if "plan_and_enqueue_windows h c o' True t t' u st = (st1, r)" for c o' t t' u st1 r
    using that plan_and_enqueue_safe [of st h c o' True t t' u] plan_epoch_of [of h c o' True t t' u st] Cons.prems
    by (simp add: safe_step_def)
  have both: "store_ok (fst (plan_frontiers h factory clock uuid ids q' st1)) \<and>
      store_evolves st (fst (plan_frontiers h factory clock uuid ids q' st1)) \<and>
      (\<forall>x. epoch_of (fst (plan_frontiers h factory clock uuid ids q' st1)) x = epoch_of st x)"
    if "plan_and_enqueue_windows h c o' True t t' u st = (st1, r)" for c o' t t' u st1 r q'
    using step [OF that] Cons.IH [of st1 q'] store_evolves_trans by fastforce
  obtain e c where g: "get_summary_epoch s st = (e, c)" by (cases "get_summary_epoch s st")
  show ?case
    using Cons.prems both step
    by (simp add: g split: sum.split option.split prod.split)
qed simp

definition covered :: "store \<Rightarrow> string \<Rightarrow> int \<Rightarrow> int \<Rightarrow> bool" where
  "covered st s e k \<longleftrightarrow> (\<exists>j \<in> set (st_jobs st). jb_session_id j = s \<and> jb_session_epoch j = e \<and>
     jb_start_seq j < k \<and> k \<le> jb_end_seq j)"

lemma covered_evolves: "store_evolves st st' \<Longrightarrow> covered st s e k \<Longrightarrow> covered st' s e k"
  unfolding covered_def store_evolves_def job_evolves_def by metis

lemma plan_frontiers_cover:
  assumes "plan_frontiers h factory clock uuid ids queued st = (st', Inr n)"
    and "store_ok st" "st_connected st" "s \<in> set ids" "0 < k" "k < get_message_seq_end s st"
    and auto: "\<And>x e c ctx. factory x e c = Inr (Some ctx) \<Longrightarrow> cx_triggered_by ctx \<noteq> ''manual''"
  shows "covered st' s (epoch_of st s) k \<and> epoch_of st' s = epoch_of st s"
  using assms(1-6)
proof (induction ids arbitrary: queued st)
  case (Cons x ids)
  obtain epoch cursor where g: "get_summary_epoch x st = (epoch, cursor)"
    by (cases "get_summary_epoch x st")
  with Cons.prems(1) obtain c where c: "factory x epoch cursor = Inr (Some c)"
    and ctx: "cx_session_id c = x" "cx_session_epoch c = epoch" "cx_start_seq c = cursor"
    by (auto split: sum.splits option.splits if_splits)
  obtain st1 a where p: "plan_and_enqueue_windows h c (get_message_seq_end x st) True (fst (clock x))
      (snd (clock x)) (uuid x) st = (st1, a)"
    by (cases "plan_and_enqueue_windows h c (get_message_seq_end x st) True (fst (clock x))
      (snd (clock x)) (uuid x) st")
  then obtain r where r: "a = Inr r" and rest: "plan_frontiers h factory clock uuid ids (queued + er_queued r) st1 = (st', Inr n)"
    using Cons.prems(1) g c by (auto split: sum.splits if_splits)
  have safe: "store_ok st1" "store_evolves st st1"
    using plan_and_enqueue_safe [of st h c "get_message_seq_end x st" True "fst (clock x)" "snd (clock x)" "uuid x"]
      Cons.prems(2) p by (simp_all add: safe_step_def)
  have fr: "st_messages st1 = st_messages st" "epoch_of st1 y = epoch_of st y" for y
    using plan_frame [of h c "get_message_seq_end x st" True "fst (clock x)" "snd (clock x)" "uuid x" st]
      plan_epoch_of [of h c "get_message_seq_end x st" True "fst (clock x)" "snd (clock x)" "uuid x" st y] p
    by simp_all
  have conn: "st_connected st1"
    using Cons.prems(3) p
      plan_epoch_of [of h c "get_message_seq_end x st" True "fst (clock x)" "snd (clock x)" "uuid x" st x]
    by simp
  have tail: "covered st' s (epoch_of st s) k \<and> epoch_of st' s = epoch_of st s" if "s \<in> set ids"
    using Cons.IH [OF rest safe(1) conn that Cons.prems(5)] seq_end_mono [OF safe(2) fr(1) fr(2), of s]
      Cons.prems(6) fr(2) by simp
  show ?case
  proof (cases "s \<in> set ids")
    case True
    with tail show ?thesis by blast
  next
    case False
    with Cons.prems(4) have s: "s = x" by simp
    have "plan_executed h c (get_message_seq_end x st) (fst (clock x)) (snd (clock x)) (uuid x) st st1"
      by (rule strict_plan_executed [OF _ message_seq_end_nonneg Cons.prems(3) auto [OF c]])
        (use p r g ctx in simp_all)
    from plan_executed_view [OF Cons.prems(2) this] obtain v
      where v: "planned_view h c (get_message_seq_end x st) st st1 v" ..
    have "\<exists>j \<in> set (epoch_jobs st1 x epoch). jb_start_seq j < k \<and> k \<le> jb_end_seq j"
      by (rule tiles_cover [OF planned_view_tiles(2) [OF v, unfolded ctx] Cons.prems(5)])
        (use planned_view_tiles(3) [OF v] Cons.prems(6) s ctx in simp)
    then have cov: "covered st1 s (epoch_of st s) k"
      using g s by (auto simp: covered_def epoch_jobs_def in_epoch_def epoch_of_def)
    have "store_evolves st1 st' \<and> (\<forall>y. epoch_of st' y = epoch_of st1 y)"
      using plan_frontiers_frame [OF safe(1), of h factory clock uuid ids "queued + er_queued r"] rest by simp
    with cov fr(2) show ?thesis using covered_evolves by auto
  qed
qed simp

end
