(* ===== verification/Status_Properties.thy ===== *)
theory Status_Properties
  imports Source_Properties Summary_Status Summary_Scope
begin

text \<open>
  Properties of what is shown and what is stored: the status snapshot, the scope snapshot, the validated
  contexts, and the planning of all sessions at startup.
\<close>

section \<open>The status snapshot\<close>


text \<open>
  C33: whatever a snapshot is made from, every number of it lies between 0 and the largest 64-bit
  integer, and every reason it lists is a text of 1 to 64 characters.
\<close>

theorem snapshot_is_sanitised:
  assumes "s = snapshot_from_mapping m \<or> s = store_snapshot now st"
  shows "(\<forall>n \<in> set (scalar_fields s). 0 \<le> n \<and> n < 2 ^ 63) \<and>
    (\<forall>(k, n) \<in> set (ts_unresolved_reason_counts s). k \<noteq> [] \<and> length k \<le> 64 \<and> 0 \<le> n \<and> n < 2 ^ 63)"
proof -
  have "snapshot_ok s" using assms from_mapping_ok store_snapshot_ok by blast
  then show ?thesis
    by (auto simp: snapshot_ok_def reason_count_ok_def max_snapshot_value_def)
qed

theorem snapshot_is_sanitised_witness:
  "0 \<le> ts_queued (snapshot_from_mapping (Some [(''queued'', PInt (-5))])) \<and>
   ts_queued (snapshot_from_mapping (Some [(''queued'', PInt (-5))])) < 2 ^ 63"
  using snapshot_is_sanitised [of "snapshot_from_mapping (Some [(''queued'', PInt (-5))])" "Some [(''queued'', PInt (-5))]"]
  by (simp add: scalar_fields_def)

text \<open>
  C34: the snapshot is a bound for the scheduler: a call of \<open>claim_ready\<close> at the same time never gets more
  jobs than the snapshot reports as executable.
\<close>

theorem snapshot_bounds_claims:
  assumes "0 \<le> now" and "st_connected st" and "int (length (st_jobs st)) < 2 ^ 63"
    and "claim_ready json now scheduler limit per_session lease order hint global_limit token st = (st', Inr claims)"
  shows "int (length claims) \<le> ts_target_parallelism (store_snapshot now st)"
proof -
  have "rowcount (executable_job now) (st_jobs st) \<le> int (length (st_jobs st))" by (simp add: rowcount_def)
  with assms(3) have "snap_int (rowcount (executable_job now) (st_jobs st)) = rowcount (executable_job now) (st_jobs st)"
    by (intro snap_int_id) (simp_all add: max_snapshot_value_def)
  with claim_ready_executable [OF assms(1,4)] assms(2) show ?thesis
    by (simp add: store_snapshot_def make_snapshot_def)
qed

theorem snapshot_bounds_claims_witness: "1 \<le> ts_target_parallelism (store_snapshot 11 sc_planned)"
  using snapshot_bounds_claims [OF _ _ _ sc_claim_ready] by (simp add: sc_planned_def sc_filled_tables)

text \<open>
  C35: the reasons a snapshot lists account for every window that waits for an operator: their counts add
  up to the blocked and the unknown windows.
\<close>

theorem snapshot_explains_unresolved:
  assumes "st_connected st" and "int (length (st_jobs st)) < 2 ^ 63"
  shows "sum_list (map snd (ts_unresolved_reason_counts (store_snapshot now st))) =
    ts_blocked (store_snapshot now st) + ts_unknown (store_snapshot now st)"
proof -
  have le: "rowcount p (st_jobs st) \<le> max_snapshot_value" for p
  proof -
    have "rowcount p (st_jobs st) \<le> int (length (st_jobs st))" by (simp add: rowcount_def)
    with assms(2) show ?thesis by (simp add: max_snapshot_value_def)
  qed
  have "\<forall>kn \<in> set (reason_groups st). reason_count_ok kn"
    using reason_text_length le by (auto simp: reason_groups_def reason_count_ok_def)
  then have "snap_counts (count_items (reason_groups st)) = reason_groups st" by (rule snap_counts_id)
  with assms(1) reason_groups_sum [of st now] le show ?thesis
    by (simp add: store_snapshot_def make_snapshot_def status_count_def snap_int_id)
qed

theorem snapshot_explains_unresolved_witness:
  "sum_list (map snd (ts_unresolved_reason_counts (store_snapshot 20 sc_planned))) =
    ts_blocked (store_snapshot 20 sc_planned) + ts_unknown (store_snapshot 20 sc_planned)"
  by (rule snapshot_explains_unresolved) (simp_all add: sc_planned_def sc_filled_tables)

section \<open>Contexts and scopes\<close>

text \<open>
  C36: a context that passed its constructor passes it again unchanged, and every job row planned from it
  is normal: its identity and scope columns carry no outer white space, and its provenance marker is
  set only with a complete scope.
\<close>

theorem validated_context_is_stable:
  assumes "make_context json c0 = Inr c" and "py_strip uuid = uuid" and "py_strip digest = digest"
  shows "make_context json c = Inr c \<and> row_normal (window_job c epoch now uuid lo hi digest status r)"
  using make_context_again [OF assms(1)] window_job_normal [OF make_context_texts [OF assms(1)] assms(2,3)]
  by simp

theorem validated_context_is_stable_witness: "row_normal sc_job"
  using validated_context_is_stable [OF sc_context_valid, of "''j1''" "''digest''" 1 10 0 2 Queued RQueued]
  by (simp add: sc_job_def text_eval)




section \<open>Planning at startup\<close>

text \<open>
  C38: planning at startup leaves nothing behind: when \<open>plan_existing_frontiers\<close> returns, every message
  below the high-water mark of a listed session (but for the very last one) lies in a window of the
  session's current epoch.
\<close>

theorem startup_planning_covers_all_sessions:
  assumes "reachable h st" and "plan_existing_frontiers h factory clock uuid ids st = (st', Inr n)"
    and "\<And>x e c ctx. factory x e c = Inr (Some ctx) \<Longrightarrow> cx_triggered_by ctx \<noteq> ''manual''"
    and "s \<in> set ids" and "0 < k" and "k < get_message_seq_end s st"
  shows "\<exists>j \<in> set (st_jobs st'). jb_session_id j = s \<and>
    jb_session_epoch j = fst (get_summary_epoch s st') \<and> jb_start_seq j < k \<and> k \<le> jb_end_seq j"
proof -
  have conn: "st_connected st" and run: "plan_frontiers h factory clock uuid ids 0 st = (st', Inr n)"
    using assms(2) by (auto simp: plan_existing_frontiers_def split: if_splits)
  from plan_frontiers_cover [OF run reachable_ok [OF assms(1)] conn assms(4-6,3)]
  show ?thesis by (auto simp: covered_def epoch_of_def)
qed

theorem startup_planning_covers_all_sessions_witness:
  "\<exists>st' n. plan_existing_frontiers sc_host (\<lambda>_ _ _. Inr (Some sc_context)) (\<lambda>_. (10, 10)) (\<lambda>_. sc_uuid) [''s'']
      sc_filled = (st', Inr n) \<and> (\<exists>j \<in> set (st_jobs st'). jb_start_seq j < 1 \<and> 1 \<le> jb_end_seq j)"
proof -
  have e: "get_message_seq_end ''s'' sc_filled = 2" "get_summary_epoch ''s'' sc_filled = (1, 0)"
    by (simp_all add: get_message_seq_end_def max_message_seq_def map_filter_def sc_filled_tables sc_message_def
        get_summary_epoch_def)
  have c: "cx_session_id sc_context = ''s''" "cx_session_epoch sc_context = 1" "cx_start_seq sc_context = 0"
    "cx_end_seq sc_context = 0" "cx_triggered_by sc_context \<noteq> ''manual''"
    by (simp_all add: sc_context_def)
  have r: "plan_existing_frontiers sc_host (\<lambda>_ _ _. Inr (Some sc_context)) (\<lambda>_. (10, 10)) (\<lambda>_. sc_uuid) [''s'']
      sc_filled = (sc_planned, Inr 1)"
    by (simp add: plan_existing_frontiers_def sc_filled_tables e c sc_plan)
  with startup_planning_covers_all_sessions [OF sc_reach_filled r, of "''s''" 1] e c(5) show ?thesis
    by auto
qed

end
