(* ===== verification/Memory_Status.thy ===== *)
theory Memory_Status
  imports Summary_Status "HOL-Library.AList"
begin

text \<open>
  The life-cycle status of a stored memory (\<open>core/shared/memory_status.py\<close>) and the JSON documents it
  is kept in. A metadata column is the decoded document, and the value None stands for a text that is
  not JSON. An object is an association list in the order of its keys.
\<close>

section \<open>JSON documents\<close>

datatype jvalue = JNull | JBool bool | JInt int | JReal real | JText string
  | JList "jvalue list" | JObject "(string \<times> jvalue) list"

type_synonym metadata = "(string \<times> jvalue) list"

text \<open>Python's truth value, and \<open>m.get(k)\<close>.\<close>

fun truthy :: "jvalue \<Rightarrow> bool" where
  "truthy JNull = False"
| "truthy (JBool b) = b"
| "truthy (JInt n) = (n \<noteq> 0)"
| "truthy (JReal r) = (r \<noteq> 0)"
| "truthy (JText s) = (s \<noteq> [])"
| "truthy (JList vs) = (vs \<noteq> [])"
| "truthy (JObject m) = (m \<noteq> [])"

definition jget :: "metadata \<Rightarrow> string \<Rightarrow> jvalue" where
  "jget m k = coalesce JNull (map_of m k)"

lemma jget_update [simp]: "jget (AList.update k v m) k' = (if k' = k then v else jget m k')"
  by (simp add: jget_def update_conv)

section \<open>The status\<close>

definition status_space :: "char \<Rightarrow> bool" where
  "status_space c \<longleftrightarrow> of_char c \<in> ({9, 10, 11, 12, 13, 32} :: nat set)"

definition ascii_lower :: "char \<Rightarrow> char" where
  "ascii_lower c = (let n = of_char c :: nat in if 65 \<le> n \<and> n \<le> 90 then char_of (n + 32) else c)"

definition normalize_status_text :: "string \<Rightarrow> string" where
  "normalize_status_text s = map ascii_lower (strip_of status_space s)"

definition status_active :: string where "status_active = ''active''"
definition status_unknown :: string where "status_unknown = ''unknown''"

definition memory_status_write_values :: "string list" where
  "memory_status_write_values = [''active'', ''dormant'', ''archived'', ''deleted'']"

definition active_status_aliases :: "string list" where
  "active_status_aliases = [''current'', ''stable'']"

text \<open>The loop over the two fields: the first recognised text decides.\<close>

definition recognised_status :: "jvalue option \<Rightarrow> string option" where
  "recognised_status v = (case v of
      Some (JText t) \<Rightarrow> (let n = normalize_status_text t in
        if n \<in> set active_status_aliases then Some status_active
        else if n \<in> set memory_status_write_values then Some n else None)
    | _ \<Rightarrow> None)"

fun read_status :: "metadata \<Rightarrow> string list \<Rightarrow> string option" where
  "read_status m [] = None"
| "read_status m (f # fs) = (case recognised_status (map_of m f) of
      Some s \<Rightarrow> Some s | None \<Rightarrow> read_status m fs)"

definition status_fields :: "string list" where
  "status_fields = [''memory_status'', ''status'']"

definition effective_memory_status :: "metadata option \<Rightarrow> string \<Rightarrow> string" where
  "effective_memory_status md dflt =
     (let fallback = (let d = normalize_status_text dflt in if d = [] then status_active else d) in
      case md of None \<Rightarrow> fallback
      | Some m \<Rightarrow> (case read_status m status_fields of
          Some s \<Rightarrow> s
        | None \<Rightarrow> if list_ex (\<lambda>f. map_of m f \<noteq> None) status_fields then status_unknown else fallback))"

definition is_memory_recallable :: "metadata option \<Rightarrow> bool" where
  "is_memory_recallable md \<longleftrightarrow> effective_memory_status md status_active = status_active \<and>
     \<not> (case md of None \<Rightarrow> False | Some m \<Rightarrow> jget m ''summary_source_orphan'' = JBool True)"

definition is_memory_active :: "metadata option \<Rightarrow> bool" where
  "is_memory_active md \<longleftrightarrow> is_memory_recallable md"

fun finite_time :: "pvalue \<Rightarrow> real option" where
  "finite_time (PInt n) = Some (of_int n)"
| "finite_time (PReal r) = Some r"
| "finite_time _ = None"

definition set_memory_status :: "metadata \<Rightarrow> pvalue \<Rightarrow> pvalue \<Rightarrow> metadata result" where
  "set_memory_status m status changed_at =
     (let n = (case status of PText t \<Rightarrow> normalize_status_text t | _ \<Rightarrow> []) in
      if n \<notin> set memory_status_write_values then Inl (ValueError ''memory_status_invalid'')
      else case finite_time changed_at of
        None \<Rightarrow> Inl (ValueError ''memory_status_changed_at_invalid'')
      | Some t \<Rightarrow> Inr (AList.update ''status_changed_at'' (JReal t)
            (AList.update ''status'' (JText n) (AList.update ''memory_status'' (JText n) m))))"

lemma recognised_status_cases:
  "recognised_status v = Some s \<Longrightarrow> s \<in> set memory_status_write_values"
  by (auto simp: recognised_status_def Let_def status_active_def memory_status_write_values_def
      split: option.splits jvalue.splits if_splits)

lemma read_status_values: "read_status m fs = Some s \<Longrightarrow> s \<in> set memory_status_write_values"
  by (induction fs) (auto split: option.splits dest: recognised_status_cases)

lemma normalize_written:
  "n \<in> set memory_status_write_values \<Longrightarrow> normalize_status_text n = n"
  by (auto simp: memory_status_write_values_def normalize_status_text_def strip_of_def
      status_space_def ascii_lower_def)

lemma effective_status_values:
  "effective_memory_status md status_active \<in> insert status_unknown (set memory_status_write_values)"
  by (auto simp: effective_memory_status_def Let_def memory_status_write_values_def
      normalize_written status_active_def normalize_status_text_def strip_of_def status_space_def
      ascii_lower_def
      split: option.splits dest!: read_status_values)

text \<open>What was written is what is read.\<close>

lemma set_then_read_status:
  assumes "set_memory_status m status t = Inr m'"
  obtains s where "status = PText s"
    and "effective_memory_status (Some m') d = normalize_status_text s"
    and "normalize_status_text s \<in> set memory_status_write_values"
proof -
  from assms obtain s x where s: "status = PText s" and t: "finite_time t = Some x"
    and w: "normalize_status_text s \<in> set memory_status_write_values"
    by (cases status; cases "finite_time t")
      (auto simp: set_memory_status_def Let_def memory_status_write_values_def split: if_splits)
  let ?n = "normalize_status_text s"
  from assms s t w have m: "m' = AList.update ''status_changed_at'' (JReal x)
      (AList.update ''status'' (JText ?n) (AList.update ''memory_status'' (JText ?n) m))"
    by (simp add: set_memory_status_def Let_def)
  have al: "?n \<notin> set active_status_aliases"
    using w by (auto simp: memory_status_write_values_def active_status_aliases_def)
  have "recognised_status (map_of m' ''memory_status'') = Some ?n"
    using al w by (simp add: m update_conv recognised_status_def normalize_written)
  then have "effective_memory_status (Some m') d = ?n"
    by (simp add: effective_memory_status_def Let_def status_fields_def)
  from s this w show ?thesis by (rule that)
qed

end
