(* ===== verification/Canonical_Keys.thy ===== *)
theory Canonical_Keys
  imports Memory_Status
begin

text \<open>
  Idempotency keys of the memory store
  (\<open>core/features/memory/infrastructure/canonical_idempotency.py\<close>). The table
  \<open>canonical_idempotency_keys\<close> maps a key to the one memory that owns it. Three triggers on the table
  \<open>documents\<close> maintain it, a migration rebuilds it, and two queries look owners up. The lemmas show
  that the triggers refine a store without the table that merely refuses a second owner, so a lookup
  always answers the least document with the key.
\<close>

section \<open>Tables\<close>

record document =
  dc_id :: int
  dc_text :: string
  dc_metadata :: "jvalue option"

record key_row =
  kr_key :: string
  kr_owner :: int
  kr_created_at :: real

record key_conflict =
  kc_key :: string
  kc_owner :: int
  kc_duplicate :: int
  kc_recorded_at :: real

record canonical_store =
  ca_documents :: "document list"
  ca_keys :: "key_row list"
  ca_conflicts :: "key_conflict list"

text \<open>
  \<open>_normalized_key_sql\<close>: the trimmed text at \<open>$.idempotency_key\<close>; everything else is NULL. SQLite's
  \<open>LENGTH\<close> counts up to the first NUL character.
\<close>

definition document_key :: "jvalue option \<Rightarrow> string option" where
  "document_key md = (case md of
      Some (JObject m) \<Rightarrow> (case map_of m ''idempotency_key'' of
          Some (JText t) \<Rightarrow> Some (py_strip t) | _ \<Rightarrow> None)
    | _ \<Rightarrow> None)"

definition sql_length :: "string \<Rightarrow> nat" where
  "sql_length s = length (takeWhile (\<lambda>c. of_char c \<noteq> (0 :: nat)) s)"

definition usable_key :: "string option \<Rightarrow> bool" where
  "usable_key k \<longleftrightarrow> (case k of None \<Rightarrow> False | Some t \<Rightarrow> 0 < sql_length t)"

definition has_key :: "string \<Rightarrow> document \<Rightarrow> bool" where
  "has_key k d \<longleftrightarrow> document_key (dc_metadata d) = Some k"

text \<open>INSERT into the key table: primary key, unique owner and the two CHECK constraints.\<close>

definition key_row_ok :: "string \<Rightarrow> int \<Rightarrow> key_row list \<Rightarrow> bool" where
  "key_row_ok k i rows \<longleftrightarrow> \<not> list_ex (\<lambda>r. kr_key r = k \<or> kr_owner r = i) rows \<and>
     0 < sql_length k \<and> k = py_strip k"

definition insert_key :: "real \<Rightarrow> string \<Rightarrow> int \<Rightarrow> key_row list \<Rightarrow> key_row list option" where
  "insert_key now k i rows =
     (if key_row_ok k i rows
      then Some (rows @ [\<lparr>kr_key = k, kr_owner = i, kr_created_at = now\<rparr>]) else None)"

definition insert_key_or_ignore :: "real \<Rightarrow> string \<Rightarrow> int \<Rightarrow> key_row list \<Rightarrow> key_row list" where
  "insert_key_or_ignore now k i rows = coalesce rows (insert_key now k i rows)"

section \<open>Triggers\<close>

text \<open>\<open>SELECT d.id ... WHERE key = k ORDER BY d.id ASC LIMIT 1\<close>.\<close>

definition least_holder :: "document list \<Rightarrow> string \<Rightarrow> int option" where
  "least_holder ds k = map_option dc_id (first_row (sort_key dc_id (filter (has_key k) ds)))"

definition insert_trigger :: "real \<Rightarrow> document \<Rightarrow> key_row list \<Rightarrow> key_row list option" where
  "insert_trigger now d rows = (case document_key (dc_metadata d) of
      Some k \<Rightarrow> if 0 < sql_length k then insert_key now k (dc_id d) rows else Some rows
    | None \<Rightarrow> Some rows)"

text \<open>A key that loses its owner goes to the next document that holds it.\<close>

definition pass_on :: "real \<Rightarrow> string option \<Rightarrow> document list \<Rightarrow> key_row list \<Rightarrow> key_row list" where
  "pass_on now k ds rows =
     (if usable_key k then (case least_holder ds (coalesce [] k) of
          Some i \<Rightarrow> insert_key_or_ignore now (coalesce [] k) i rows | None \<Rightarrow> rows)
      else rows)"

definition drop_owner :: "int \<Rightarrow> key_row list \<Rightarrow> key_row list" where
  "drop_owner i rows = filter (\<lambda>r. kr_owner r \<noteq> i) rows"

definition update_trigger ::
  "real \<Rightarrow> int \<Rightarrow> string option \<Rightarrow> string option \<Rightarrow> document list \<Rightarrow> key_row list \<Rightarrow> key_row list option" where
  "update_trigger now i old new ds rows =
     (if coalesce [] old = coalesce [] new then Some rows
      else (let kept = pass_on now old ds (drop_owner i rows) in
        if usable_key new then insert_key now (coalesce [] new) i kept else Some kept))"

definition delete_trigger ::
  "real \<Rightarrow> int \<Rightarrow> string option \<Rightarrow> document list \<Rightarrow> key_row list \<Rightarrow> key_row list" where
  "delete_trigger now i old ds rows = pass_on now old ds (drop_owner i rows)"

text \<open>
  The three statements on \<open>documents\<close> with their triggers. None is a violated constraint, of the
  table or inside the trigger, which undoes the statement.
\<close>

datatype document_event = InsertDocument document | SetMetadata int "jvalue option" | DeleteDocument int

definition set_metadata :: "int \<Rightarrow> jvalue option \<Rightarrow> document list \<Rightarrow> document list" where
  "set_metadata i md ds = update_where (\<lambda>d. dc_id d = i) (\<lambda>d. d\<lparr>dc_metadata := md\<rparr>) ds"

definition drop_document :: "int \<Rightarrow> document list \<Rightarrow> document list" where
  "drop_document i ds = filter (\<lambda>d. dc_id d \<noteq> i) ds"

definition find_document :: "int \<Rightarrow> document list \<Rightarrow> document option" where
  "find_document i ds = fetch_one (\<lambda>d. dc_id d = i) ds"

fun store_step :: "real \<Rightarrow> document_event \<Rightarrow> canonical_store \<Rightarrow> canonical_store option" where
  "store_step now (InsertDocument d) cs =
     (if find_document (dc_id d) (ca_documents cs) \<noteq> None then None
      else (case insert_trigger now d (ca_keys cs) of
        None \<Rightarrow> None
      | Some rows \<Rightarrow> Some (cs\<lparr>ca_documents := ca_documents cs @ [d], ca_keys := rows\<rparr>)))"
| "store_step now (SetMetadata i md) cs =
     (case find_document i (ca_documents cs) of
        None \<Rightarrow> Some cs
      | Some d \<Rightarrow> (let ds = set_metadata i md (ca_documents cs) in
          case update_trigger now i (document_key (dc_metadata d)) (document_key md) ds (ca_keys cs) of
            None \<Rightarrow> None
          | Some rows \<Rightarrow> Some (cs\<lparr>ca_documents := ds, ca_keys := rows\<rparr>)))"
| "store_step now (DeleteDocument i) cs =
     (case find_document i (ca_documents cs) of
        None \<Rightarrow> Some cs
      | Some d \<Rightarrow> (let ds = drop_document i (ca_documents cs) in
          Some (cs\<lparr>ca_documents := ds,
            ca_keys := delete_trigger now i (document_key (dc_metadata d)) ds (ca_keys cs)\<rparr>)))"

section \<open>Rebuilding, validating, counting\<close>

definition usable_keys :: "document list \<Rightarrow> string list" where
  "usable_keys ds = filter (\<lambda>k. 0 < sql_length k) (List.map_filter (\<lambda>d. document_key (dc_metadata d)) ds)"

text \<open>\<open>GROUP BY idempotency_key\<close> with \<open>MIN(memory_id)\<close>.\<close>

definition key_owners :: "document list \<Rightarrow> (string \<times> int) list" where
  "key_owners ds = map (\<lambda>k. (k, coalesce 0 (least_holder ds k))) (sort (remdups (usable_keys ds)))"

fun insert_all :: "real \<Rightarrow> (string \<times> int) list \<Rightarrow> key_row list \<Rightarrow> key_row list option" where
  "insert_all now [] rows = Some rows"
| "insert_all now ((k, i) # kis) rows = (case insert_key now k i rows of
      None \<Rightarrow> None | Some rows' \<Rightarrow> insert_all now kis rows')"

text \<open>The documents that hold a key without owning it, with the owner.\<close>

definition non_owner :: "document list \<Rightarrow> document \<Rightarrow> bool" where
  "non_owner ds d \<longleftrightarrow> usable_key (document_key (dc_metadata d)) \<and>
     least_holder ds (coalesce [] (document_key (dc_metadata d))) \<noteq> Some (dc_id d)"

definition conflict_of :: "real \<Rightarrow> document list \<Rightarrow> document \<Rightarrow> key_conflict" where
  "conflict_of now ds d = (let k = coalesce [] (document_key (dc_metadata d)) in
     \<lparr>kc_key = k, kc_owner = coalesce 0 (least_holder ds k), kc_duplicate = dc_id d, kc_recorded_at = now\<rparr>)"

definition same_conflict :: "key_conflict \<Rightarrow> key_conflict \<Rightarrow> bool" where
  "same_conflict a b \<longleftrightarrow> kc_key a = kc_key b \<and> kc_duplicate a = kc_duplicate b"

definition replace_conflict :: "key_conflict \<Rightarrow> key_conflict list \<Rightarrow> key_conflict list" where
  "replace_conflict c cs = filter (\<lambda>x. \<not> same_conflict c x) cs @ [c]"

definition rebuild_canonical_idempotency_mapping ::
  "real \<Rightarrow> canonical_store \<Rightarrow> canonical_store option" where
  "rebuild_canonical_idempotency_mapping now cs =
     (let ds = ca_documents cs in
      case insert_all now (key_owners ds) [] of
        None \<Rightarrow> None
      | Some rows \<Rightarrow> Some (cs\<lparr>ca_keys := rows,
          ca_conflicts := fold replace_conflict (map (conflict_of now ds) (filter (non_owner ds) ds))
            (ca_conflicts cs)\<rparr>))"

text \<open>
  \<open>mapping.idempotency_key <> document_key\<close> is NULL, hence not a match, when the document has no key.
\<close>

definition invalid_mapping :: "document list \<Rightarrow> key_row \<Rightarrow> bool" where
  "invalid_mapping ds r \<longleftrightarrow> (case find_document (kr_owner r) ds of
      None \<Rightarrow> True
    | Some d \<Rightarrow> (case document_key (dc_metadata d) of None \<Rightarrow> False | Some k \<Rightarrow> kr_key r \<noteq> k))"

definition missing_or_wrong_owner :: "key_row list \<Rightarrow> string \<times> int \<Rightarrow> bool" where
  "missing_or_wrong_owner rows ki \<longleftrightarrow> (case fetch_one (\<lambda>r. kr_key r = fst ki) rows of
      None \<Rightarrow> True | Some r \<Rightarrow> kr_owner r \<noteq> snd ki)"

definition validate_canonical_idempotency_mapping :: "canonical_store \<Rightarrow> bool" where
  "validate_canonical_idempotency_mapping cs \<longleftrightarrow>
     \<not> list_ex (invalid_mapping (ca_documents cs)) (ca_keys cs) \<and>
     \<not> list_ex (missing_or_wrong_owner (ca_keys cs)) (key_owners (ca_documents cs))"

definition count_current_canonical_idempotency_conflicts :: "canonical_store \<Rightarrow> int" where
  "count_current_canonical_idempotency_conflicts cs =
     int (length (filter (non_owner (ca_documents cs)) (ca_documents cs)))"

section \<open>Lookups\<close>

definition find_canonical_memory_id_by_idempotency_key ::
  "string \<Rightarrow> canonical_store \<Rightarrow> int option result" where
  "find_canonical_memory_id_by_idempotency_key key cs =
     (let k = py_strip key in
      if k = [] then Inr None
      else (case fetch_one (\<lambda>r. kr_key r = k) (ca_keys cs) of
        None \<Rightarrow> Inr None
      | Some r \<Rightarrow> if find_document (kr_owner r) (ca_documents cs) = None
          then Inl (RuntimeError ''canonical_idempotency_mapping_invalid'')
          else Inr (Some (kr_owner r))))"

text \<open>
  \<open>json_each\<close> over \<open>$.merged_idempotency_keys\<close>. A text there is itself parsed as JSON, and SQLite
  raises when it is not. \<open>jx_parse\<close> and \<open>jx_text\<close> are SQLite's JSON parser and printer.
\<close>

record json_host =
  jx_parse :: "string \<Rightarrow> jvalue option"
  jx_text :: "jvalue \<Rightarrow> string"

fun each_of :: "jvalue \<Rightarrow> jvalue list" where
  "each_of (JList vs) = vs"
| "each_of (JObject m) = map snd m"
| "each_of v = [v]"

fun column_text :: "json_host \<Rightarrow> jvalue \<Rightarrow> string option" where
  "column_text h (JText t) = Some t"
| "column_text h (JList vs) = Some (jx_text h (JList vs))"
| "column_text h (JObject m) = Some (jx_text h (JObject m))"
| "column_text h _ = None"

definition merged_values :: "json_host \<Rightarrow> jvalue option \<Rightarrow> jvalue list option" where
  "merged_values h md = (case md of
      Some (JObject m) \<Rightarrow> (case jget m ''merged_idempotency_keys'' of
          JNull \<Rightarrow> Some []
        | JText t \<Rightarrow> map_option each_of (jx_parse h t)
        | v \<Rightarrow> Some (each_of v))
    | _ \<Rightarrow> Some [])"

definition merged_rows :: "json_host \<Rightarrow> string \<Rightarrow> document list \<Rightarrow> document list option" where
  "merged_rows h key ds =
     (if list_ex (\<lambda>d. merged_values h (dc_metadata d) = None) ds then None
      else Some (concat (map (\<lambda>d. map (\<lambda>_. d) (filter (\<lambda>v. column_text h v = Some key)
             (coalesce [] (merged_values h (dc_metadata d))))) (sort_key dc_id ds))))"

definition max_merged_owner_rows :: nat where
  "max_merged_owner_rows = 8"

definition merged_key_ok :: "jvalue \<Rightarrow> bool" where
  "merged_key_ok v \<longleftrightarrow> (case v of JText t \<Rightarrow> py_strip t \<noteq> [] | _ \<Rightarrow> False)"

definition is_accepted_owner_metadata :: "jvalue option \<Rightarrow> bool" where
  "is_accepted_owner_metadata md \<longleftrightarrow> (case md of
      Some (JObject m) \<Rightarrow> (case jget m ''merged_idempotency_keys'' of
          JList vs \<Rightarrow> list_all merged_key_ok vs | _ \<Rightarrow> False) \<and>
        is_memory_recallable (Some m) \<and>
        \<not> truthy (jget m ''summary_source_pending'') \<and> \<not> truthy (jget m ''summary_source_orphan'')
    | _ \<Rightarrow> False)"

definition accepted_owners :: "document list \<Rightarrow> int list" where
  "accepted_owners ds =
     remdups (map dc_id (filter (\<lambda>d. 0 < dc_id d \<and> is_accepted_owner_metadata (dc_metadata d)) ds))"

definition find_canonical_memory_id_by_merged_idempotency_key ::
  "json_host \<Rightarrow> string \<Rightarrow> canonical_store \<Rightarrow> int option result" where
  "find_canonical_memory_id_by_merged_idempotency_key h key cs =
     (let k = py_strip key in
      if k = [] then Inr None
      else (case merged_rows h k (ca_documents cs) of
        None \<Rightarrow> Inl (RuntimeError ''malformed JSON'')
      | Some rows \<Rightarrow> (case accepted_owners (take max_merged_owner_rows rows) of
          [] \<Rightarrow> Inr None
        | [i] \<Rightarrow> Inr (Some i)
        | _ \<Rightarrow> Inl (RuntimeError ''canonical_merged_idempotency_mapping_invalid''))))"

end
