(* ===== verification/Canonical_Registry.thy ===== *)
theory Canonical_Registry
  imports Canonical_Keys
begin

text \<open>
  The key table is a cache of the documents: in every state that the triggers can reach from a rebuilt
  table, a key is mapped to the least document that holds it. The specification is a list of documents
  that refuses a second holder of a key, and the code refines it step by step.
\<close>

section \<open>The owner of a key\<close>

definition owner_of :: "document list \<Rightarrow> string \<Rightarrow> int option" where
  "owner_of ds k = (if 0 < sql_length k then least_holder ds k else None)"

definition held :: "document list \<Rightarrow> string \<Rightarrow> bool" where
  "held ds k \<longleftrightarrow> list_ex (has_key k) ds"

lemma sql_length_Nil [simp]: "sql_length [] = 0"
  by (simp add: sql_length_def)

lemma document_key_stripped: "document_key md = Some k \<Longrightarrow> py_strip k = k"
  by (auto simp: document_key_def split: option.splits jvalue.splits)

lemma sort_key_Nil [simp]: "sort_key f rs = [] \<longleftrightarrow> rs = []"
  by (metis first_row_None first_row_sort_None)

lemma option_eqI: "(\<And>i. x = Some i \<longleftrightarrow> y = Some i) \<Longrightarrow> x = y"
  by (cases x; cases y) auto

lemma least_holder_Some:
  "least_holder ds k = Some i \<longleftrightarrow>
     (\<exists>d \<in> set ds. has_key k d \<and> dc_id d = i) \<and> (\<forall>d \<in> set ds. has_key k d \<longrightarrow> i \<le> dc_id d)"
proof (cases "filter (has_key k) ds = []")
  case True
  then show ?thesis by (auto simp: least_holder_def filter_empty_conv)
next
  case False
  then obtain r where r: "first_row (sort_key dc_id (filter (has_key k) ds)) = Some r"
    by (metis first_row_sort_None option.exhaust)
  from first_row_sort_key [OF this] have "r \<in> set ds" "has_key k r"
    "\<forall>d \<in> set ds. has_key k d \<longrightarrow> dc_id r \<le> dc_id d" by auto
  then show ?thesis using r by (auto simp: least_holder_def intro: antisym)
qed

lemma least_holder_None [simp]: "least_holder ds k = None \<longleftrightarrow> \<not> held ds k"
  by (auto simp: least_holder_def held_def filter_empty_conv list_ex_iff)

lemma owner_of_Some:
  "owner_of ds k = Some i \<longleftrightarrow> 0 < sql_length k \<and>
     (\<exists>d \<in> set ds. has_key k d \<and> dc_id d = i) \<and> (\<forall>d \<in> set ds. has_key k d \<longrightarrow> i \<le> dc_id d)"
  by (simp add: owner_of_def least_holder_Some)

lemma owner_of_eqI:
  assumes "\<And>i. owner_of ds k = Some i \<longleftrightarrow> owner_of ds' k = Some i"
  shows "owner_of ds k = owner_of ds' k"
  by (rule option_eqI) (rule assms)

lemma owner_of_cong: "set ds = set ds' \<Longrightarrow> owner_of ds = owner_of ds'"
  by (intro ext owner_of_eqI) (simp add: owner_of_Some)

section \<open>The mapping relation\<close>

definition owns :: "key_row list \<Rightarrow> string \<Rightarrow> int \<Rightarrow> bool" where
  "owns rows k i \<longleftrightarrow> (\<exists>r \<in> set rows. kr_key r = k \<and> kr_owner r = i)"

definition mapping_of :: "document list \<Rightarrow> key_row list \<Rightarrow> bool" where
  "mapping_of ds rows \<longleftrightarrow> distinct (map kr_key rows) \<and> (\<forall>k i. owns rows k i \<longleftrightarrow> owner_of ds k = Some i)"

lemma owns_simps [simp]:
  "owns [] k i = False"
  "owns (r # rows) k i \<longleftrightarrow> kr_key r = k \<and> kr_owner r = i \<or> owns rows k i"
  "owns (rows @ rows') k i \<longleftrightarrow> owns rows k i \<or> owns rows' k i"
  by (auto simp: owns_def)

lemma owns_drop: "owns (drop_owner j rows) k i \<longleftrightarrow> owns rows k i \<and> i \<noteq> j"
  by (auto simp: owns_def drop_owner_def)

lemma key_row_ok_iff:
  "key_row_ok k i rows \<longleftrightarrow> (\<forall>k' i'. owns rows k' i' \<longrightarrow> k' \<noteq> k \<and> i' \<noteq> i) \<and> 0 < sql_length k \<and> py_strip k = k"
  by (auto simp: key_row_ok_def owns_def list_ex_iff)

lemma insert_key_Some:
  "insert_key now k i rows = Some rows' \<longleftrightarrow>
     key_row_ok k i rows \<and> rows' = rows @ [\<lparr>kr_key = k, kr_owner = i, kr_created_at = now\<rparr>]"
  by (auto simp: insert_key_def)

lemma mapping_of_cong: "set ds = set ds' \<Longrightarrow> mapping_of ds rows \<longleftrightarrow> mapping_of ds' rows"
  using owner_of_cong [of ds ds'] by (simp add: mapping_of_def)

lemma distinct_key_snoc:
  "distinct (map kr_key rows) \<Longrightarrow> key_row_ok k i rows \<Longrightarrow>
     distinct (map kr_key (rows @ [\<lparr>kr_key = k, kr_owner = i, kr_created_at = now\<rparr>]))"
  by (auto simp: key_row_ok_iff owns_def)

lemma mapping_holder:
  assumes "mapping_of ds rows" and "owns rows k i"
  shows "\<exists>d \<in> set ds. has_key k d \<and> dc_id d = i"
  using assms by (auto simp: mapping_of_def owner_of_Some)

section \<open>Triggers keep the relation\<close>

text \<open>A new document: refused exactly when its key is already held.\<close>

lemma insert_trigger_refused:
  assumes "mapping_of ds rows" and "has_key k d" and "0 < sql_length k" and "held ds k"
  shows "insert_trigger now d rows = None"
proof -
  from assms(3,4) obtain i where "owner_of ds k = Some i"
    by (cases "owner_of ds k") (auto simp: owner_of_def)
  with assms(1) have "owns rows k i" by (simp add: mapping_of_def)
  then have "\<not> key_row_ok k (dc_id d) rows" by (auto simp: key_row_ok_iff)
  with assms(2,3) show ?thesis by (simp add: insert_trigger_def has_key_def insert_key_def)
qed

lemma owner_of_snoc_other:
  assumes "\<not> (has_key k d \<and> 0 < sql_length k)"
  shows "owner_of (ds @ [d]) k = owner_of ds k"
  using assms by (intro owner_of_eqI) (auto simp: owner_of_Some)

lemma owner_of_snoc_new:
  assumes "has_key k d" and "0 < sql_length k" and "\<not> held ds k"
  shows "owner_of (ds @ [d]) k = Some (dc_id d)" "owner_of ds k = None"
proof -
  show "owner_of (ds @ [d]) k = Some (dc_id d)"
    using assms by (auto simp: owner_of_Some held_def list_ex_iff)
  show "owner_of ds k = None" using assms by (simp add: owner_of_def)
qed

lemma insert_trigger_keeps:
  assumes m: "mapping_of ds rows" and new: "dc_id d \<notin> dc_id ` set ds"
    and free: "\<And>k. has_key k d \<Longrightarrow> 0 < sql_length k \<Longrightarrow> \<not> held ds k"
  shows "\<exists>rows'. insert_trigger now d rows = Some rows' \<and> mapping_of (ds @ [d]) rows'"
proof (cases "\<exists>k. has_key k d \<and> 0 < sql_length k")
  case False
  then have "insert_trigger now d rows = Some rows"
    by (auto simp: insert_trigger_def has_key_def split: option.splits)
  moreover have "owner_of (ds @ [d]) = owner_of ds"
    using False by (intro ext owner_of_snoc_other) blast
  ultimately show ?thesis using m by (simp add: mapping_of_def)
next
  case True
  then obtain k where k: "has_key k d" "0 < sql_length k" by blast
  note own = owner_of_snoc_new [OF k free [OF k]]
  have "k' \<noteq> k \<and> i \<noteq> dc_id d" if "owner_of ds k' = Some i" for k' i
  proof -
    from that have "i \<in> dc_id ` set ds" by (auto simp: owner_of_Some)
    with that own(2) new show ?thesis by (metis option.distinct(1))
  qed
  then have ok: "key_row_ok k (dc_id d) rows"
    using m k document_key_stripped [of "dc_metadata d" k]
    by (auto simp: key_row_ok_iff mapping_of_def has_key_def)
  let ?rows = "rows @ [\<lparr>kr_key = k, kr_owner = dc_id d, kr_created_at = now\<rparr>]"
  have "owns ?rows k' i \<longleftrightarrow> owner_of (ds @ [d]) k' = Some i" for k' i
  proof (cases "k' = k")
    case True
    then show ?thesis using m own by (auto simp: mapping_of_def)
  next
    case False
    then have "\<not> (has_key k' d \<and> 0 < sql_length k')" using k(1) by (auto simp: has_key_def)
    from owner_of_snoc_other [OF this] False show ?thesis using m by (auto simp: mapping_of_def)
  qed
  then have "mapping_of (ds @ [d]) ?rows"
    using m distinct_key_snoc [OF _ ok] by (simp add: mapping_of_def del: map_append)
  moreover have "insert_trigger now d rows = Some ?rows"
    using k ok by (simp add: insert_trigger_def has_key_def insert_key_def)
  ultimately show ?thesis by blast
qed

text \<open>A document gives up its key: the next holder takes over.\<close>

lemma owner_of_drop_other:
  assumes "distinct (map dc_id ds)" and "d \<in> set ds" and "\<not> has_key k d"
  shows "owner_of (drop_document (dc_id d) ds) k = owner_of ds k"
proof (intro owner_of_eqI)
  fix i
  have "e \<in> set ds \<and> has_key k e \<longleftrightarrow> e \<in> set (drop_document (dc_id d) ds) \<and> has_key k e" for e
    using key_unique [OF assms(1), of e d] assms(2,3) by (auto simp: drop_document_def)
  then show "owner_of (drop_document (dc_id d) ds) k = Some i \<longleftrightarrow> owner_of ds k = Some i"
    unfolding owner_of_Some by blast
qed

lemma owner_of_drop_not_owner:
  assumes "owner_of ds k \<noteq> Some j"
  shows "owner_of (drop_document j ds) k = owner_of ds k"
proof (cases "owner_of ds k")
  case None
  then show ?thesis by (auto simp: owner_of_def held_def list_ex_iff drop_document_def)
next
  case (Some i)
  then have "owner_of (drop_document j ds) k = Some i"
    using assms by (auto simp: owner_of_Some drop_document_def)
  with Some show ?thesis by simp
qed

lemma pass_on_keeps:
  assumes m: "mapping_of ds rows" and dist: "distinct (map dc_id ds)" and d: "d \<in> set ds"
    and old: "old = document_key (dc_metadata d)"
    and rest: "\<And>k. old = Some k \<Longrightarrow> least_holder ds' k = least_holder (drop_document (dc_id d) ds) k"
  shows "mapping_of (drop_document (dc_id d) ds) (pass_on now old ds' (drop_owner (dc_id d) rows))"
    (is "mapping_of ?ds ?rows")
proof -
  let ?kept = "drop_owner (dc_id d) rows"
  have rows: "owns rows k i \<longleftrightarrow> owner_of ds k = Some i" for k i
    using m by (simp add: mapping_of_def)
  then have kept: "owns ?kept k i \<longleftrightarrow> owner_of ds k = Some i \<and> i \<noteq> dc_id d" for k i
    by (simp add: owns_drop)
  have dk: "distinct (map kr_key ?kept)"
    using m by (simp add: mapping_of_def drop_owner_def distinct_map_filter)
  have same: "owns ?kept k i \<longleftrightarrow> owner_of ?ds k = Some i" if "owner_of ds k \<noteq> Some (dc_id d)" for k i
    using that owner_of_drop_not_owner [OF that] by (auto simp: kept)
  have holder: "old = Some k \<and> 0 < sql_length k" if "owner_of ds k = Some (dc_id d)" for k
    using that key_unique [OF dist d] by (auto simp: owner_of_Some old has_key_def)
  show ?thesis
  proof (cases "\<exists>k. owner_of ds k = Some (dc_id d)")
    case False
    then have all: "owns ?kept k i \<longleftrightarrow> owner_of ?ds k = Some i" for k i using same by blast
    have "?rows = ?kept"
    proof (cases "usable_key old")
      case True
      then obtain k where k: "old = Some k" "0 < sql_length k"
        by (auto simp: usable_key_def split: option.splits)
      show ?thesis
      proof (cases "least_holder ?ds k")
        case (Some i)
        then have "owner_of ?ds k = Some i" using k by (simp add: owner_of_def)
        then have "\<not> key_row_ok k i ?kept" using all by (auto simp: key_row_ok_iff)
        then show ?thesis using Some k rest
          by (simp add: pass_on_def usable_key_def insert_key_or_ignore_def insert_key_def)
      qed (use k rest in \<open>simp add: pass_on_def usable_key_def del: least_holder_None\<close>)
    qed (simp add: pass_on_def)
    then show ?thesis using all dk by (simp add: mapping_of_def)
  next
    case True
    then obtain k where own: "owner_of ds k = Some (dc_id d)" by blast
    with holder have k: "old = Some k" "0 < sql_length k" by blast+
    have other: "owns ?kept k' i \<longleftrightarrow> owner_of ?ds k' = Some i" if "k' \<noteq> k" for k' i
      using that same holder k by blast
    have none: "\<not> owns ?kept k i" for i by (simp add: kept own)
    show ?thesis
    proof (cases "least_holder ?ds k")
      case None
      then have "?rows = ?kept" using k rest by (simp add: pass_on_def usable_key_def del: least_holder_None)
      moreover have "owner_of ?ds k = None" using None k by (simp add: owner_of_def)
      then have "owns ?kept k' i \<longleftrightarrow> owner_of ?ds k' = Some i" for k' i
        using other [of k' i] none [of i] by (cases "k' = k") auto
      ultimately show ?thesis using dk by (simp add: mapping_of_def)
    next
      case (Some j)
      then have j: "owner_of ?ds k = Some j" using k by (simp add: owner_of_def)
      have "py_strip k = k" using document_key_stripped k(1) old by metis
      moreover have "i \<noteq> j" if "owns ?kept k' i" for k' i
      proof
        assume "i = j"
        from that none have "k' \<noteq> k" by blast
        from that kept obtain e where e: "e \<in> set ds" "has_key k' e" "dc_id e = i"
          by (auto simp: owner_of_Some)
        from j obtain f where f: "f \<in> set ds" "has_key k f" "dc_id f = j"
          by (auto simp: owner_of_Some drop_document_def)
        have "e = f" using key_unique [OF dist f(1) e(1)] e(3) f(3) \<open>i = j\<close> by simp
        with e(2) f(2) \<open>k' \<noteq> k\<close> show False by (simp add: has_key_def)
      qed
      ultimately have ok: "key_row_ok k j ?kept" using k none by (auto simp: key_row_ok_iff)
      then have rows: "?rows = ?kept @ [\<lparr>kr_key = k, kr_owner = j, kr_created_at = now\<rparr>]"
        using Some k rest by (simp add: pass_on_def usable_key_def insert_key_or_ignore_def insert_key_def)
      have "owns ?rows k' i \<longleftrightarrow> owner_of ?ds k' = Some i" for k' i
        using other [of k' i] none j by (cases "k' = k") (auto simp: rows)
      then show ?thesis using distinct_key_snoc [OF dk ok] rows by (simp add: mapping_of_def)
    qed
  qed
qed

section \<open>Refinement\<close>

text \<open>
  The specification: documents with distinct identifiers and no key table. It refuses an identifier
  that exists and a key that is already held, and nothing else.
\<close>

definition key_taken :: "document list \<Rightarrow> jvalue option \<Rightarrow> bool" where
  "key_taken ds md \<longleftrightarrow> (case document_key md of
      None \<Rightarrow> False | Some k \<Rightarrow> 0 < sql_length k \<and> held ds k)"

fun spec_step :: "document_event \<Rightarrow> document list \<Rightarrow> document list option" where
  "spec_step (InsertDocument d) ds =
     (if find_document (dc_id d) ds \<noteq> None \<or> key_taken ds (dc_metadata d) then None else Some (ds @ [d]))"
| "spec_step (SetMetadata i md) ds = (case find_document i ds of
      None \<Rightarrow> Some ds
    | Some d \<Rightarrow> if document_key md \<noteq> document_key (dc_metadata d) \<and> key_taken ds md then None
        else Some (set_metadata i md ds))"
| "spec_step (DeleteDocument i) ds = Some (drop_document i ds)"

definition spec_find :: "string \<Rightarrow> document list \<Rightarrow> int option" where
  "spec_find key ds = owner_of ds (py_strip key)"

definition registered :: "canonical_store \<Rightarrow> bool" where
  "registered cs \<longleftrightarrow> distinct (map dc_id (ca_documents cs)) \<and> mapping_of (ca_documents cs) (ca_keys cs)"

lemma find_document_None: "find_document i ds = None \<longleftrightarrow> i \<notin> dc_id ` set ds"
  by (auto simp: find_document_def fetch_one_None_iff)

lemma find_document_Some: "find_document i ds = Some d \<Longrightarrow> d \<in> set ds \<and> dc_id d = i"
  unfolding find_document_def by (drule fetch_one_Some_iff) simp

lemma distinct_set_metadata: "map dc_id (set_metadata i md ds) = map dc_id ds"
  by (simp add: set_metadata_def update_where_def)

lemma distinct_drop_document: "distinct (map dc_id ds) \<Longrightarrow> distinct (map dc_id (drop_document i ds))"
  by (simp add: drop_document_def distinct_map_filter)

lemma set_set_metadata:
  assumes "distinct (map dc_id ds)" and "d \<in> set ds"
  shows "set (set_metadata (dc_id d) md ds) =
    set (drop_document (dc_id d) ds @ [d\<lparr>dc_metadata := md\<rparr>])"
  using key_unique [OF assms] assms(2)
  by (auto simp: set_metadata_def drop_document_def update_where_def image_iff)

text \<open>An update that keeps the key.\<close>

lemma owner_of_same_key:
  assumes dist: "distinct (map dc_id ds)" and d: "d \<in> set ds"
    and same: "coalesce [] (document_key (dc_metadata d)) = coalesce [] (document_key md)"
  shows "owner_of (set_metadata (dc_id d) md ds) = owner_of ds"
proof (intro ext owner_of_eqI)
  fix k i
  have key: "has_key k (d\<lparr>dc_metadata := md\<rparr>) \<longleftrightarrow> has_key k d" if "0 < sql_length k"
    using same that
    by (cases "document_key (dc_metadata d)"; cases "document_key md") (auto simp: has_key_def)
  have "set (set_metadata (dc_id d) md ds) = insert (d\<lparr>dc_metadata := md\<rparr>) (set ds - {d})"
    using set_set_metadata [OF dist d] key_unique [OF dist d] by (auto simp: drop_document_def)
  then show "owner_of (set_metadata (dc_id d) md ds) k = Some i \<longleftrightarrow> owner_of ds k = Some i"
    using key d by (auto simp: owner_of_Some)
qed

lemma least_holder_after_update:
  assumes dist: "distinct (map dc_id ds)" and d: "d \<in> set ds" and "document_key md \<noteq> Some k"
  shows "least_holder (set_metadata (dc_id d) md ds) k = least_holder (drop_document (dc_id d) ds) k"
  by (rule option_eqI)
    (use assms(3) in \<open>auto simp: least_holder_Some set_set_metadata [OF dist d] has_key_def\<close>)

lemma update_trigger_same:
  "coalesce [] old = coalesce [] new \<Longrightarrow> update_trigger now i old new ds rows = Some rows"
  by (simp add: update_trigger_def)

lemma update_trigger_insert:
  assumes "coalesce [] old \<noteq> coalesce [] (document_key (dc_metadata d))"
  shows "update_trigger now (dc_id d) old (document_key (dc_metadata d)) ds rows =
    insert_trigger now d (pass_on now old ds (drop_owner (dc_id d) rows))"
  using assms
  by (cases "document_key (dc_metadata d)")
    (simp_all add: update_trigger_def insert_trigger_def usable_key_def Let_def)

lemma store_step_set:
  assumes reg: "registered cs" and found: "find_document i (ca_documents cs) = Some d"
  shows "case store_step now (SetMetadata i md) cs of
      None \<Rightarrow> spec_step (SetMetadata i md) (ca_documents cs) = None
    | Some cs' \<Rightarrow> spec_step (SetMetadata i md) (ca_documents cs) = Some (ca_documents cs') \<and> registered cs'"
proof -
  let ?ds = "ca_documents cs" and ?old = "document_key (dc_metadata d)" and ?new = "document_key md"
  let ?upd = "set_metadata i md ?ds" and ?d = "d\<lparr>dc_metadata := md\<rparr>"
  from reg have dist: "distinct (map dc_id ?ds)" and map: "mapping_of ?ds (ca_keys cs)"
    by (simp_all add: registered_def)
  from find_document_Some [OF found] have d: "d \<in> set ?ds" and i: "i = dc_id d" by simp_all
  show ?thesis
  proof (cases "coalesce [] ?old = coalesce [] ?new")
    case True
    have "?new = ?old \<or> \<not> key_taken ?ds md"
      using True by (cases ?new; cases ?old) (auto simp: key_taken_def)
    moreover have "mapping_of ?upd (ca_keys cs)"
      using map owner_of_same_key [OF dist d True] by (simp add: mapping_of_def i)
    ultimately show ?thesis
      using True found dist by (auto simp: update_trigger_same Let_def registered_def distinct_set_metadata)
  next
    case False
    let ?kept = "pass_on now ?old ?upd (drop_owner (dc_id d) (ca_keys cs))"
    let ?rest = "drop_document (dc_id d) ?ds"
    have kept: "mapping_of ?rest ?kept"
      by (rule pass_on_keeps [OF map dist d refl])
        (use False in \<open>auto simp: i intro!: least_holder_after_update [OF dist d]\<close>)
    have upd: "update_trigger now i ?old ?new ?upd (ca_keys cs) = insert_trigger now ?d ?kept"
      using update_trigger_insert [of ?old ?d now ?upd "ca_keys cs"] False by (simp add: i)
    have held: "held ?rest k \<longleftrightarrow> held ?ds k" if "?new = Some k" for k
    proof -
      have "\<not> has_key k d" using that False by (auto simp: has_key_def)
      then have "dc_id e \<noteq> dc_id d" if "e \<in> set ?ds" "has_key k e" for e
        using that key_unique [OF dist d] by blast
      then show ?thesis by (auto simp: held_def list_ex_iff drop_document_def)
    qed
    show ?thesis
    proof (cases "key_taken ?ds md")
      case True
      then obtain k where k: "?new = Some k" "0 < sql_length k" "held ?ds k"
        by (auto simp: key_taken_def split: option.splits)
      then have "held ?rest k" using held by blast
      then have "insert_trigger now ?d ?kept = None"
        using k by (intro insert_trigger_refused [OF kept]) (simp_all add: has_key_def)
      moreover have "?new \<noteq> ?old" using False by auto
      ultimately show ?thesis using True found upd by (simp add: Let_def)
    next
      case free: False
      have "\<exists>rows. insert_trigger now ?d ?kept = Some rows \<and> mapping_of (?rest @ [?d]) rows"
        by (rule insert_trigger_keeps [OF kept])
          (use free in \<open>auto simp: drop_document_def has_key_def key_taken_def held [symmetric]\<close>)
      then obtain rows where rows: "insert_trigger now ?d ?kept = Some rows" "mapping_of (?rest @ [?d]) rows"
        by blast
      have "mapping_of ?upd rows"
        using rows(2) mapping_of_cong [OF set_set_metadata [OF dist d, of md]] by (simp add: i)
      then show ?thesis
        using free found upd rows(1) dist by (auto simp: Let_def registered_def distinct_set_metadata)
    qed
  qed
qed

lemma store_step_insert:
  assumes reg: "registered cs"
  shows "case store_step now (InsertDocument d) cs of
      None \<Rightarrow> spec_step (InsertDocument d) (ca_documents cs) = None
    | Some cs' \<Rightarrow> spec_step (InsertDocument d) (ca_documents cs) = Some (ca_documents cs') \<and> registered cs'"
proof (cases "find_document (dc_id d) (ca_documents cs) = None")
  case True
  let ?ds = "ca_documents cs"
  from reg have dist: "distinct (map dc_id ?ds)" and map: "mapping_of ?ds (ca_keys cs)"
    by (simp_all add: registered_def)
  from True have new: "dc_id d \<notin> dc_id ` set ?ds" by (simp add: find_document_None)
  show ?thesis
  proof (cases "key_taken ?ds (dc_metadata d)")
    case taken: True
    then obtain k where "has_key k d" "0 < sql_length k" "held ?ds k"
      by (auto simp: key_taken_def has_key_def split: option.splits)
    from insert_trigger_refused [OF map this] taken True show ?thesis by simp
  next
    case False
    then have "\<exists>rows. insert_trigger now d (ca_keys cs) = Some rows \<and> mapping_of (?ds @ [d]) rows"
      by (intro insert_trigger_keeps [OF map new]) (auto simp: key_taken_def has_key_def)
    then obtain rows where "insert_trigger now d (ca_keys cs) = Some rows" "mapping_of (?ds @ [d]) rows"
      by blast
    with False True dist new show ?thesis by (simp add: registered_def)
  qed
qed simp

lemma store_step_delete:
  assumes reg: "registered cs"
  shows "\<exists>cs'. store_step now (DeleteDocument i) cs = Some cs' \<and>
    ca_documents cs' = drop_document i (ca_documents cs) \<and> registered cs'"
proof (cases "find_document i (ca_documents cs)")
  case None
  then have "drop_document i (ca_documents cs) = ca_documents cs"
    by (auto simp: find_document_None drop_document_def filter_id_conv)
  with None reg show ?thesis by simp
next
  case (Some d)
  from reg have dist: "distinct (map dc_id (ca_documents cs))"
    and map: "mapping_of (ca_documents cs) (ca_keys cs)" by (simp_all add: registered_def)
  from find_document_Some [OF Some] have d: "d \<in> set (ca_documents cs)" and i: "i = dc_id d" by simp_all
  from pass_on_keeps [OF map dist d refl, of "drop_document i (ca_documents cs)" now] Some dist
  show ?thesis by (simp add: registered_def delete_trigger_def distinct_drop_document Let_def i)
qed

section \<open>Runs\<close>

text \<open>A statement that fails leaves the store as it was.\<close>

definition try_steps :: "('e \<Rightarrow> 'c \<Rightarrow> 'c option) \<Rightarrow> 'e list \<Rightarrow> 'c \<Rightarrow> 'c" where
  "try_steps step es c = fold (\<lambda>e c. coalesce c (step e c)) es c"

locale simulation =
  fixes cstep :: "'e \<Rightarrow> 'c \<Rightarrow> 'c option" and astep :: "'e \<Rightarrow> 'a \<Rightarrow> 'a option"
    and abstract :: "'c \<Rightarrow> 'a" and inv :: "'c \<Rightarrow> bool"
  assumes refused: "inv c \<Longrightarrow> cstep e c = None \<Longrightarrow> astep e (abstract c) = None"
    and accepted: "inv c \<Longrightarrow> cstep e c = Some c' \<Longrightarrow> inv c' \<and> astep e (abstract c) = Some (abstract c')"
begin

lemma run: "inv c \<Longrightarrow> inv (try_steps cstep es c) \<and>
  abstract (try_steps cstep es c) = try_steps astep es (abstract c)"
proof (induction es arbitrary: c)
  case (Cons e es)
  show ?case
  proof (cases "cstep e c")
    case None
    with Cons.IH [OF Cons.prems] refused [OF Cons.prems None] show ?thesis by (simp add: try_steps_def)
  next
    case (Some c')
    from accepted [OF Cons.prems Some] have "inv c'" "astep e (abstract c) = Some (abstract c')"
      by simp_all
    with Some Cons.IH [of c'] show ?thesis by (simp add: try_steps_def)
  qed
qed (simp add: try_steps_def)

end

definition timed_step :: "real \<times> document_event \<Rightarrow> canonical_store \<Rightarrow> canonical_store option" where
  "timed_step e cs = store_step (fst e) (snd e) cs"

lemma timed_step_refines:
  assumes "registered cs"
  shows "case timed_step e cs of
      None \<Rightarrow> spec_step (snd e) (ca_documents cs) = None
    | Some cs' \<Rightarrow> spec_step (snd e) (ca_documents cs) = Some (ca_documents cs') \<and> registered cs'"
proof (cases "snd e")
  case (InsertDocument d)
  show ?thesis unfolding timed_step_def InsertDocument by (rule store_step_insert [OF assms])
next
  case (SetMetadata i md)
  show ?thesis
  proof (cases "find_document i (ca_documents cs)")
    case None
    with SetMetadata assms show ?thesis by (simp add: timed_step_def)
  next
    case (Some d)
    then show ?thesis unfolding timed_step_def SetMetadata by (rule store_step_set [OF assms])
  qed
next
  case (DeleteDocument i)
  with store_step_delete [OF assms, of "fst e" i] show ?thesis by (auto simp: timed_step_def)
qed

interpretation registry: simulation timed_step "\<lambda>e. spec_step (snd e)" ca_documents registered
proof
  fix c e assume "registered c" "timed_step e c = None"
  with timed_step_refines [of c e] show "spec_step (snd e) (ca_documents c) = None" by simp
next
  fix c e c' assume "registered c" "timed_step e c = Some c'"
  with timed_step_refines [of c e]
  show "registered c' \<and> spec_step (snd e) (ca_documents c) = Some (ca_documents c')" by simp
qed

section \<open>Lookups, validation and the rebuilt table\<close>

lemma mapping_row:
  assumes "mapping_of ds rows" and "r \<in> set rows"
  shows "owner_of ds (kr_key r) = Some (kr_owner r)"
  using assms by (auto simp: mapping_of_def owns_def)

lemma mapping_fetch:
  assumes m: "mapping_of ds rows"
  shows "map_option kr_owner (fetch_one (\<lambda>r. kr_key r = k) rows) = owner_of ds k"
proof (cases "fetch_one (\<lambda>r. kr_key r = k) rows")
  case None
  then have "\<not> owns rows k i" for i by (auto simp: fetch_one_None_iff owns_def)
  with m have "owner_of ds k = None" by (cases "owner_of ds k") (auto simp: mapping_of_def)
  with None show ?thesis by simp
next
  case (Some r)
  from fetch_one_Some_iff [OF Some] have "r \<in> set rows" "kr_key r = k" by simp_all
  with mapping_row [OF m] Some show ?thesis by auto
qed

lemma owner_exists: "owner_of ds k = Some i \<Longrightarrow> find_document i ds \<noteq> None"
  by (auto simp: find_document_None owner_of_Some)

lemma registered_find:
  assumes "registered cs"
  shows "find_canonical_memory_id_by_idempotency_key key cs = Inr (spec_find key (ca_documents cs))"
proof -
  from assms have m: "mapping_of (ca_documents cs) (ca_keys cs)" by (simp add: registered_def)
  show ?thesis
  proof (cases "fetch_one (\<lambda>r. kr_key r = py_strip key) (ca_keys cs)")
    case None
    with mapping_fetch [OF m, of "py_strip key"] show ?thesis
      by (simp add: find_canonical_memory_id_by_idempotency_key_def spec_find_def Let_def)
  next
    case (Some r)
    with mapping_fetch [OF m, of "py_strip key"]
    have own: "owner_of (ca_documents cs) (py_strip key) = Some (kr_owner r)" by simp
    then have "py_strip key \<noteq> []" by (auto simp: owner_of_def)
    with owner_exists [OF own] own Some show ?thesis
      by (simp add: find_canonical_memory_id_by_idempotency_key_def spec_find_def Let_def)
  qed
qed

text \<open>Rebuilding: no statement fails, and the result is the table the triggers would have built.\<close>

definition key_row_of :: "real \<Rightarrow> string \<times> int \<Rightarrow> key_row" where
  "key_row_of now ki = \<lparr>kr_key = fst ki, kr_owner = snd ki, kr_created_at = now\<rparr>"

lemma insert_all_Some:
  assumes "distinct (map fst kis)" and "distinct (map snd kis)"
    and "\<forall>ki \<in> set kis. 0 < sql_length (fst ki) \<and> py_strip (fst ki) = fst ki"
    and "\<forall>ki \<in> set kis. \<forall>r \<in> set rows. kr_key r \<noteq> fst ki \<and> kr_owner r \<noteq> snd ki"
  shows "insert_all now kis rows = Some (rows @ map (key_row_of now) kis)"
  using assms
proof (induction now kis rows rule: insert_all.induct)
  case (2 now k i kis rows)
  let ?r = "\<lparr>kr_key = k, kr_owner = i, kr_created_at = now\<rparr>"
  have "key_row_ok k i rows" using "2.prems" by (auto simp: key_row_ok_def list_ex_iff)
  then have ins: "insert_key now k i rows = Some (rows @ [?r])" by (simp add: insert_key_def)
  have "insert_all now kis (rows @ [?r]) = Some ((rows @ [?r]) @ map (key_row_of now) kis)"
    by (rule "2.IH" [OF ins]) (use "2.prems" in \<open>auto simp: image_iff\<close>)
  with ins show ?case by (simp add: key_row_of_def)
qed simp

lemma usable_keys_iff: "k \<in> set (usable_keys ds) \<longleftrightarrow> 0 < sql_length k \<and> held ds k"
  by (force simp: usable_keys_def List.map_filter_def held_def list_ex_iff has_key_def)

lemma key_owners_iff: "(k, i) \<in> set (key_owners ds) \<longleftrightarrow> owner_of ds k = Some i"
proof
  assume "(k, i) \<in> set (key_owners ds)"
  then have "0 < sql_length k" "held ds k" "i = coalesce 0 (least_holder ds k)"
    by (auto simp: key_owners_def usable_keys_iff)
  then show "owner_of ds k = Some i" by (cases "least_holder ds k") (simp_all add: owner_of_def)
next
  assume a: "owner_of ds k = Some i"
  then have l: "least_holder ds k = Some i" and u: "0 < sql_length k"
    by (simp_all add: owner_of_def split: if_splits)
  then have "held ds k" using least_holder_None [of ds k] by simp
  with u have "k \<in> set (usable_keys ds)" by (simp add: usable_keys_iff)
  with l show "(k, i) \<in> set (key_owners ds)" by (force simp: key_owners_def)
qed

lemma key_owners_distinct:
  assumes "distinct (map dc_id ds)"
  shows "distinct (map fst (key_owners ds))" "distinct (map snd (key_owners ds))"
proof -
  show keys: "distinct (map fst (key_owners ds))" by (simp add: key_owners_def comp_def)
  have "p = q" if p: "p \<in> set (key_owners ds)" and q: "q \<in> set (key_owners ds)" and s: "snd p = snd q" for p q
  proof -
    obtain k i l where pq: "p = (k, i)" "q = (l, i)" using s by (cases p; cases q) auto
    with p q have "owner_of ds k = Some i" "owner_of ds l = Some i" by (simp_all add: key_owners_iff)
    then obtain d e where "d \<in> set ds" "has_key k d" "dc_id d = i" "e \<in> set ds" "has_key l e" "dc_id e = i"
      by (auto simp: owner_of_Some)
    with key_unique [OF assms, of d e] pq show ?thesis by (simp add: has_key_def)
  qed
  moreover have "distinct (key_owners ds)" using keys by (simp add: distinct_map)
  ultimately show "distinct (map snd (key_owners ds))" by (auto simp: distinct_map inj_on_def)
qed

lemma rebuild_rows:
  assumes "distinct (map dc_id ds)"
  shows "insert_all now (key_owners ds) [] = Some (map (key_row_of now) (key_owners ds))"
proof -
  have "0 < sql_length (fst ki) \<and> py_strip (fst ki) = fst ki" if "ki \<in> set (key_owners ds)" for ki
  proof -
    from that have "owner_of ds (fst ki) = Some (snd ki)" by (simp add: key_owners_iff [symmetric])
    then show ?thesis using document_key_stripped by (auto simp: owner_of_Some has_key_def)
  qed
  then show ?thesis
    using insert_all_Some [of "key_owners ds" "[]" now] key_owners_distinct [OF assms] by simp
qed

lemma rebuilt_mapping:
  assumes "distinct (map dc_id ds)"
  shows "mapping_of ds (map (key_row_of now) (key_owners ds))"
proof -
  have "owns (map (key_row_of now) (key_owners ds)) k i \<longleftrightarrow> owner_of ds k = Some i" for k i
    by (force simp: owns_def key_row_of_def key_owners_iff [symmetric])
  then show ?thesis
    using key_owners_distinct(1) [OF assms] by (simp add: mapping_of_def key_row_of_def comp_def)
qed

lemma registered_valid:
  assumes "registered cs"
  shows "validate_canonical_idempotency_mapping cs"
proof -
  from assms have m: "mapping_of (ca_documents cs) (ca_keys cs)" and dist: "distinct (map dc_id (ca_documents cs))"
    by (simp_all add: registered_def)
  have "\<not> invalid_mapping (ca_documents cs) r" if "r \<in> set (ca_keys cs)" for r
  proof -
    from mapping_row [OF m that] obtain d where d: "d \<in> set (ca_documents cs)" "has_key (kr_key r) d"
      "dc_id d = kr_owner r" by (auto simp: owner_of_Some)
    have "find_document (kr_owner r) (ca_documents cs) = Some d"
      using fetch_one_key [OF dist d(1)] d(3) by (simp add: find_document_def)
    with d(2) show ?thesis by (simp add: invalid_mapping_def has_key_def)
  qed
  moreover have "\<not> missing_or_wrong_owner (ca_keys cs) ki" if "ki \<in> set (key_owners (ca_documents cs))" for ki
  proof -
    from that have "owner_of (ca_documents cs) (fst ki) = Some (snd ki)" by (simp add: key_owners_iff [symmetric])
    with mapping_fetch [OF m, of "fst ki"] show ?thesis
      by (auto simp: missing_or_wrong_owner_def split: option.splits)
  qed
  ultimately show ?thesis by (auto simp: validate_canonical_idempotency_mapping_def list_ex_iff)
qed

text \<open>The conflict table keeps the latest entry of each key and duplicate.\<close>

lemma replace_conflict_mem: "c \<in> set cs \<Longrightarrow> \<not> same_conflict x c \<Longrightarrow> c \<in> set (replace_conflict x cs)"
  by (simp add: replace_conflict_def)

lemma fold_replace_keeps:
  "c \<in> set cs \<Longrightarrow> (\<forall>x \<in> set xs. \<not> same_conflict x c) \<Longrightarrow> c \<in> set (fold replace_conflict xs cs)"
  by (induction xs arbitrary: cs) (auto intro: replace_conflict_mem)

lemma fold_replace_adds:
  "distinct (map kc_duplicate xs) \<Longrightarrow> c \<in> set xs \<Longrightarrow> c \<in> set (fold replace_conflict xs cs)"
proof (induction xs arbitrary: cs)
  case (Cons x xs)
  show ?case
  proof (cases "c = x")
    case True
    have "\<forall>y \<in> set xs. \<not> same_conflict y x"
      using Cons.prems(1) by (auto simp: same_conflict_def) (metis image_eqI)
    then have "x \<in> set (fold replace_conflict xs (replace_conflict x cs))"
      by (intro fold_replace_keeps) (simp_all add: replace_conflict_def)
    with True show ?thesis by simp
  qed (use Cons in simp)
qed simp

lemma rebuild_spec:
  assumes dist: "distinct (map dc_id (ca_documents cs))"
  shows "\<exists>cs'. rebuild_canonical_idempotency_mapping now cs = Some cs' \<and> registered cs' \<and>
    ca_documents cs' = ca_documents cs \<and>
    (\<forall>d \<in> set (ca_documents cs). non_owner (ca_documents cs) d \<longrightarrow>
       conflict_of now (ca_documents cs) d \<in> set (ca_conflicts cs'))"
proof -
  let ?ds = "ca_documents cs"
  have dup: "map (kc_duplicate \<circ> conflict_of now ?ds) xs = map dc_id xs" for xs
    by (simp add: conflict_of_def Let_def)
  have "distinct (map kc_duplicate (map (conflict_of now ?ds) (filter (non_owner ?ds) ?ds)))"
    using dist by (simp add: dup distinct_map_filter)
  from fold_replace_adds [OF this] rebuild_rows [OF dist] rebuilt_mapping [OF dist] dist show ?thesis
    by (auto simp: rebuild_canonical_idempotency_mapping_def Let_def registered_def)
qed

end
