(* ===== verification/Memory_Writes.thy ===== *)
theory Memory_Writes
  imports Canonical_Registry Summary_Claims
begin

text \<open>
  Writing a memory (\<open>memory_engine_idempotency.py\<close>) with its write-ahead journal
  (\<open>write_op_journal.py\<close>). A summary worker writes its memory as a staged document that nobody recalls;
  only when the claim behind it is still valid is the document accepted, by a compare-and-set in one
  transaction. A write with an idempotency key returns the owner of the key if there is one.
\<close>

section \<open>The journal\<close>

record write_op =
  jo_id :: int
  jo_type :: string
  jo_memory_id :: "int option"
  jo_status :: string
  jo_step :: string
  jo_payload :: "metadata option"
  jo_error :: "string option"
  jo_retry_count :: int
  jo_created_at :: real
  jo_updated_at :: real

text \<open>\<open>en_next_op\<close> is SQLite's AUTOINCREMENT counter.\<close>

record engine =
  en_connected :: bool
  en_store :: canonical_store
  en_ops :: "write_op list"
  en_next_op :: int

abbreviation en_documents :: "engine \<Rightarrow> document list" where
  "en_documents en \<equiv> ca_documents (en_store en)"

definition dict_update :: "metadata \<Rightarrow> metadata \<Rightarrow> metadata" where
  "dict_update m patch = fold (\<lambda>(k, v). AList.update k v) patch m"

definition start_op :: "real \<Rightarrow> string \<Rightarrow> metadata \<Rightarrow> int option \<Rightarrow> engine \<Rightarrow> engine \<times> int option" where
  "start_op now op_type payload memory_id en =
     (if \<not> en_connected en then (en, None)
      else (en\<lparr>en_ops := en_ops en @ [\<lparr>jo_id = en_next_op en, jo_type = op_type, jo_memory_id = memory_id,
              jo_status = ''pending'', jo_step = ''started'', jo_payload = Some payload, jo_error = None,
              jo_retry_count = 0, jo_created_at = now, jo_updated_at = now\<rparr>],
              en_next_op := en_next_op en + 1\<rparr>, Some (en_next_op en)))"

definition advance_row ::
  "real \<Rightarrow> string \<Rightarrow> string \<Rightarrow> int option \<Rightarrow> string option \<Rightarrow> metadata \<Rightarrow> write_op \<Rightarrow> write_op" where
  "advance_row now step status memory_id error patch r =
     (let err = (if status = ''completed'' then None else error) in
      r\<lparr>jo_status := status, jo_step := step, jo_updated_at := now,
        jo_memory_id := (if memory_id = None then jo_memory_id r else memory_id),
        jo_error := (if status = ''completed'' then None
          else if err = None then jo_error r else map_option (take 1000) err),
        jo_retry_count := jo_retry_count r + (if err \<noteq> None then 1 else 0),
        jo_payload := (if patch = [] then jo_payload r
          else Some (dict_update (coalesce [] (jo_payload r)) patch))\<rparr>)"

definition advance_op ::
  "real \<Rightarrow> int option \<Rightarrow> string \<Rightarrow> string \<Rightarrow> int option \<Rightarrow> string option \<Rightarrow> metadata \<Rightarrow> engine \<Rightarrow> engine" where
  "advance_op now op_id step status memory_id error patch en =
     (if op_id = None \<or> \<not> en_connected en then en
      else en\<lparr>en_ops := update_where (\<lambda>r. Some (jo_id r) = op_id)
             (advance_row now step status memory_id error patch) (en_ops en)\<rparr>)"

text \<open>The open add operation of a memory: the last one that is pending or needs repair.\<close>

definition open_add :: "int \<Rightarrow> write_op \<Rightarrow> bool" where
  "open_add i r \<longleftrightarrow> jo_memory_id r = Some i \<and> jo_type r = ''add'' \<and>
     jo_status r \<in> {''pending'', ''needs_repair''}"

definition last_open_add :: "int \<Rightarrow> engine \<Rightarrow> write_op option" where
  "last_open_add i en = first_row (sort_key (\<lambda>r. - jo_id r) (filter (open_add i) (en_ops en)))"

definition find_open_add_op :: "int \<Rightarrow> engine \<Rightarrow> write_op option" where
  "find_open_add_op i en = (if en_connected en then last_open_add i en else None)"

definition source_acceptance_allows_derivation :: "metadata option \<Rightarrow> bool" where
  "source_acceptance_allows_derivation md \<longleftrightarrow> (case md of None \<Rightarrow> True
    | Some m \<Rightarrow> \<not> list_ex (\<lambda>f. truthy (jget m f))
        [''summary_source_orphan'', ''summary_source_pending'', ''replacement_pending''])"

section \<open>Source metadata\<close>

text \<open>
  Python's \<open>str\<close> of a decoded value; \<open>repr\<close> is the text of floats and containers. The opaque token of a
  fence is the digest of its epoch, generation and claim token.
\<close>

fun text_of :: "(jvalue \<Rightarrow> string) \<Rightarrow> jvalue \<Rightarrow> string" where
  "text_of repr JNull = ''None''"
| "text_of repr (JBool b) = (if b then ''True'' else ''False'')"
| "text_of repr (JInt n) = show_int n"
| "text_of repr (JText t) = t"
| "text_of repr v = repr v"

definition opaque_token :: "host \<Rightarrow> source_fence \<Rightarrow> string" where
  "opaque_token h f = ho_sha h (show_int (fn_session_epoch f) @ '':'' @
     show_int (fn_worker_generation f) @ '':'' @ fn_claim_token f)"

definition optional_text :: "string option \<Rightarrow> jvalue" where
  "optional_text t = (case t of None \<Rightarrow> JNull | Some s \<Rightarrow> JText s)"

text \<open>The metadata of a staged document (the first part of \<open>add_memory\<close>).\<close>

definition scope_entries :: "source_fence \<Rightarrow> metadata" where
  "scope_entries f = [(''scope_key'', optional_text (fn_scope_key f)),
     (''privacy_level'', optional_text (fn_privacy_level f)),
     (''resolver_revision'', optional_text (fn_resolver_revision f))]"

definition stage_summary_source :: "host \<Rightarrow> source_fence \<Rightarrow> metadata \<Rightarrow> metadata result" where
  "stage_summary_source h f m =
     (let m1 = dict_update m [(''source_epoch'', JInt (fn_session_epoch f)),
            (''source_digest'', JText (fn_source_digest f)),
            (''source_fence_generation'', JInt (fn_worker_generation f)),
            (''source_fence'', JText (opaque_token h f)),
            (''summary_source_orphan'', JBool True), (''summary_source_pending'', JBool True)] in
      if has_exact_scope f then
        (if list_all (\<lambda>(k, v). jget m1 k = JNull \<or> jget m1 k = v) (scope_entries f)
         then Inr (AList.update ''source_provenance_complete'' (JBool True) (dict_update m1 (scope_entries f)))
         else Inl (RuntimeError ''summary_scope_mismatch''))
      else Inr (AList.update ''source_provenance_complete'' (JBool False)
             (fold AList.delete [''scope_key'', ''privacy_level'', ''resolver_revision''] m1)))"

definition is_summary_source_accepted :: "metadata \<Rightarrow> bool" where
  "is_summary_source_accepted m \<longleftrightarrow>
     \<not> truthy (jget m ''summary_source_orphan'') \<and> \<not> truthy (jget m ''summary_source_pending'')"

definition matches_accepted_source ::
  "host \<Rightarrow> (jvalue \<Rightarrow> string) \<Rightarrow> metadata \<Rightarrow> source_fence \<Rightarrow> bool" where
  "matches_accepted_source h repr m f \<longleftrightarrow>
     list_all (\<lambda>(k, expected). jget m k \<noteq> JNull \<and> text_of repr (jget m k) = expected)
       [(''source_epoch'', show_int (fn_session_epoch f)), (''source_digest'', fn_source_digest f),
        (''source_fence_generation'', show_int (fn_worker_generation f)),
        (''source_fence'', opaque_token h f)] \<and>
     (has_exact_scope f \<longrightarrow>
        list_all (\<lambda>(k, v). jget m k = JNull \<or> text_of repr (jget m k) = text_of repr v) (scope_entries f))"

text \<open>\<open>_load_summary_source_metadata\<close> and the acceptance query.\<close>

definition load_summary_source_metadata :: "int \<Rightarrow> engine \<Rightarrow> metadata option" where
  "load_summary_source_metadata i en = (case find_document i (en_documents en) of
      None \<Rightarrow> None
    | Some d \<Rightarrow> (case dc_metadata d of
        None \<Rightarrow> None | Some (JObject m) \<Rightarrow> Some m | Some _ \<Rightarrow> Some []))"

definition is_memory_source_accepted :: "int \<Rightarrow> engine \<Rightarrow> bool" where
  "is_memory_source_accepted i en = (case load_summary_source_metadata i en of
      None \<Rightarrow> False | Some m \<Rightarrow> is_summary_source_accepted m)"

section \<open>Compare and set\<close>

definition source_state_update :: "bool \<Rightarrow> metadata \<Rightarrow> metadata" where
  "source_state_update orphan m =
     AList.update ''summary_source_pending'' (JBool False)
       (AList.update ''summary_source_orphan'' (JBool orphan) m)"

definition fence_recorded :: "host \<Rightarrow> (jvalue \<Rightarrow> string) \<Rightarrow> source_fence option \<Rightarrow> metadata \<Rightarrow> bool" where
  "fence_recorded h repr fence m \<longleftrightarrow> (case fence of None \<Rightarrow> True
    | Some f \<Rightarrow> jget m ''source_fence'' \<noteq> JNull \<and> text_of repr (jget m ''source_fence'') = opaque_token h f)"

definition apply_summary_source_state ::
  "host \<Rightarrow> (jvalue \<Rightarrow> string) \<Rightarrow> real \<Rightarrow> int \<Rightarrow> bool \<Rightarrow> string option \<Rightarrow> source_fence option \<Rightarrow> bool \<Rightarrow>
   engine \<Rightarrow> engine \<times> bool" where
  "apply_summary_source_state h repr now i orphan op_step fence require_pending en =
     (case find_document i (en_documents en) of
        None \<Rightarrow> (en, False)
      | Some d \<Rightarrow> (case dc_metadata d of
          Some (JObject m) \<Rightarrow>
            if \<not> fence_recorded h repr fence m \<or>
               (require_pending \<and> \<not> truthy (jget m ''summary_source_pending''))
            then (en, False)
            else (case store_step now (SetMetadata i (Some (JObject (source_state_update orphan m)))) (en_store en) of
                None \<Rightarrow> (en, False)
              | Some cs \<Rightarrow>
                 (en\<lparr>en_store := cs, en_ops := (case op_step of
                      None \<Rightarrow> en_ops en
                    | Some s \<Rightarrow> (case last_open_add i en of
                        None \<Rightarrow> en_ops en
                      | Some op \<Rightarrow> update_where (\<lambda>r. jo_id r = jo_id op)
                          (\<lambda>r. r\<lparr>jo_step := s, jo_updated_at := now\<rparr>) (en_ops en)))\<rparr>, True))
        | _ \<Rightarrow> (en, False)))"

definition write_summary_source_state ::
  "host \<Rightarrow> (jvalue \<Rightarrow> string) \<Rightarrow> real \<Rightarrow> int \<Rightarrow> bool \<Rightarrow> string option \<Rightarrow> source_fence option \<Rightarrow> bool \<Rightarrow>
   engine \<Rightarrow> engine \<times> bool" where
  "write_summary_source_state h repr now i orphan op_step fence require_pending en =
     (if \<not> en_connected en then (en, False)
      else apply_summary_source_state h repr now i orphan op_step fence require_pending en)"

definition set_summary_source_orphan ::
  "host \<Rightarrow> (jvalue \<Rightarrow> string) \<Rightarrow> real \<Rightarrow> int \<Rightarrow> bool \<Rightarrow> source_fence option \<Rightarrow> engine \<Rightarrow> engine \<times> bool" where
  "set_summary_source_orphan h repr now i orphan fence en =
     write_summary_source_state h repr now i orphan None fence (fence \<noteq> None) en"

definition activate_summary_source ::
  "host \<Rightarrow> (jvalue \<Rightarrow> string) \<Rightarrow> real \<Rightarrow> int \<Rightarrow> source_fence \<Rightarrow> engine \<Rightarrow> engine \<times> bool" where
  "activate_summary_source h repr now i f en =
     write_summary_source_state h repr now i False (Some ''derived_pending'') (Some f) True en"

definition reject_summary_source_op :: "real \<Rightarrow> int \<Rightarrow> engine \<Rightarrow> engine" where
  "reject_summary_source_op now i en = (case find_open_add_op i en of
      None \<Rightarrow> en
    | Some op \<Rightarrow> advance_op now (Some (jo_id op)) ''source_rejected'' ''failed'' (Some i)
        (Some ''summary_source_fenced'') [] en)"

text \<open>
  \<open>_accept_summary_source_write\<close> up to the derivations that follow an activation; the answer says
  whether they are due. The document is first read in \<open>seen\<close>, the fence is checked against the summary
  store \<open>st\<close>, and the write meets the engine \<open>en\<close>, which others may have changed in between.
\<close>

definition accept_summary_source_write ::
  "host \<Rightarrow> (jvalue \<Rightarrow> string) \<Rightarrow> real \<Rightarrow> int \<Rightarrow> source_fence \<Rightarrow> store \<Rightarrow> real \<Rightarrow> engine \<Rightarrow> engine \<Rightarrow>
   engine \<times> bool result" where
  "accept_summary_source_write h repr now i f st mnow seen en =
     (let md = load_summary_source_metadata i seen in
      if (case md of None \<Rightarrow> False | Some m \<Rightarrow> is_summary_source_accepted m)
      then (if matches_accepted_source h repr (coalesce [] md) f then (en, Inr False)
            else (en, Inl (RuntimeError ''summary_source_mismatch'')))
      else if \<not> summary_source_fence_is_active f mnow st
      then (let r = set_summary_source_orphan h repr now i True (Some f) en in
            (if snd r then reject_summary_source_op now i (fst r) else fst r,
             Inl (RuntimeError ''summary_source_fenced'')))
      else if md = None then (en, Inl (RuntimeError ''summary_source_activation_failed''))
      else (let r = activate_summary_source h repr now i f en in
            if snd r then (fst r, Inr True)
            else (case load_summary_source_metadata i (fst r) of
                Some m \<Rightarrow> if is_summary_source_accepted m \<and> matches_accepted_source h repr m f
                  then (fst r, Inr False)
                  else (fst r, Inl (RuntimeError ''summary_source_activation_failed''))
              | None \<Rightarrow> (fst r, Inl (RuntimeError ''summary_source_activation_failed'')))))"

section \<open>The document stage\<close>

definition canonical_idempotency_key :: "(jvalue \<Rightarrow> string) \<Rightarrow> metadata option \<Rightarrow> string" where
  "canonical_idempotency_key repr md = (case md of None \<Rightarrow> []
    | Some m \<Rightarrow> (let v = jget m ''idempotency_key'' in
        if truthy v then py_strip (text_of repr v) else []))"

definition find_memory_id_by_idempotency_key :: "string \<Rightarrow> engine \<Rightarrow> int option result" where
  "find_memory_id_by_idempotency_key key en =
     (if en_connected en then find_canonical_memory_id_by_idempotency_key key (en_store en) else Inr None)"

definition find_memory_id_by_merged_idempotency_key ::
  "json_host \<Rightarrow> string \<Rightarrow> engine \<Rightarrow> int option result" where
  "find_memory_id_by_merged_idempotency_key jh key en =
     (if en_connected en then find_canonical_memory_id_by_merged_idempotency_key jh key (en_store en)
      else Inr None)"

definition recover_idempotent_write_owner ::
  "(jvalue \<Rightarrow> string) \<Rightarrow> real \<Rightarrow> int option \<Rightarrow> metadata option \<Rightarrow> engine \<Rightarrow> engine \<times> int option" where
  "recover_idempotent_write_owner repr now op_id md en =
     (let key = canonical_idempotency_key repr md in
      if key = [] then (en, None)
      else (case find_memory_id_by_idempotency_key key en of
          Inr (Some i) \<Rightarrow> (advance_op now op_id ''completed'' ''completed'' (Some i) None
              [(''memory_id'', JInt i)] en, Some i)
        | _ \<Rightarrow> (en, None)))"

text \<open>
  What the vector store does with a document: it fails before it reaches the document table, the table
  fails, or the table draws an identifier. \<open>wr_staged\<close> tells whether row and indexes are written in
  separate steps, \<open>wr_degraded\<close> whether an index then fails; \<open>wr_repr\<close> is Python's text of floats and
  containers, and \<open>wr_payload\<close> the journal payload that the caller prepared.
\<close>

datatype insert_attempt = NotReached | TableFailed | Drew int

record write_call =
  wr_repr :: "jvalue \<Rightarrow> string"
  wr_now :: real
  wr_staged :: bool
  wr_degraded :: bool
  wr_uuid :: string
  wr_digest :: string
  wr_attempt :: insert_attempt
  wr_content :: string
  wr_payload :: metadata
  wr_session :: "string option"
  wr_persona :: "string option"
  wr_importance :: real

definition insert_document :: "write_call \<Rightarrow> metadata \<Rightarrow> canonical_store \<Rightarrow> (int \<times> canonical_store) option" where
  "insert_document w full cs = (case wr_attempt w of
      Drew i \<Rightarrow> map_option (Pair i) (store_step (wr_now w) (InsertDocument
        \<lparr>dc_id = i, dc_text = wr_content w, dc_metadata = Some (JObject full)\<rparr>) cs)
    | _ \<Rightarrow> None)"

definition note_intent :: "write_call \<Rightarrow> int option \<Rightarrow> engine \<Rightarrow> engine" where
  "note_intent w op_id en =
     (if wr_staged w \<and> wr_attempt w \<noteq> NotReached
      then advance_op (wr_now w) op_id ''document_intent'' ''pending'' None None
        [(''pending_doc_id'', JText (wr_uuid w))] en
      else en)"

definition note_committed :: "write_call \<Rightarrow> int option \<Rightarrow> int \<Rightarrow> engine \<Rightarrow> engine" where
  "note_committed w op_id i en =
     (let en1 = advance_op (wr_now w) op_id ''documents_committed'' ''pending'' (Some i) None
          [(''memory_id'', JInt i), (''content_digest'', JText (wr_digest w)),
           (''content_preview'', JText (take 500 (wr_content w))), (''indexes_pending'', JBool (wr_staged w))] en;
          bad = wr_degraded w in
      if \<not> wr_staged w then advance_op (wr_now w) op_id ''document_indexed'' ''pending'' (Some i) None [] en1
      else advance_op (wr_now w) op_id (if bad then ''index_stage_degraded'' else ''document_indexed'')
        (if bad then ''needs_repair'' else ''pending'') (Some i)
        (if bad then Some ''index_stage_degraded'' else None) [(''indexes_pending'', JBool bad)] en1)"

definition write_document_stage ::
  "write_call \<Rightarrow> int option \<Rightarrow> metadata \<Rightarrow> metadata option \<Rightarrow> engine \<Rightarrow> engine \<times> (int \<times> bool \<times> bool) result" where
  "write_document_stage w op_id full md en =
     (let en1 = note_intent w op_id en in
      case insert_document w full (en_store en1) of
        Some (i, cs) \<Rightarrow> (note_committed w op_id i (en1\<lparr>en_store := cs\<rparr>),
          Inr (i, False, wr_staged w \<and> wr_degraded w))
      | None \<Rightarrow> (let r = recover_idempotent_write_owner (wr_repr w) (wr_now w) op_id md en1 in
          case snd r of
            Some i \<Rightarrow> (fst r, Inr (i, True, False))
          | None \<Rightarrow> (advance_op (wr_now w) op_id ''document_failed'' ''failed'' None
                (Some ''canonical_write_failed'') [] (fst r),
              Inl (RuntimeError ''canonical_write_failed''))))"

text \<open>The stored metadata: session, persona, clamped importance and times around the caller's entries.\<close>

definition full_metadata :: "write_call \<Rightarrow> metadata \<Rightarrow> metadata" where
  "full_metadata w m =
     (let m1 = dict_update [(''session_id'', optional_text (wr_session w)),
            (''persona_id'', optional_text (wr_persona w)),
            (''importance'', JReal (max 0 (min 1 (wr_importance w)))),
            (''create_time'', JReal (wr_now w)), (''last_access_time'', JReal (wr_now w))] m;
          m2 = dict_update m1 [(''create_time'', JReal (wr_now w)), (''last_access_time'', JReal (wr_now w))] in
      case jget m2 ''topics'' of
        JList _ \<Rightarrow> AList.update ''topic_observed_at'' (JReal (wr_now w)) m2
      | _ \<Rightarrow> m2)"

text \<open>
  The canonical part of \<open>add_memory\<close>: find the owner of the key, else journal the write and insert.
\<close>

definition add_canonical :: "write_call \<Rightarrow> metadata \<Rightarrow> engine \<Rightarrow> engine \<times> int result" where
  "add_canonical w md en =
     (let key = canonical_idempotency_key (wr_repr w) (Some md);
          m = (if key = [] then md else AList.update ''idempotency_key'' (JText key) md) in
      case (if key = [] then Inr None else find_memory_id_by_idempotency_key key en) of
        Inl e \<Rightarrow> (en, Inl e)
      | Inr (Some i) \<Rightarrow> (en, Inr i)
      | Inr None \<Rightarrow>
          if py_strip (wr_content w) = [] then (en, Inl (ValueError ''empty content''))
          else (let s = start_op (wr_now w) ''add'' (wr_payload w) None en;
                    r = write_document_stage w (snd s) (full_metadata w m) (Some m) (fst s) in
                (fst r, (case snd r of Inl e \<Rightarrow> Inl e | Inr out \<Rightarrow> Inr (fst out)))))"

text \<open>
  \<open>add_memory\<close> itself. The fence is validated against the summary store \<open>st0\<close> before anything is written,
  and again, against \<open>st1\<close>, before the memory is accepted. \<open>later\<close> and \<open>meanwhile\<close> are what the atom and
  graph stages and other tasks do to the engine before the acceptance reads it, and before it writes.
\<close>

definition validate_summary_source_fence :: "source_fence \<Rightarrow> real \<Rightarrow> store \<Rightarrow> unit result" where
  "validate_summary_source_fence f now st =
     guard_result (summary_source_fence_is_active f now st) (RuntimeError ''summary_source_fenced'')"

definition add_memory ::
  "host \<Rightarrow> write_call \<Rightarrow> source_fence option \<Rightarrow> real \<Rightarrow> store \<Rightarrow> real \<Rightarrow> store \<Rightarrow> (engine \<Rightarrow> engine) \<Rightarrow>
   (engine \<Rightarrow> engine) \<Rightarrow> metadata \<Rightarrow> engine \<Rightarrow> engine \<times> int result" where
  "add_memory h w fence t0 st0 t1 st1 later meanwhile md en =
     (case fence of
        None \<Rightarrow> add_canonical w md en
      | Some f \<Rightarrow>
          (case bind_result (validate_summary_source_fence f t0 st0) (\<lambda>_. stage_summary_source h f md) of
             Inl e \<Rightarrow> (en, Inl e)
           | Inr m \<Rightarrow>
               (let r = add_canonical w m en in
                case snd r of
                  Inl e \<Rightarrow> r
                | Inr i \<Rightarrow>
                    (let seen = later (fst r);
                         a = accept_summary_source_write h (wr_repr w) (wr_now w) i f st1 t1 seen (meanwhile seen) in
                     (fst a, (case snd a of Inl e \<Rightarrow> Inl e | Inr due \<Rightarrow> Inr i))))))"

section \<open>The journal keeps the documents\<close>

lemma advance_op_frame [simp]:
  "en_store (advance_op now op_id step status mid e patch en) = en_store en"
  "en_connected (advance_op now op_id step status mid e patch en) = en_connected en"
  by (simp_all add: advance_op_def)

lemma journal_frames [simp]:
  "en_store (fst (start_op now t p mid en)) = en_store en"
  "en_connected (fst (start_op now t p mid en)) = en_connected en"
  "en_store (note_intent w op_id en) = en_store en"
  "en_connected (note_intent w op_id en) = en_connected en"
  "en_store (note_committed w op_id i en) = en_store en"
  "en_store (reject_summary_source_op now i en) = en_store en"
  "en_store (fst (recover_idempotent_write_owner repr now op_id md en)) = en_store en"
  by (auto simp: start_op_def note_intent_def note_committed_def Let_def reject_summary_source_op_def
      recover_idempotent_write_owner_def split: option.splits sum.splits)

section \<open>Acceptance\<close>

text \<open>The metadata of one document, and what a state write can do to it.\<close>

definition object_of :: "int \<Rightarrow> engine \<Rightarrow> metadata option" where
  "object_of i en = (case find_document i (en_documents en) of
      None \<Rightarrow> None | Some d \<Rightarrow> (case dc_metadata d of Some (JObject m) \<Rightarrow> Some m | _ \<Rightarrow> None))"

lemma find_set_metadata:
  "find_document i (set_metadata i md ds) =
     map_option (\<lambda>d. d\<lparr>dc_metadata := md\<rparr>) (find_document i ds)"
  by (induction ds) (auto simp: find_document_def fetch_one_def set_metadata_def update_where_def)

lemma store_step_set_documents:
  "store_step now (SetMetadata i md) cs = Some cs' \<Longrightarrow> find_document i (ca_documents cs) \<noteq> None \<Longrightarrow>
     ca_documents cs' = set_metadata i md (ca_documents cs)"
  by (auto simp: Let_def split: option.splits)

lemma apply_state_cases:
  assumes "apply_summary_source_state h repr now i orphan op_step fence pend en = (en', ok)"
  obtains (refused) "\<not> ok" "en' = en"
  | (written) m where "ok" "object_of i en = Some m" "fence_recorded h repr fence m"
      "pend \<longrightarrow> truthy (jget m ''summary_source_pending'')"
      "object_of i en' = Some (source_state_update orphan m)"
proof -
  show ?thesis
  proof (cases "find_document i (en_documents en)")
    case None
    with assms refused show ?thesis by (simp add: apply_summary_source_state_def)
  next
    case (Some d)
    show ?thesis
    proof (cases "object_of i en")
      case None
      with assms refused Some show ?thesis
        by (auto simp: apply_summary_source_state_def object_of_def split: option.splits jvalue.splits)
    next
      case obj: (Some m)
      with Some have m: "dc_metadata d = Some (JObject m)"
        by (auto simp: object_of_def split: option.splits jvalue.splits)
      let ?md = "Some (JObject (source_state_update orphan m))"
      show ?thesis
      proof (cases "fence_recorded h repr fence m \<and> (pend \<longrightarrow> truthy (jget m ''summary_source_pending''))")
        case False
        with assms refused Some m show ?thesis by (auto simp: apply_summary_source_state_def)
      next
        case cas: True
        show ?thesis
        proof (cases "store_step now (SetMetadata i ?md) (en_store en)")
          case None
          with assms refused Some m cas show ?thesis
            by (auto simp: apply_summary_source_state_def simp del: store_step.simps)
        next
          case step: (Some cs)
          with assms Some m cas have ok: "ok" and st: "en_store en' = cs"
            by (auto simp: apply_summary_source_state_def simp del: store_step.simps)
          have "ca_documents cs = set_metadata i ?md (en_documents en)"
            using store_step_set_documents [OF step] Some by simp
          then have "object_of i en' = Some (source_state_update orphan m)"
            using Some by (simp add: object_of_def st find_set_metadata)
          with written [of m] ok obj cas show ?thesis by blast
        qed
      qed
    qed
  qed
qed

lemma source_state_update_accepted [simp]:
  "is_summary_source_accepted (source_state_update orphan m) \<longleftrightarrow> \<not> orphan"
  by (simp add: is_summary_source_accepted_def source_state_update_def)

lemma object_of_store: "en_store en' = en_store en \<Longrightarrow> object_of i en' = object_of i en"
  by (simp add: object_of_def)

text \<open>What one acceptance does to the document it is about.\<close>

lemma accept_write_cases:
  assumes acc: "accept_summary_source_write h repr now i f st mnow seen en = (en', r)"
  obtains (kept) "object_of i en' = object_of i en"
  | (activated) m where "r = Inr True" "summary_source_fence_is_active f mnow st"
      "object_of i en = Some m" "fence_recorded h repr (Some f) m" "truthy (jget m ''summary_source_pending'')"
      "object_of i en' = Some (source_state_update False m)"
  | (rejected) m where "r = Inl (RuntimeError ''summary_source_fenced'')"
      "\<not> summary_source_fence_is_active f mnow st"
      "object_of i en = Some m" "fence_recorded h repr (Some f) m" "truthy (jget m ''summary_source_pending'')"
      "object_of i en' = Some (source_state_update True m)"
proof -
  let ?md = "load_summary_source_metadata i seen"
  let ?own = "case ?md of None \<Rightarrow> False | Some m \<Rightarrow> is_summary_source_accepted m"
  let ?active = "summary_source_fence_is_active f mnow st"
  show ?thesis
  proof (cases "?own \<or> \<not> en_connected en")
    case True
    then have "en_store en' = en_store en"
      using acc by (auto simp: accept_summary_source_write_def set_summary_source_orphan_def
          activate_summary_source_def write_summary_source_state_def Let_def split: if_splits option.splits)
    with kept object_of_store show ?thesis by blast
  next
    case False
    then have own: "\<not> ?own" and con: "en_connected en" by simp_all
    show ?thesis
    proof (cases ?active)
      case inactive: False
      obtain en1 ok where run: "apply_summary_source_state h repr now i True None (Some f) True en = (en1, ok)"
        by fastforce
      with acc own con inactive have r: "r = Inl (RuntimeError ''summary_source_fenced'')"
        and en': "object_of i en' = object_of i en1"
        by (auto simp: accept_summary_source_write_def set_summary_source_orphan_def
            write_summary_source_state_def Let_def object_of_def split: if_splits)
      from run show ?thesis
      proof (cases rule: apply_state_cases)
        case refused
        with en' kept show ?thesis by simp
      next
        case (written m)
        with rejected [of m] r inactive en' show ?thesis by simp
      qed
    next
      case active: True
      show ?thesis
      proof (cases "?md = None")
        case True
        with acc own active have "en' = en" by (simp add: accept_summary_source_write_def)
        with kept show ?thesis by simp
      next
        case False
        obtain en1 ok where run: "apply_summary_source_state h repr now i False (Some ''derived_pending'')
            (Some f) True en = (en1, ok)" by fastforce
        with acc own con active False have en': "en' = en1" and r: "ok \<Longrightarrow> r = Inr True"
          by (auto simp: accept_summary_source_write_def activate_summary_source_def
              write_summary_source_state_def Let_def split: if_splits option.splits)
        from run show ?thesis
        proof (cases rule: apply_state_cases)
          case refused
          with en' kept show ?thesis by simp
        next
          case (written m)
          with activated [of m] r active en' show ?thesis by simp
        qed
      qed
    qed
  qed
qed

text \<open>A staged document is not recalled.\<close>

lemma jget_dict_update:
  "k \<notin> fst ` set patch \<Longrightarrow> jget (dict_update m patch) k = jget m k"
  unfolding dict_update_def by (induction patch arbitrary: m) (auto simp: case_prod_beta)

lemma jget_delete: "k' \<noteq> k \<Longrightarrow> jget (AList.delete k' m) k = jget m k"
  by (simp add: jget_def delete_conv)

lemma staged_not_recallable:
  assumes "stage_summary_source h f m = Inr m'"
  shows "\<not> is_memory_recallable (Some m')" "\<not> is_summary_source_accepted m'"
    "jget m' ''summary_source_pending'' = JBool True" "jget m' ''source_fence'' = JText (opaque_token h f)"
proof -
  have s: "jget m' ''summary_source_orphan'' = JBool True"
    "jget m' ''summary_source_pending'' = JBool True" "jget m' ''source_fence'' = JText (opaque_token h f)"
    using assms
    by (auto simp: stage_summary_source_def Let_def jget_dict_update jget_delete scope_entries_def
        dict_update_def split: if_splits)
  then show "\<not> is_memory_recallable (Some m')" "\<not> is_summary_source_accepted m'"
    "jget m' ''summary_source_pending'' = JBool True" "jget m' ''source_fence'' = JText (opaque_token h f)"
    by (simp_all add: is_memory_recallable_def is_summary_source_accepted_def)
qed

section \<open>Writing with a key\<close>

lemma map_of_dict_update:
  "distinct (map fst patch) \<Longrightarrow> map_of (dict_update m patch) = map_of m ++ map_of patch"
  unfolding dict_update_def
proof (induction patch arbitrary: m)
  case (Cons kv patch)
  obtain k v where kv: "kv = (k, v)" by (cases kv)
  have "map_of patch k = None" using Cons.prems kv by (simp add: map_of_eq_None_iff)
  then show ?case using Cons by (auto simp: kv update_conv' map_add_def fun_eq_iff split: option.splits)
qed simp

lemma distinct_keys_update: "distinct (map fst m) \<Longrightarrow> distinct (map fst (AList.update k v m))"
  by (rule distinct_update)

lemma full_metadata_key:
  assumes "distinct (map fst m)" and "jget m ''idempotency_key'' = JText k"
  shows "document_key (Some (JObject (full_metadata w m))) = Some (py_strip k)"
proof -
  let ?base = "[(''session_id'', optional_text (wr_session w)), (''persona_id'', optional_text (wr_persona w)),
    (''importance'', JReal (max 0 (min 1 (wr_importance w)))),
    (''create_time'', JReal (wr_now w)), (''last_access_time'', JReal (wr_now w))]"
  have k: "map_of m ''idempotency_key'' = Some (JText k)"
    using assms(2) by (cases "map_of m ''idempotency_key''") (simp_all add: jget_def)
  have "map_of (dict_update ?base m) ''idempotency_key'' = Some (JText k)"
    by (simp only: map_of_dict_update [OF assms(1)] map_add_def k option.case)
  then have "map_of (full_metadata w m) ''idempotency_key'' = Some (JText k)"
    by (simp add: full_metadata_def Let_def map_of_dict_update update_conv split: jvalue.splits)
  then show ?thesis by (simp add: document_key_def)
qed

text \<open>A write that returns leaves its key owned by the memory it returns.\<close>

lemma add_canonical_owner:
  assumes reg: "registered (en_store en)" and con: "en_connected en"
    and md: "distinct (map fst md)" "jget md ''idempotency_key'' = JText t"
    and use: "0 < sql_length (py_strip t)"
    and add: "add_canonical w md en = (en', Inr i)"
  shows "registered (en_store en') \<and> en_connected en' \<and> spec_find t (en_documents en') = Some i"
proof -
  let ?k = "py_strip t"
  have ne: "?k \<noteq> []" using use by auto
  then have key: "canonical_idempotency_key r (Some md) = ?k" for r
    using md(2) by (auto simp: canonical_idempotency_key_def)
  have find: "find_memory_id_by_idempotency_key ?k e = Inr (spec_find t (en_documents e))"
    if "registered (en_store e)" "en_connected e" for e
    using that registered_find [of "en_store e" ?k]
    by (simp add: find_memory_id_by_idempotency_key_def spec_find_def)
  show ?thesis
  proof (cases "spec_find t (en_documents en)")
    case (Some j)
    with add reg con find [OF reg con] ne show ?thesis by (simp add: add_canonical_def key)
  next
    case None
    let ?m = "AList.update ''idempotency_key'' (JText ?k) md"
    let ?s = "start_op (wr_now w) ''add'' (wr_payload w) None en"
    let ?en1 = "note_intent w (snd ?s) (fst ?s)"
    let ?r = "write_document_stage w (snd ?s) (full_metadata w ?m) (Some ?m) (fst ?s)"
    from add None ne find [OF reg con] have stage: "en' = fst ?r" "\<exists>out. snd ?r = Inr out \<and> i = fst out"
      by (auto simp: add_canonical_def key Let_def split: if_splits sum.splits)
    have keym: "canonical_idempotency_key (wr_repr w) (Some ?m) = ?k"
      using ne by (simp add: canonical_idempotency_key_def)
    show ?thesis
    proof (cases "insert_document w (full_metadata w ?m) (en_store ?en1)")
      case no: None
      have "find_memory_id_by_idempotency_key ?k ?en1 = Inr None"
        using find [of ?en1] reg con None by simp
      then have "snd (recover_idempotent_write_owner (wr_repr w) (wr_now w) (snd ?s) (Some ?m) ?en1) = None"
        by (simp add: recover_idempotent_write_owner_def keym ne)
      with stage(2) no show ?thesis by (simp add: write_document_stage_def Let_def)
    next
      case (Some icx)
      obtain j cs where ics: "icx = (j, cs)" by (cases icx)
      let ?d = "\<lparr>dc_id = j, dc_text = wr_content w, dc_metadata = Some (JObject (full_metadata w ?m))\<rparr>"
      from Some ics have step: "store_step (wr_now w) (InsertDocument ?d) (en_store en) = Some cs"
        by (auto simp: insert_document_def simp del: store_step.simps split: insert_attempt.splits)
      from stage Some ics have i: "i = j" and st: "en_store en' = cs" and con': "en_connected en' = en_connected en"
        by (auto simp: write_document_stage_def Let_def note_committed_def)
      have "registered cs \<and> ca_documents cs = en_documents en @ [?d]"
        using store_step_insert [OF reg, where now = "wr_now w" and d = ?d] step
        by (auto simp del: store_step.simps split: if_splits)
      moreover have "has_key ?k ?d"
        using full_metadata_key [OF distinct_keys_update [OF md(1)], of "''idempotency_key''" "JText ?k" ?k w]
        by (simp add: has_key_def)
      moreover have "\<not> held (en_documents en) ?k"
        using None use least_holder_None [of "en_documents en" ?k]
        by (auto simp: spec_find_def owner_of_def)
      ultimately show ?thesis
        using owner_of_snoc_new(1) [of ?k ?d "en_documents en"] use con con' i st by (simp add: spec_find_def)
    qed
  qed
qed

lemma add_canonical_again:
  assumes reg: "registered (en_store en)" and con: "en_connected en"
    and md: "jget md ''idempotency_key'' = JText t" and own: "spec_find t (en_documents en) = Some i"
  shows "add_canonical w md en = (en, Inr i)"
proof -
  have ne: "py_strip t \<noteq> []" using own by (auto simp: spec_find_def owner_of_def)
  then have key: "canonical_idempotency_key (wr_repr w) (Some md) = py_strip t"
    using md by (auto simp: canonical_idempotency_key_def)
  have "find_memory_id_by_idempotency_key (py_strip t) en = Inr (Some i)"
    using registered_find [OF reg, of "py_strip t"] own con
    by (simp add: find_memory_id_by_idempotency_key_def spec_find_def)
  with ne key show ?thesis by (simp add: add_canonical_def)
qed

end
