(* ===== verification/Canonical_Merged.thy ===== *)
theory Canonical_Merged
  imports Canonical_Registry
begin

text \<open>
  The lookup of merged keys, which have no table of their own: what its answer means, and what the
  bound on the rows it reads costs. Also the one kind of stale mapping that validation lets through.
\<close>

section \<open>Rows and owners\<close>

definition lists_key :: "json_host \<Rightarrow> string \<Rightarrow> document \<Rightarrow> bool" where
  "lists_key h k d \<longleftrightarrow>
     (\<exists>v \<in> set (coalesce [] (merged_values h (dc_metadata d))). column_text h v = Some k)"

definition merged_owners :: "json_host \<Rightarrow> string \<Rightarrow> document list \<Rightarrow> int set" where
  "merged_owners h k ds = {i. \<exists>d \<in> set ds. dc_id d = i \<and> 0 < i \<and> lists_key h k d \<and>
     is_accepted_owner_metadata (dc_metadata d)}"

lemma merged_rows_set:
  "merged_rows h k ds = Some rows \<Longrightarrow> set rows = {d \<in> set ds. lists_key h k d}"
  by (force simp: merged_rows_def lists_key_def split: if_splits)

lemma accepted_owners_set:
  "set (accepted_owners ds) = {i. \<exists>d \<in> set ds. dc_id d = i \<and> 0 < i \<and> is_accepted_owner_metadata (dc_metadata d)}"
  by (auto simp: accepted_owners_def)

lemma distinct_accepted_owners: "distinct (accepted_owners ds)"
  by (simp add: accepted_owners_def)

lemma merged_sound:
  assumes "find_canonical_memory_id_by_merged_idempotency_key h key cs = Inr (Some i)"
  shows "i \<in> merged_owners h (py_strip key) (ca_documents cs)"
proof -
  from assms obtain rows where rows: "merged_rows h (py_strip key) (ca_documents cs) = Some rows"
    and own: "accepted_owners (take max_merged_owner_rows rows) = [i]"
    by (auto simp: find_canonical_memory_id_by_merged_idempotency_key_def Let_def
        split: if_splits option.splits list.splits)
  from own have "i \<in> set (accepted_owners (take max_merged_owner_rows rows))" by simp
  then obtain d where "d \<in> set rows" "dc_id d = i" "0 < i" "is_accepted_owner_metadata (dc_metadata d)"
    by (auto simp: accepted_owners_set dest: in_set_takeD)
  with merged_rows_set [OF rows] show ?thesis by (auto simp: merged_owners_def)
qed

lemma merged_exact:
  assumes key: "py_strip key \<noteq> []" and rows: "merged_rows h (py_strip key) (ca_documents cs) = Some rows"
    and few: "length rows \<le> max_merged_owner_rows"
  shows "find_canonical_memory_id_by_merged_idempotency_key h key cs =
    (let own = merged_owners h (py_strip key) (ca_documents cs) in
     if own = {} then Inr None else if is_singleton own then Inr (Some (the_elem own))
     else Inl (RuntimeError ''canonical_merged_idempotency_mapping_invalid''))"
proof -
  let ?xs = "accepted_owners rows" and ?own = "merged_owners h (py_strip key) (ca_documents cs)"
  have own: "set ?xs = ?own"
    using merged_rows_set [OF rows] by (auto simp: accepted_owners_set merged_owners_def)
  have d: "distinct ?xs" by (rule distinct_accepted_owners)
  have "take max_merged_owner_rows rows = rows" using few by simp
  then have find: "find_canonical_memory_id_by_merged_idempotency_key h key cs = (case ?xs of
      [] \<Rightarrow> Inr None | [i] \<Rightarrow> Inr (Some i)
    | _ \<Rightarrow> Inl (RuntimeError ''canonical_merged_idempotency_mapping_invalid''))"
    using key rows by (simp add: find_canonical_memory_id_by_merged_idempotency_key_def)
  show ?thesis
  proof (cases ?xs)
    case Nil
    with own find show ?thesis by simp
  next
    case (Cons i ys)
    show ?thesis
    proof (cases ys)
      case Nil
      with Cons own have "?own = {i}" by simp
      with find Cons Nil show ?thesis by simp
    next
      case (Cons j js)
      with \<open>?xs = i # ys\<close> own d have "i \<in> ?own" "j \<in> ?own" "i \<noteq> j" by auto
      then have "?own \<noteq> {}" "\<not> is_singleton ?own" by (auto simp: is_singleton_def)
      with find \<open>?xs = i # ys\<close> Cons show ?thesis by simp
    qed
  qed
qed

section \<open>Where the code falls short of its comments\<close>

definition listing :: "int \<Rightarrow> string list \<Rightarrow> document" where
  "listing i ks = \<lparr>dc_id = i, dc_text = ''text'',
     dc_metadata = Some (JObject [(''merged_idempotency_keys'', JList (map JText ks))])\<rparr>"

lemma listing_accepted:
  "list_all (\<lambda>k. py_strip k \<noteq> []) ks \<Longrightarrow> is_accepted_owner_metadata (dc_metadata (listing i ks))"
  by (auto simp: listing_def is_accepted_owner_metadata_def jget_def merged_key_ok_def list_all_iff
      is_memory_recallable_def effective_memory_status_def status_fields_def status_active_def
      recognised_status_def normalize_status_text_def strip_of_def status_space_def ascii_lower_def Let_def)

text \<open>
  A document that repeats the key uses up the rows: another accepted owner behind it goes unnoticed, and
  the lookup names the first one instead of refusing.
\<close>

lemma merged_lookup_misses_later_rows:
  "\<exists>cs. find_canonical_memory_id_by_merged_idempotency_key h ''k'' cs = Inr (Some 1) \<and>
     2 \<in> merged_owners h ''k'' (ca_documents cs)"
proof -
  define a b where "a = listing 1 (replicate 8 ''k'')" and "b = listing 2 [''k'']"
  let ?cs = "\<lparr>ca_documents = [a, b], ca_keys = [], ca_conflicts = []\<rparr>"
  have k: "py_strip ''k'' = ''k''" by (simp add: py_strip_def strip_of_def py_space_def)
  have vals: "merged_values h (dc_metadata a) = Some (replicate 8 (JText ''k''))"
    "merged_values h (dc_metadata b) = Some [JText ''k'']"
    by (simp_all add: a_def b_def merged_values_def listing_def jget_def)
  have acc: "is_accepted_owner_metadata (dc_metadata a)" "is_accepted_owner_metadata (dc_metadata b)"
    by (simp_all add: a_def b_def listing_accepted list_all_iff k)
  have ids: "dc_id a = 1" "dc_id b = 2" by (simp_all add: a_def b_def listing_def)
  have rows: "merged_rows h ''k'' [a, b] = Some (replicate 8 a @ [b])"
    by (simp add: merged_rows_def vals ids)
  have "accepted_owners (replicate 8 a) = [1]"
    using acc(1) by (simp add: accepted_owners_def ids eval_nat_numeral)
  with rows have "find_canonical_memory_id_by_merged_idempotency_key h ''k'' ?cs = Inr (Some 1)"
    by (simp add: find_canonical_memory_id_by_merged_idempotency_key_def k max_merged_owner_rows_def)
  moreover have "2 \<in> merged_owners h ''k'' (ca_documents ?cs)"
    using acc(2) by (auto simp: merged_owners_def lists_key_def vals ids)
  ultimately show ?thesis by blast
qed

text \<open>
  A mapping to a document that has no key at all passes validation, because \<open>key <> NULL\<close> is NULL; the
  lookup then answers a document that does not hold the key.
\<close>

lemma validation_misses_keyless_owner:
  "\<exists>cs. validate_canonical_idempotency_mapping cs \<and>
     find_canonical_memory_id_by_idempotency_key ''k'' cs = Inr (Some 1) \<and> \<not> held (ca_documents cs) ''k''"
proof -
  let ?d = "\<lparr>dc_id = 1, dc_text = ''text'', dc_metadata = None\<rparr>"
  let ?cs = "\<lparr>ca_documents = [?d], ca_keys = [\<lparr>kr_key = ''k'', kr_owner = 1, kr_created_at = 0\<rparr>],
    ca_conflicts = []\<rparr>"
  have k: "py_strip ''k'' = ''k''" by (simp add: py_strip_def strip_of_def py_space_def)
  have "validate_canonical_idempotency_mapping ?cs"
    by (simp add: validate_canonical_idempotency_mapping_def invalid_mapping_def find_document_def
        fetch_one_def document_key_def key_owners_def usable_keys_def List.map_filter_def)
  moreover have "find_canonical_memory_id_by_idempotency_key ''k'' ?cs = Inr (Some 1)"
    by (simp add: find_canonical_memory_id_by_idempotency_key_def k fetch_one_def find_document_def)
  moreover have "\<not> held (ca_documents ?cs) ''k''" by (simp add: held_def has_key_def document_key_def)
  ultimately show ?thesis by blast
qed

end
