(* ===== verification/Summary_Progress.thy ===== *)
theory Summary_Progress
  imports Summary_Scenario
begin

text \<open>
  The queue makes progress: a call of \<open>claim_ready\<close> always returns, and while a window is ready and there
  is room for it, it hands a claim out or takes a row with unreadable data out of the queue.
\<close>

definition valid_label :: "string \<Rightarrow> bool" where
  "valid_label s \<longleftrightarrow> py_strip s \<noteq> [] \<and> length (py_strip s) \<le> max_text_length"

definition claimable :: "claim_params \<Rightarrow> store \<Rightarrow> claim_state \<Rightarrow> job list \<Rightarrow> bool" where
  "claimable cp st cs items \<longleftrightarrow> distinct (map jb_job_id (cs_jobs cs)) \<and> distinct (map jb_job_id items) \<and>
     (\<forall>i \<in> set items. i \<in> set (cs_jobs cs) \<and> ready_row st (cp_stamp cp) i \<and> 0 \<le> jb_worker_generation i)"

definition labels_ok :: "claim_params \<Rightarrow> bool" where
  "labels_ok cp \<longleftrightarrow> (\<forall>i. valid_label (cp_token cp i)) \<and> valid_label (cp_scheduler cp)"

definition blocked_in :: "string \<Rightarrow> job list \<Rightarrow> bool" where
  "blocked_in i js \<longleftrightarrow> (\<exists>j \<in> set js. jb_job_id j = i \<and> jb_status j = Blocked)"

text \<open>One turn never fails: it grants the claim, or blocks the row.\<close>

lemma claim_one_turn:
  assumes "claimable cp st cs (item # items)" and "labels_ok cp"
  obtains cs' where "claim_one cp item cs = Some cs'" "claimable cp st cs' items"
    "\<exists>claim. cs_claims cs' = cs_claims cs @ [claim]"
  | cs' where "claim_one cp item cs = Some cs'" "claimable cp st cs' items"
    "cs_claims cs' = cs_claims cs" "cs_sessions cs' = cs_sessions cs" "cs_active cs' = cs_active cs"
    "blocked_in (jb_job_id item) (cs_jobs cs')"
proof -
  from assms(1) have d: "distinct (map jb_job_id (cs_jobs cs))" and item: "item \<in> set (cs_jobs cs)"
    and ready: "ready_row st (cp_stamp cp) item" and gen: "0 \<le> jb_worker_generation item"
    by (simp_all add: claimable_def)
  have rest: "claimable cp st cs' items"
    if "claim_one cp item cs = Some cs'" "map jb_job_id (cs_jobs cs') = map jb_job_id (cs_jobs cs)" for cs'
    using that assms(1) claim_one_others [OF that(1) d item ready]
    by (auto simp: claimable_def) (metis image_eqI)
  note ev = claim_one_eval [OF d item ready]
  have ids: "map jb_job_id (update_where (\<lambda>j. jb_job_id j = jb_job_id item) (\<lambda>_. r) (cs_jobs cs)) =
      map jb_job_id (cs_jobs cs)" if "jb_job_id r = jb_job_id item" for r
    using that by (auto simp: update_where_def)
  show ?thesis
  proof (cases "row_job (cp_json cp) (claimed_row cp item)")
    case (Inl e)
    let ?cs = "cs\<lparr>cs_jobs := update_where (\<lambda>j. jb_job_id j = jb_job_id item)
      (\<lambda>_. invalid_update (cp_stamp cp) (claimed_row cp item)) (cs_jobs cs)\<rparr>"
    from Inl ev have one: "claim_one cp item cs = Some ?cs" by simp
    have "blocked_in (jb_job_id item) (cs_jobs ?cs)"
      unfolding blocked_in_def
      by (rule bexI [of _ "invalid_update (cp_stamp cp) (claimed_row cp item)"])
        (use item in \<open>auto simp: set_update_where\<close>)
    with that(2) [OF one rest [OF one]] show ?thesis by (simp add: ids)
  next
    case (Inr dto)
    obtain claim where "make_claim dto (cp_token cp (jb_job_id item)) (cp_scheduler cp) (cp_lease cp)
        (jb_worker_generation item + 1) = Inr claim"
      using assms(2) gen by (fastforce simp: make_claim_Inr labels_ok_def valid_label_def)
    with Inr ev obtain cs' where one: "claim_one cp item cs = Some cs'"
      and cs': "cs_jobs cs' = update_where (\<lambda>j. jb_job_id j = jb_job_id item) (\<lambda>_. claimed_row cp item) (cs_jobs cs)"
        "cs_claims cs' = cs_claims cs @ [claim]"
      by simp
    with that(1) [OF one rest [OF one]] show ?thesis by (simp add: ids)
  qed
qed

text \<open>The loop returns, keeps the claims it has, and leaves other rows alone.\<close>

lemma claim_loop_total:
  "claimable cp st cs items \<Longrightarrow> labels_ok cp \<Longrightarrow> \<exists>cs' more. claim_loop cp items cs = Some cs' \<and>
     cs_claims cs' = cs_claims cs @ more \<and>
     (\<forall>j \<in> set (cs_jobs cs). jb_job_id j \<notin> jb_job_id ` set items \<longrightarrow> j \<in> set (cs_jobs cs'))"
proof (induction items arbitrary: cs)
  case (Cons item items)
  show ?case
  proof (cases "claims_full cp cs")
    case False
    show ?thesis
    proof (cases "session_busy cp cs (jb_session_id item)")
      case True
      have "claimable cp st cs items" using Cons.prems(1) by (auto simp: claimable_def)
      from Cons.IH [OF this Cons.prems(2)] False True show ?thesis by fastforce
    next
      case idle: False
      have d: "distinct (map jb_job_id (cs_jobs cs))" "item \<in> set (cs_jobs cs)" "ready_row st (cp_stamp cp) item"
        using Cons.prems(1) by (simp_all add: claimable_def)
      have "\<exists>cs'. claim_one cp item cs = Some cs' \<and> claimable cp st cs' items \<and>
          (\<exists>more. cs_claims cs' = cs_claims cs @ more)"
        by (rule claim_one_turn [OF Cons.prems]) auto
      then obtain cs1 more1 where one: "claim_one cp item cs = Some cs1" "claimable cp st cs1 items"
        "cs_claims cs1 = cs_claims cs @ more1" by blast
      from Cons.IH [OF one(2) Cons.prems(2)] obtain cs' more where cs': "claim_loop cp items cs1 = Some cs'"
        "cs_claims cs' = cs_claims cs1 @ more"
        "\<forall>j \<in> set (cs_jobs cs1). jb_job_id j \<notin> jb_job_id ` set items \<longrightarrow> j \<in> set (cs_jobs cs')"
        by blast
      moreover have "j \<in> set (cs_jobs cs1)" if "j \<in> set (cs_jobs cs)" "jb_job_id j \<noteq> jb_job_id item" for j
        by (rule claim_one_others [OF one(1) d that])
      ultimately show ?thesis using False idle one by (auto simp: image_iff)
    qed
  qed auto
qed simp

lemma claim_loop_progress:
  assumes "item \<in> set items" and "claimable cp st cs items" and "labels_ok cp"
    and "cs_claims cs = []" and "\<not> claims_full cp cs" and "\<not> session_busy cp cs (jb_session_id item)"
  shows "\<exists>cs'. claim_loop cp items cs = Some cs' \<and>
    (cs_claims cs' \<noteq> [] \<or> blocked_in (jb_job_id item) (cs_jobs cs'))"
  using assms
proof (induction items arbitrary: cs)
  case (Cons i items)
  have full: "claims_full cp c = claims_full cp cs" if "cs_claims c = cs_claims cs" for c
    using that by (simp only: claims_full_def)
  have busy: "session_busy cp c = session_busy cp cs"
    if "cs_sessions c = cs_sessions cs" "cs_active c = cs_active cs" for c
    using that by (intro ext) (simp add: session_busy_def)
  show ?case
  proof (cases "session_busy cp cs (jb_session_id i)")
    case True
    then have "item \<in> set items" using Cons.prems(1,6) by auto
    moreover have "claimable cp st cs items" using Cons.prems(2) by (auto simp: claimable_def)
    ultimately show ?thesis using Cons.IH [of cs] Cons.prems True by simp
  next
    case idle: False
    from Cons.prems(2,3) show ?thesis
    proof (cases rule: claim_one_turn)
      case (1 cs1)
      from claim_loop_total [OF 1(2) Cons.prems(3)] 1 Cons.prems(5) idle show ?thesis by fastforce
    next
      case (2 cs1)
      have run: "claim_loop cp (i # items) cs = claim_loop cp items cs1"
        using 2(1) Cons.prems(5) idle by simp
      show ?thesis
      proof (cases "i = item")
        case True
        from 2(6) obtain j where j: "j \<in> set (cs_jobs cs1)" "jb_job_id j = jb_job_id item" "jb_status j = Blocked"
          by (auto simp: blocked_in_def True)
        have "jb_job_id item \<notin> jb_job_id ` set items"
          using Cons.prems(2) by (simp add: claimable_def True)
        with claim_loop_total [OF 2(2) Cons.prems(3)] j obtain cs' where "claim_loop cp items cs1 = Some cs'"
          "j \<in> set (cs_jobs cs')" by force
        with j show ?thesis unfolding run blocked_in_def by blast
      next
        case False
        with Cons.prems(1) have "item \<in> set items" by simp
        have "cs_claims cs1 = []" "\<not> claims_full cp cs1" "\<not> session_busy cp cs1 (jb_session_id item)"
          using 2(3) full [OF 2(3)] busy [OF 2(4,5)] Cons.prems(4-6) by simp_all
        from Cons.IH [OF \<open>item \<in> set items\<close> 2(2) Cons.prems(3) this] show ?thesis unfolding run .
      qed
    qed
  qed
qed simp

lemma claim_ready_progress:
  assumes ok: "store_ok st" and live: "st_connected st" "0 < limit"
    and labels: "\<forall>i. valid_label (token i)" "valid_label scheduler"
    and item: "item \<in> set (st_jobs st)" "ready_row st (max 0 now) item"
    and room: "rowcount (\<lambda>j. active_row st (max 0 now) j \<and> jb_session_id j = jb_session_id item) (st_jobs st)
        < max 1 per_session"
      "case global_limit of None \<Rightarrow> True | Some g \<Rightarrow> rowcount (active_row st (max 0 now)) (st_jobs st) < g"
  shows "\<exists>st' claims. claim_ready json now scheduler limit per_session lease_seconds order hint global_limit token st
      = (st', Inr claims) \<and> (claims \<noteq> [] \<or> blocked_in (jb_job_id item) (st_jobs st'))"
proof -
  let ?cp = "claim_call json now scheduler limit per_session lease_seconds global_limit token st"
  let ?rows = "sort_key (claim_key (claim_after st hint) order) (filter (ready_row st (max 0 now)) (st_jobs st))"
  let ?cs0 = "\<lparr>cs_jobs = st_jobs st, cs_claims = [], cs_sessions = [],
      cs_active = (\<lambda>s. rowcount (\<lambda>j. active_row st (max 0 now) j \<and> jb_session_id j = s) (st_jobs st))\<rparr>"
  have d: "distinct (map jb_job_id (st_jobs st))" by (rule store_okD(1) [OF ok])
  have "distinct (map jb_job_id ?rows)"
    using distinct_map_filter [OF d, of "ready_row st (max 0 now)"] by (simp add: distinct_map)
  moreover have "0 \<le> jb_worker_generation j" if "j \<in> set (st_jobs st)" for j
    using ok that by (auto simp: store_ok_def job_ok_def)
  ultimately have "claimable ?cp st ?cs0 ?rows"
    using d by (auto simp: claimable_def claim_call_def)
  moreover have "\<not> claims_full ?cp ?cs0"
    using live(2) room(2) by (auto simp: claims_full_def claim_call_def split: option.splits)
  moreover have "\<not> session_busy ?cp ?cs0 (jb_session_id item)"
    using room(1) by (simp add: session_busy_def claim_call_def not_le del: max.bounded_iff)
  ultimately obtain cs where "claim_loop ?cp ?rows ?cs0 = Some cs"
    "cs_claims cs \<noteq> [] \<or> blocked_in (jb_job_id item) (cs_jobs cs)"
    using claim_loop_progress [of item ?rows ?cp st ?cs0] item labels
    by (auto simp: labels_ok_def claim_call_def)
  with live show ?thesis
    by (auto simp: claim_ready_def claim_call_def Let_def)
qed

end
