(* ===== verification/Rerank_Mmr.thy ===== *)
theory Rerank_Mmr
  imports Memora_Prelude "HOL-Library.Multiset"
begin

text \<open>
  Re-ranking by maximal marginal relevance (\<open>core/shared/mmr.py\<close>): results are picked one by one, each
  time the one with the best trade-off between its score and its likeness to those already picked. The
  lemmas show that the loop ends, what it may return, and when it returns as many results as asked.
\<close>

section \<open>Words\<close>

text \<open>\<open>str.lower\<close> on the first 256 code points, and \<open>str.split()\<close>.\<close>

definition py_lower :: "char \<Rightarrow> char" where
  "py_lower c = (let n = of_char c :: nat in
     if 65 \<le> n \<and> n \<le> 90 \<or> 192 \<le> n \<and> n \<le> 222 \<and> n \<noteq> 215 then char_of (n + 32) else c)"

fun split_words :: "string \<Rightarrow> string \<Rightarrow> string list" where
  "split_words w [] = (if w = [] then [] else [rev w])"
| "split_words w (c # cs) =
     (if py_space c then (if w = [] then split_words [] cs else rev w # split_words [] cs)
      else split_words (c # w) cs)"

definition token_set :: "string \<Rightarrow> string set" where
  "token_set s = (let t = set (split_words [] (map py_lower s)) in if t = {} then {''<empty>''} else t)"

section \<open>Selection\<close>

record ranked =
  rk_content :: string
  rk_final_score :: real

definition jaccard :: "string set \<Rightarrow> string set \<Rightarrow> real" where
  "jaccard a b = real (card (a \<inter> b)) / real (max (card (a \<union> b)) 1)"

definition max_similarity :: "ranked \<Rightarrow> ranked list \<Rightarrow> real" where
  "max_similarity c picked =
     Max (set (map (\<lambda>s. jaccard (token_set (rk_content c)) (token_set (rk_content s))) picked))"

definition mmr_score :: "real \<Rightarrow> ranked list \<Rightarrow> ranked \<Rightarrow> real" where
  "mmr_score lam picked c = lam * rk_final_score c - (1 - lam) * max_similarity c picked"

text \<open>The inner loop: the first index whose value is above all before it and above the start value.\<close>

fun best_index :: "('a \<Rightarrow> real) \<Rightarrow> nat \<Rightarrow> 'a list \<Rightarrow> nat option \<Rightarrow> real \<Rightarrow> nat option" where
  "best_index f i [] best lead = best"
| "best_index f i (c # cs) best lead =
     (if lead < f c then best_index f (Suc i) cs (Some i) (f c) else best_index f (Suc i) cs best lead)"

lemma best_index_range:
  "best_index f i cs best lead = Some j \<Longrightarrow> best = Some j \<or> i \<le> j \<and> j < i + length cs"
  by (induction f i cs best lead rule: best_index.induct) (auto split: if_splits)

lemma best_index_keeps: "best_index f i cs (Some j) lead \<noteq> None"
  by (induction cs arbitrary: i j lead) auto

lemma best_index_found:
  "c \<in> set cs \<Longrightarrow> lead < f c \<Longrightarrow> best_index f i cs best lead \<noteq> None"
proof (induction cs arbitrary: i best lead)
  case (Cons d cs)
  show ?case
  proof (cases "lead < f d")
    case True
    then show ?thesis by (simp add: best_index_keeps)
  next
    case False
    with Cons.prems have "c \<in> set cs" by auto
    with Cons.IH [OF this Cons.prems(2)] False show ?thesis by simp
  qed
qed simp

text \<open>No candidate has a better value than the one chosen.\<close>

lemma best_index_max:
  assumes "best_index f 0 cs None lead = Some j" and "c \<in> set cs"
  shows "f c \<le> f (cs ! j)"
proof -
  have "best_index f i cs best lead = Some j \<Longrightarrow>
      (best = Some j \<and> (\<forall>c \<in> set cs. f c \<le> lead)) \<or>
      (i \<le> j \<and> (\<forall>c \<in> set cs. f c \<le> f (cs ! (j - i))) \<and> lead < f (cs ! (j - i)))" for i best lead cs
  proof (induction cs arbitrary: i best lead)
    case (Cons d cs)
    show ?case
    proof (cases "lead < f d")
      case True
      with Cons.prems have run: "best_index f (Suc i) cs (Some i) (f d) = Some j" by simp
      from Cons.IH [OF this] show ?thesis
      proof
        assume "Some i = Some j \<and> (\<forall>c \<in> set cs. f c \<le> f d)"
        with True show ?thesis by auto
      next
        assume a: "Suc i \<le> j \<and> (\<forall>c \<in> set cs. f c \<le> f (cs ! (j - Suc i))) \<and> f d < f (cs ! (j - Suc i))"
        then have "(d # cs) ! (j - i) = cs ! (j - Suc i)" by (simp add: Suc_diff_Suc)
        with a True show ?thesis by (intro disjI2) auto
      qed
    next
      case False
      with Cons.prems have run: "best_index f (Suc i) cs best lead = Some j" by simp
      from Cons.IH [OF this] show ?thesis
      proof
        assume "best = Some j \<and> (\<forall>c \<in> set cs. f c \<le> lead)"
        with False show ?thesis by auto
      next
        assume a: "Suc i \<le> j \<and> (\<forall>c \<in> set cs. f c \<le> f (cs ! (j - Suc i))) \<and> lead < f (cs ! (j - Suc i))"
        then have "(d # cs) ! (j - i) = cs ! (j - Suc i)" by (simp add: Suc_diff_Suc)
        with a False show ?thesis by (intro disjI2) auto
      qed
    qed
  qed simp
  from this [OF assms(1)] assms(2) show ?thesis by simp
qed

definition pick_next :: "real \<Rightarrow> ranked list \<Rightarrow> ranked list \<Rightarrow> nat option" where
  "pick_next lam candidates selected =
     (if selected = [] then Some 0
      else best_index (mmr_score lam selected) 0 candidates None (- 1))"

lemma pick_next_range:
  "pick_next lam candidates selected = Some i \<Longrightarrow> candidates \<noteq> [] \<Longrightarrow> i < length candidates"
  using best_index_range [of "mmr_score lam selected" 0 candidates None "- 1" i]
  by (auto simp: pick_next_def split: if_splits)

definition pop_at :: "nat \<Rightarrow> 'a list \<Rightarrow> 'a list" where
  "pop_at i xs = take i xs @ drop (Suc i) xs"

lemma length_pop_at: "i < length xs \<Longrightarrow> length (pop_at i xs) = length xs - 1"
  by (simp add: pop_at_def)

lemma mset_pop_at: "i < length xs \<Longrightarrow> add_mset (xs ! i) (mset (pop_at i xs)) = mset xs"
  using id_take_nth_drop [of i xs] by (metis pop_at_def mset_append mset.simps(2) union_mset_add_mset_right)

function mmr_loop :: "real \<Rightarrow> int \<Rightarrow> ranked list \<Rightarrow> ranked list \<Rightarrow> ranked list" where
  "mmr_loop lam k candidates selected =
     (if candidates = [] \<or> k \<le> int (length selected) then selected
      else (case pick_next lam candidates selected of
          None \<Rightarrow> selected
        | Some i \<Rightarrow> mmr_loop lam k (pop_at i candidates) (selected @ [candidates ! i])))"
  by pat_completeness auto
termination
  by (relation "measure (\<lambda>(lam, k, candidates, selected). length candidates)")
    (auto simp: length_pop_at dest: pick_next_range)

declare mmr_loop.simps [simp del]

definition apply_mmr :: "ranked list \<Rightarrow> int \<Rightarrow> real \<Rightarrow> ranked list" where
  "apply_mmr results k lam = (if int (length results) \<le> k then results else mmr_loop lam k results [])"

section \<open>What the loop returns\<close>

lemma jaccard_le_1: "jaccard (token_set a) (token_set b) \<le> 1"
proof -
  have "card (token_set a \<inter> token_set b) \<le> card (token_set a \<union> token_set b)"
    by (rule card_mono) (auto simp: token_set_def Let_def)
  then have "card (token_set a \<inter> token_set b) \<le> max (card (token_set a \<union> token_set b)) 1"
    by (rule max.coboundedI1)
  then show ?thesis by (simp add: jaccard_def divide_le_eq)
qed

lemma mmr_score_above:
  assumes "0 < lam" "lam \<le> 1" "0 \<le> rk_final_score c" "picked \<noteq> []"
  shows "- 1 < mmr_score lam picked c"
proof -
  have "max_similarity c picked \<le> 1"
    unfolding max_similarity_def using assms(4) jaccard_le_1 by (subst Max_le_iff) auto
  then have "(1 - lam) * max_similarity c picked \<le> 1 - lam"
    using assms(2) by (simp add: mult_left_le)
  moreover have "0 \<le> lam * rk_final_score c" using assms by simp
  ultimately show ?thesis using assms(1) by (simp add: mmr_score_def)
qed

lemma pick_next_some:
  assumes "0 < lam" "lam \<le> 1" "\<forall>c \<in> set candidates. 0 \<le> rk_final_score c" "candidates \<noteq> []"
  shows "pick_next lam candidates selected \<noteq> None"
proof (cases "selected = []")
  case False
  have "hd candidates \<in> set candidates" using assms(4) by simp
  then have "- 1 < mmr_score lam selected (hd candidates)"
    using assms False by (intro mmr_score_above) auto
  with best_index_found [OF \<open>hd candidates \<in> set candidates\<close>] show ?thesis
    using False by (simp add: pick_next_def)
qed (simp add: pick_next_def)

lemma set_pop_at: "set (pop_at i xs) \<subseteq> set xs"
  unfolding pop_at_def by (auto dest: in_set_takeD in_set_dropD)

lemma mmr_loop_length:
  "0 < lam \<Longrightarrow> lam \<le> 1 \<Longrightarrow> \<forall>c \<in> set candidates. 0 \<le> rk_final_score c \<Longrightarrow> int (length selected) \<le> k \<Longrightarrow>
    int (length (mmr_loop lam k candidates selected)) = min k (int (length selected + length candidates))"
proof (induction lam k candidates selected rule: mmr_loop.induct)
  case (1 lam k candidates selected)
  show ?case
  proof (cases "candidates = [] \<or> k \<le> int (length selected)")
    case True
    with "1.prems" show ?thesis by (subst mmr_loop.simps) auto
  next
    case False
    show ?thesis
    proof (cases "pick_next lam candidates selected")
      case None
      with pick_next_some "1.prems" False show ?thesis by blast
    next
      case (Some i)
      with False have i: "i < length candidates" using pick_next_range by blast
      have "\<forall>c \<in> set (pop_at i candidates). 0 \<le> rk_final_score c"
        using "1.prems"(3) set_pop_at [of i candidates] by blast
      from "1.IH" [OF False Some "1.prems"(1,2) this] False Some i show ?thesis
        by (subst mmr_loop.simps) (simp add: length_pop_at)
    qed
  qed
qed

text \<open>
  The picks after \<open>selected\<close>: each is a best candidate among those left, unless it is the very first.
\<close>

definition greedy_picks :: "real \<Rightarrow> ranked list \<Rightarrow> ranked list \<Rightarrow> ranked list \<Rightarrow> bool" where
  "greedy_picks lam candidates selected ys \<longleftrightarrow> mset ys \<subseteq># mset candidates \<and>
     (\<forall>n < length ys. selected @ take n ys \<noteq> [] \<longrightarrow>
        (\<forall>x \<in># mset candidates - mset (take n ys).
           mmr_score lam (selected @ take n ys) x \<le> mmr_score lam (selected @ take n ys) (ys ! n)))"

lemma greedy_picks_Cons:
  assumes i: "i < length candidates"
    and best: "selected \<noteq> [] \<Longrightarrow> \<forall>x \<in> set candidates.
      mmr_score lam selected x \<le> mmr_score lam selected (candidates ! i)"
    and rest: "greedy_picks lam (pop_at i candidates) (selected @ [candidates ! i]) ys"
  shows "greedy_picks lam candidates selected (candidates ! i # ys)"
proof -
  note m = mset_pop_at [OF i]
  have "mset (candidates ! i # ys) \<subseteq># mset candidates"
    using rest m [symmetric] by (simp add: greedy_picks_def)
  moreover have "mmr_score lam (selected @ take n (candidates ! i # ys)) x \<le>
      mmr_score lam (selected @ take n (candidates ! i # ys)) ((candidates ! i # ys) ! n)"
    if n: "n < length (candidates ! i # ys)" and ne: "selected @ take n (candidates ! i # ys) \<noteq> []"
      and x: "x \<in># mset candidates - mset (take n (candidates ! i # ys))" for n x
  proof (cases n)
    case 0
    with best ne x show ?thesis by simp
  next
    case (Suc l)
    then have "x \<in># mset (pop_at i candidates) - mset (take l ys)"
      using x by (simp add: m [symmetric])
    with rest n Suc show ?thesis by (simp add: greedy_picks_def)
  qed
  ultimately show ?thesis unfolding greedy_picks_def by blast
qed

lemma mmr_loop_greedy:
  "\<exists>ys. mmr_loop lam k candidates selected = selected @ ys \<and> greedy_picks lam candidates selected ys \<and>
     int (length ys) \<le> max 0 (k - int (length selected)) \<and>
     (ys \<noteq> [] \<longrightarrow> selected = [] \<longrightarrow> hd ys = hd candidates)"
proof (induction lam k candidates selected rule: mmr_loop.induct)
  case (1 lam k candidates selected)
  have stop: ?case if "mmr_loop lam k candidates selected = selected"
    using that by (intro exI [of _ "[]"]) (simp add: greedy_picks_def)
  show ?case
  proof (cases "candidates = [] \<or> k \<le> int (length selected)")
    case True
    then show ?thesis by (intro stop) (subst mmr_loop.simps, simp)
  next
    case False
    show ?thesis
    proof (cases "pick_next lam candidates selected")
      case None
      then show ?thesis by (intro stop) (subst mmr_loop.simps, simp)
    next
      case (Some i)
      with False have i: "i < length candidates" using pick_next_range by blast
      from "1.IH" [OF False Some] obtain ys where ys:
        "mmr_loop lam k (pop_at i candidates) (selected @ [candidates ! i]) = (selected @ [candidates ! i]) @ ys"
        "greedy_picks lam (pop_at i candidates) (selected @ [candidates ! i]) ys"
        "int (length ys) \<le> max 0 (k - int (length (selected @ [candidates ! i])))" by blast
      have best: "\<forall>x \<in> set candidates. mmr_score lam selected x \<le> mmr_score lam selected (candidates ! i)"
        if "selected \<noteq> []"
        using Some that best_index_max [of "mmr_score lam selected" candidates "- 1" i]
        by (simp add: pick_next_def)
      have first: "candidates ! i = hd candidates" if "selected = []"
        using that Some False by (simp add: pick_next_def hd_conv_nth)
      have "mmr_loop lam k candidates selected = selected @ candidates ! i # ys"
        by (subst mmr_loop.simps) (use False Some ys(1) in simp)
      moreover have "int (length (candidates ! i # ys)) \<le> max 0 (k - int (length selected))"
        using ys(3) False by auto
      ultimately show ?thesis
        using greedy_picks_Cons [OF i best ys(2)] first
        by (intro exI [of _ "candidates ! i # ys"]) simp
    qed
  qed
qed

text \<open>With weight 0 a duplicate has value -1, which is not above the start value: the loop gives up.\<close>

lemma mmr_gives_up:
  fixes r :: ranked
  shows "apply_mmr [r, r, r] 2 0 = [r]"
proof -
  have j: "jaccard (token_set (rk_content r)) (token_set (rk_content r)) = 1"
  proof -
    have "finite (token_set (rk_content r))" "token_set (rk_content r) \<noteq> {}"
      by (auto simp: token_set_def Let_def)
    then have "1 \<le> card (token_set (rk_content r))" by (simp add: card_gt_0_iff Suc_leI)
    then show ?thesis by (simp add: jaccard_def)
  qed
  then have s: "mmr_score 0 [r] r = - 1" by (simp add: mmr_score_def max_similarity_def)
  have "mmr_loop 0 2 [r, r, r] [] = mmr_loop 0 2 [r, r] [r]"
    by (subst mmr_loop.simps) (simp add: pick_next_def pop_at_def)
  also have "\<dots> = [r]" by (subst mmr_loop.simps) (simp add: pick_next_def s)
  finally show ?thesis by (simp add: apply_mmr_def)
qed

end
