(* ===== verification/Memory_Properties.thy ===== *)
theory Memory_Properties
  imports Memory_Writes Canonical_Merged Recovery_Properties Summary_Progress Rerank_Mmr
begin

text \<open>
  The properties of the memory store and of its joints with the summary queue, and those of the claim
  queue's progress and of re-ranking. The witnesses run the operations on a store with one memory.
\<close>

section \<open>A small store\<close>

definition mp_document :: "int \<Rightarrow> document" where
  "mp_document i = \<lparr>dc_id = i, dc_text = ''text'',
     dc_metadata = Some (JObject [(''idempotency_key'', JText ''ik'')])\<rparr>"

definition mp_empty :: canonical_store where
  "mp_empty = \<lparr>ca_documents = [], ca_keys = [], ca_conflicts = []\<rparr>"

definition mp_store :: canonical_store where
  "mp_store = \<lparr>ca_documents = [mp_document 7],
     ca_keys = [\<lparr>kr_key = ''ik'', kr_owner = 7, kr_created_at = 1\<rparr>], ca_conflicts = []\<rparr>"

definition mp_engine :: "canonical_store \<Rightarrow> engine" where
  "mp_engine cs = \<lparr>en_connected = True, en_store = cs, en_ops = [], en_next_op = 1\<rparr>"

lemma mp_strip [simp]: "py_strip ''ik'' = ''ik''"
  by (simp add: py_strip_def strip_of_def py_space_def)

lemma mp_key [simp]: "document_key (dc_metadata (mp_document i)) = Some ''ik''"
  by (simp add: mp_document_def document_key_def)

lemma mp_id [simp]: "dc_id (mp_document i) = i"
  by (simp add: mp_document_def)

lemma mp_length [simp]: "sql_length ''ik'' = 2"
  by (simp add: sql_length_def)

lemma mp_empty_registered: "registered mp_empty"
  by (simp add: registered_def mp_empty_def mapping_of_def owner_of_def least_holder_def)

lemma mp_insert: "store_step 1 (InsertDocument (mp_document 7)) mp_empty = Some mp_store"
  by (simp add: mp_empty_def mp_store_def find_document_def fetch_one_def insert_trigger_def insert_key_def
      key_row_ok_def)

lemma mp_registered: "registered mp_store"
  using registry.accepted [OF mp_empty_registered, of "(1, InsertDocument (mp_document 7))"] mp_insert
  by (simp add: timed_step_def)

lemma mp_find: "spec_find ''ik'' [mp_document 7] = Some 7"
  by (simp add: spec_find_def owner_of_def least_holder_def has_key_def first_row_def)

section \<open>Keys\<close>

text \<open>
  C5: the key table refines the documents. Whatever inserts, metadata updates and deletions run, refused
  ones included, the store with its triggers holds the same documents as a store without a key table
  that refuses exactly a known identifier and a key already held; validation succeeds, and a lookup
  answers the least document that holds the key.
\<close>

theorem key_table_refines_documents:
  assumes "registered cs"
  shows "ca_documents (try_steps timed_step es cs) = try_steps (\<lambda>e. spec_step (snd e)) es (ca_documents cs) \<and>
    validate_canonical_idempotency_mapping (try_steps timed_step es cs) \<and>
    find_canonical_memory_id_by_idempotency_key key (try_steps timed_step es cs) =
      Inr (spec_find key (try_steps (\<lambda>e. spec_step (snd e)) es (ca_documents cs)))"
  using registry.run [OF assms, of es] by (simp add: registered_valid registered_find)

theorem key_table_refines_documents_witness:
  "find_canonical_memory_id_by_idempotency_key ''ik'' (try_steps timed_step
     [(1, InsertDocument (mp_document 7)), (2, InsertDocument (mp_document 3))] mp_empty) = Inr (Some 7)"
proof -
  have "try_steps (\<lambda>e. spec_step (snd e)) [(1 :: real, InsertDocument (mp_document 7)),
      (2, InsertDocument (mp_document 3))] [] = [mp_document 7]"
    by (simp add: try_steps_def find_document_def fetch_one_def key_taken_def held_def has_key_def)
  then show ?thesis
    using key_table_refines_documents [OF mp_empty_registered,
        of "[(1, InsertDocument (mp_document 7)), (2, InsertDocument (mp_document 3))]" "''ik''"]
    by (simp add: mp_empty_def mp_find)
qed

text \<open>
  C39: rebuilding the key table never violates a constraint and gives back the table the triggers would
  have kept, without touching a document; every document that holds a key it does not own is recorded
  as a conflict with the owner.
\<close>

theorem rebuild_restores_key_table:
  assumes "distinct (map dc_id (ca_documents cs))"
  shows "\<exists>cs'. rebuild_canonical_idempotency_mapping now cs = Some cs' \<and> registered cs' \<and>
    validate_canonical_idempotency_mapping cs' \<and> ca_documents cs' = ca_documents cs \<and>
    conflict_of now (ca_documents cs) ` {d \<in> set (ca_documents cs). non_owner (ca_documents cs) d}
      \<subseteq> set (ca_conflicts cs')"
  using rebuild_spec [OF assms, of now] registered_valid by blast

theorem rebuild_restores_key_table_witness:
  "\<exists>cs'. rebuild_canonical_idempotency_mapping 5
      \<lparr>ca_documents = [mp_document 7, mp_document 3], ca_keys = [], ca_conflicts = []\<rparr> = Some cs' \<and>
    find_canonical_memory_id_by_idempotency_key ''ik'' cs' = Inr (Some 3) \<and>
    (\<exists>c. c \<in> set (ca_conflicts cs') \<and> kc_owner c = 3 \<and> kc_duplicate c = 7)"
proof -
  let ?ds = "[mp_document 7, mp_document 3]"
  let ?cs = "\<lparr>ca_documents = ?ds, ca_keys = [], ca_conflicts = []\<rparr>"
  from rebuild_restores_key_table [of ?cs 5] obtain cs' where
    cs': "rebuild_canonical_idempotency_mapping 5 ?cs = Some cs'" "registered cs'" "ca_documents cs' = ?ds"
    "conflict_of 5 ?ds ` {d \<in> set ?ds. non_owner ?ds d} \<subseteq> set (ca_conflicts cs')"
    by auto
  have l: "least_holder ?ds ''ik'' = Some 3"
    by (simp add: least_holder_def has_key_def)
  then have "non_owner ?ds (mp_document 7)" by (simp add: non_owner_def usable_key_def)
  then have "conflict_of 5 ?ds (mp_document 7) \<in> set (ca_conflicts cs')" using cs'(4) by auto
  moreover have "kc_owner (conflict_of 5 ?ds (mp_document 7)) = 3" "kc_duplicate (conflict_of 5 ?ds (mp_document 7)) = 7"
    by (simp_all add: conflict_of_def Let_def l)
  moreover have "find_canonical_memory_id_by_idempotency_key ''ik'' cs' = Inr (Some 3)"
    using registered_find [OF cs'(2)] cs'(3) l by (simp add: spec_find_def owner_of_def)
  ultimately show ?thesis using cs'(1) by blast
qed

section \<open>Recovery asks the memory store\<close>

text \<open>
  The composition root hands the lookups of the memory engine to the summary store. An exception is
  passed on by the name of its class.
\<close>

fun lookup_answer_of :: "int option result \<Rightarrow> lookup_answer" where
  "lookup_answer_of (Inr None) = NoOwner"
| "lookup_answer_of (Inr (Some i)) = OwnerId i"
| "lookup_answer_of (Inl (RuntimeError m)) =
     LookupRaised (if m = ''malformed JSON'' then ''OperationalError'' else ''RuntimeError'')"
| "lookup_answer_of (Inl _) = LookupRaised ''Exception''"

definition engine_lookups ::
  "json_host \<Rightarrow> (string \<Rightarrow> evidence_answer) option \<Rightarrow> engine \<Rightarrow> startup_lookups" where
  "engine_lookups jh quarantine en = \<lparr>
     sl_merged = Some (\<lambda>k. lookup_answer_of (find_memory_id_by_merged_idempotency_key jh k en)),
     sl_canonical = Some (\<lambda>k. lookup_answer_of (find_memory_id_by_idempotency_key k en)),
     sl_quarantine = quarantine\<rparr>"

lemma lookup_answer_owner: "lookup_answer_of r = OwnerId i \<longleftrightarrow> r = Inr (Some i)"
  by (cases r rule: lookup_answer_of.cases) auto

lemma found_answer: "lookup_step (Some f) k = Found i \<Longrightarrow> f k = OwnerId i"
  by (auto split: lookup_answer.splits if_splits)

text \<open>
  C6: recovery after a crash binds a slot only to the memory that proves it. When the summary store asks
  the memory engine, every slot that recovery commits with an owner is bound either to the least memory
  that holds the slot's idempotency key, or, as merged, to an accepted memory that lists the key.
\<close>

theorem recovered_owner_holds_key:
  assumes "reachable h seen" and "summary_run h seen st" and "registered (en_store en)"
    and "c \<in> set (st_candidates (fst (reconcile_startup_candidates (engine_lookups jh q en) now seen st)))"
    and "c \<notin> set (st_candidates st)" and "cd_status c = Committed" and "cd_canonical_id c = Some i"
  shows "(cd_disposition c = Some Canonical \<and> spec_find (cd_idempotency_key c) (en_documents en) = Some i) \<or>
    (cd_disposition c = Some Merged \<and>
      i \<in> merged_owners jh (py_strip (cd_idempotency_key c)) (en_documents en))"
proof -
  let ?l = "engine_lookups jh q en" and ?k = "cd_idempotency_key c"
  have "proved_slot ?l seen c" using startup_changes_proved [OF assms(1,2,4,5)] assms(6) by simp
  then consider "cd_disposition c = Some Merged" "lookup_step (sl_merged ?l) ?k = Found i"
    | "cd_disposition c = Some Canonical" "lookup_step (sl_canonical ?l) ?k = Found i"
    using assms(7) by (auto simp: proved_slot_def Let_def)
  then show ?thesis
  proof cases
    case 1
    then have "find_memory_id_by_merged_idempotency_key jh ?k en = Inr (Some i)"
      unfolding engine_lookups_def startup_lookups.select_convs
      by (blast dest: found_answer intro: lookup_answer_owner [THEN iffD1])
    then have "find_canonical_memory_id_by_merged_idempotency_key jh ?k (en_store en) = Inr (Some i)"
      by (simp add: find_memory_id_by_merged_idempotency_key_def split: if_splits)
    with merged_sound 1(1) show ?thesis by blast
  next
    case 2
    then have "find_memory_id_by_idempotency_key ?k en = Inr (Some i)"
      unfolding engine_lookups_def startup_lookups.select_convs
      by (blast dest: found_answer intro: lookup_answer_owner [THEN iffD1])
    then have "spec_find ?k (en_documents en) = Some i"
      using registered_find [OF assms(3), of ?k]
      by (simp add: find_memory_id_by_idempotency_key_def split: if_splits)
    with 2(1) show ?thesis by blast
  qed
qed

definition mp_json :: json_host where
  "mp_json = \<lparr>jx_parse = (\<lambda>_. None), jx_text = (\<lambda>_. '''')\<rparr>"

definition mp_lookups :: startup_lookups where
  "mp_lookups = engine_lookups mp_json None (mp_engine mp_store)"

lemma mp_lookup_steps:
  "lookup_step (sl_merged mp_lookups) ''ik'' = Absent"
  "lookup_step (sl_canonical mp_lookups) ''ik'' = Found 7"
proof -
  have "merged_values mp_json (dc_metadata (mp_document 7)) = Some []"
    by (simp add: merged_values_def mp_document_def jget_def)
  then show "lookup_step (sl_merged mp_lookups) ''ik'' = Absent"
    by (simp add: mp_lookups_def engine_lookups_def find_memory_id_by_merged_idempotency_key_def mp_engine_def
        find_canonical_memory_id_by_merged_idempotency_key_def merged_rows_def mp_store_def accepted_owners_def)
  show "lookup_step (sl_canonical mp_lookups) ''ik'' = Found 7"
    using registered_find [OF mp_registered, of "''ik''"]
    by (simp add: mp_lookups_def engine_lookups_def find_memory_id_by_idempotency_key_def mp_engine_def
        mp_store_def mp_find)
qed

theorem recovered_owner_holds_key_witness:
  "\<exists>c. c \<in> set (st_candidates (fst (reconcile_startup_candidates mp_lookups 20 sc_writing sc_writing))) \<and>
     cd_canonical_id c = Some 7 \<and> spec_find (cd_idempotency_key c) (en_documents (mp_engine mp_store)) = Some 7"
proof -
  let ?st = "fst (reconcile_startup_candidates mp_lookups 20 sc_writing sc_writing)"
  have c: "sc_found \<in> set (st_candidates ?st)"
    using sc_recover_with [OF mp_lookup_steps refl] by simp
  have f: "cd_status sc_found = Committed" "cd_canonical_id sc_found = Some 7"
    "cd_disposition sc_found = Some Canonical"
    by (simp_all add: sc_found_def resolve_row_def)
  have "cd_status ((sc_slot 12 Planned)\<lparr>cd_status := Writing\<rparr>) = Writing" by simp
  with f(1) have "sc_found \<noteq> (sc_slot 12 Planned)\<lparr>cd_status := Writing\<rparr>" by fastforce
  then have "sc_found \<notin> set (st_candidates sc_writing)" by (simp add: sc_writing_tables)
  moreover have "registered (en_store (mp_engine mp_store))" using mp_registered by (simp add: mp_engine_def)
  ultimately show ?thesis
    using recovered_owner_holds_key [OF sc_reach_writing summary_run.stop _ c [unfolded mp_lookups_def] _ f(1,2)]
      c f by auto
qed

section \<open>Writing memories\<close>

text \<open>
  C8: writing with an idempotency key is idempotent. Whatever the vector store and its indexes do, a write
  that returns leaves the key owned by the memory it returns, and every later write with the same key
  returns that memory and changes nothing, not even the journal.
\<close>

theorem keyed_write_is_idempotent:
  assumes "registered (en_store en)" and "en_connected en" and "distinct (map fst md)"
    and "jget md ''idempotency_key'' = JText t" and "0 < sql_length (py_strip t)"
    and "add_canonical w md en = (en', Inr i)"
    and "jget md' ''idempotency_key'' = JText t'" and "py_strip t' = py_strip t"
  shows "spec_find t (en_documents en') = Some i \<and> add_canonical w' md' en' = (en', Inr i)"
proof -
  from add_canonical_owner [OF assms(1-6)]
  have en': "registered (en_store en')" "en_connected en'" "spec_find t (en_documents en') = Some i" by simp_all
  then have "spec_find t' (en_documents en') = Some i" by (simp add: spec_find_def assms(8))
  with add_canonical_again [OF en'(1,2) assms(7)] en'(3) show ?thesis by blast
qed

definition mp_write :: "int \<Rightarrow> write_call" where
  "mp_write i = \<lparr>wr_repr = (\<lambda>_. ''''), wr_now = 1, wr_staged = True, wr_degraded = True, wr_uuid = ''u'',
     wr_digest = ''d'', wr_attempt = Drew i, wr_content = ''text'', wr_payload = [], wr_session = Some ''s'',
     wr_persona = None, wr_importance = 2\<rparr>"

definition mp_entries :: metadata where
  "mp_entries = [(''idempotency_key'', JText ''ik'')]"

lemma mp_first_write: "\<exists>en'. add_canonical (mp_write 7) mp_entries (mp_engine mp_empty) = (en', Inr 7)"
proof -
  have "py_strip ''text'' = ''text''" by (simp add: py_strip_def strip_of_def py_space_def)
  moreover have "document_key (Some (JObject (full_metadata (mp_write 7) mp_entries))) = Some ''ik''"
    using full_metadata_key [of mp_entries "''ik''" "mp_write 7"] by (simp add: mp_entries_def jget_def)
  ultimately show ?thesis
    by (simp add: add_canonical_def canonical_idempotency_key_def mp_entries_def jget_def
        find_memory_id_by_idempotency_key_def find_canonical_memory_id_by_idempotency_key_def fetch_one_def
        write_document_stage_def insert_document_def find_document_def insert_trigger_def insert_key_def
        key_row_ok_def mp_engine_def mp_empty_def start_op_def Let_def note_intent_def
        advance_op_def mp_write_def)
qed

theorem keyed_write_is_idempotent_witness:
  "\<exists>en'. add_canonical (mp_write 7) mp_entries (mp_engine mp_empty) = (en', Inr 7) \<and>
     add_canonical (mp_write 8) mp_entries en' = (en', Inr 7)"
proof -
  obtain en' where w: "add_canonical (mp_write 7) mp_entries (mp_engine mp_empty) = (en', Inr 7)"
    using mp_first_write by blast
  have m: "jget mp_entries ''idempotency_key'' = JText ''ik''" "distinct (map fst mp_entries)"
    by (simp_all add: mp_entries_def jget_def)
  have r: "registered (en_store (mp_engine mp_empty))" "en_connected (mp_engine mp_empty)"
    using mp_empty_registered by (simp_all add: mp_engine_def)
  from keyed_write_is_idempotent [OF r m(2,1) _ w m(1), of "mp_write 8"] w show ?thesis by auto
qed

text \<open>
  C7: a memory written by a summary worker is accepted only under a live claim. Whatever others do between
  the check and the write, an acceptance that turns a memory that was not accepted into an accepted one
  found the fence active, and the memory still staged under the token of that very claim; and no call,
  rejections included, changes a memory that is already accepted.
\<close>

theorem acceptance_needs_active_claim:
  assumes "accept_summary_source_write h repr now i f st mnow seen en = (en', r)"
    and "object_of i en = Some m" and "object_of i en' = Some m'"
  shows "if is_summary_source_accepted m then m' = m
    else \<not> is_summary_source_accepted m' \<or>
      (r = Inr True \<and> summary_source_fence_is_active f mnow st \<and> fence_recorded h repr (Some f) m \<and>
       truthy (jget m ''summary_source_pending''))"
  using assms(1)
proof (cases rule: accept_write_cases)
  case kept
  with assms(2,3) show ?thesis by simp
next
  case (activated k)
  with assms(2,3) show ?thesis by (simp add: is_summary_source_accepted_def [of m])
next
  case (rejected k)
  then have "m' = source_state_update True m" "\<not> is_summary_source_accepted m"
    using assms(2,3) by (simp_all add: is_summary_source_accepted_def)
  then show ?thesis by simp
qed

definition mp_staged :: metadata where
  "mp_staged = [(''source_fence'', JText ''sha''), (''summary_source_orphan'', JBool True),
     (''summary_source_pending'', JBool True)]"

definition mp_staging :: engine where
  "mp_staging = mp_engine \<lparr>ca_documents =
     [\<lparr>dc_id = 7, dc_text = ''text'', dc_metadata = Some (JObject mp_staged)\<rparr>], ca_keys = [], ca_conflicts = []\<rparr>"

lemma mp_staging_object: "object_of 7 mp_staging = Some mp_staged"
  by (simp add: object_of_def mp_staging_def mp_engine_def find_document_def fetch_one_def)

lemma mp_fence_active: "summary_source_fence_is_active (claim_fence sc_claim) 20 sc_claimed"
proof -
  have "claim_matches sc_claim 20 sc_claimed"
    using sc_matches [where t = 20 and cs = "st_candidates sc_claimed" and m = "st_meta sc_claimed"] by simp
  then show ?thesis
    by (simp add: summary_source_fence_is_active_def claim_matches_def sc_claimed_tables)
qed

lemma mp_accept: "\<exists>en'. accept_summary_source_write sc_host (\<lambda>_. '''') 20 7 (claim_fence sc_claim) sc_claimed 20
    mp_staging mp_staging = (en', Inr True) \<and> object_of 7 en' = Some (source_state_update False mp_staged)"
proof -
  have load: "load_summary_source_metadata 7 mp_staging = Some mp_staged"
    by (simp add: load_summary_source_metadata_def mp_staging_def mp_engine_def find_document_def fetch_one_def)
  have pending: "\<not> is_summary_source_accepted mp_staged" "truthy (jget mp_staged ''summary_source_pending'')"
    by (simp_all add: is_summary_source_accepted_def mp_staged_def jget_def)
  have rec: "fence_recorded sc_host (\<lambda>_. '''') (Some (claim_fence sc_claim)) mp_staged"
    by (simp add: fence_recorded_def mp_staged_def jget_def opaque_token_def sc_host_def)
  have key: "document_key (Some (JObject mp_staged)) = None"
    "document_key (Some (JObject (source_state_update False mp_staged))) = None"
    by (simp_all add: document_key_def mp_staged_def source_state_update_def)
  obtain en' ok where run: "apply_summary_source_state sc_host (\<lambda>_. '''') 20 7 False (Some ''derived_pending'')
      (Some (claim_fence sc_claim)) True mp_staging = (en', ok)" by fastforce
  then have ok: "ok"
    using rec pending key
    by (auto simp: apply_summary_source_state_def mp_staging_def mp_engine_def find_document_def fetch_one_def
        update_trigger_def Let_def)
  have "object_of 7 en' = Some (source_state_update False mp_staged)"
    using run
  proof (cases rule: apply_state_cases)
    case (written m)
    with mp_staging_object show ?thesis by simp
  qed (use ok in simp)
  moreover have "en_connected mp_staging" by (simp add: mp_staging_def mp_engine_def)
  ultimately show ?thesis
    using load pending run ok mp_fence_active
    by (simp add: accept_summary_source_write_def activate_summary_source_def write_summary_source_state_def)
qed

theorem acceptance_needs_active_claim_witness:
  "\<exists>en' m'. accept_summary_source_write sc_host (\<lambda>_. '''') 20 7 (claim_fence sc_claim) sc_claimed 20
    mp_staging mp_staging = (en', Inr True) \<and> object_of 7 en' = Some m' \<and> is_summary_source_accepted m' \<and>
    fence_recorded sc_host (\<lambda>_. '''') (Some (claim_fence sc_claim)) mp_staged"
proof -
  obtain en' where a: "accept_summary_source_write sc_host (\<lambda>_. '''') 20 7 (claim_fence sc_claim) sc_claimed 20
      mp_staging mp_staging = (en', Inr True)" "object_of 7 en' = Some (source_state_update False mp_staged)"
    using mp_accept by blast
  have "\<not> is_summary_source_accepted mp_staged"
    by (simp add: is_summary_source_accepted_def mp_staged_def jget_def)
  with acceptance_needs_active_claim [OF a(1) mp_staging_object a(2)] a show ?thesis by simp
qed

section \<open>Progress and termination\<close>

text \<open>
  C9: the queue never stalls. While a window is ready, its session has a free slot and the global limit is
  not reached, a call of \<open>claim_ready\<close> with valid labels returns, and it hands out a claim or takes that
  window's unreadable row out of the queue.
\<close>

theorem claim_ready_makes_progress:
  assumes "reachable h st" and "st_connected st" and "0 < limit"
    and "\<And>i. valid_label (token i)" and "valid_label scheduler"
    and "item \<in> set (st_jobs st)" and "ready_row st (max 0 now) item"
    and "rowcount (\<lambda>j. active_row st (max 0 now) j \<and> jb_session_id j = jb_session_id item) (st_jobs st)
      < max 1 per_session"
    and "global_limit = None \<or> rowcount (active_row st (max 0 now)) (st_jobs st) < coalesce 0 global_limit"
  shows "\<exists>st' claims. claim_ready json now scheduler limit per_session lease_seconds order hint global_limit token st
      = (st', Inr claims) \<and> (claims \<noteq> [] \<or> blocked_in (jb_job_id item) (st_jobs st'))"
  using claim_ready_progress [OF reachable_ok [OF assms(1)] assms(2,3) _ assms(5-8)] assms(4,9)
  by (cases global_limit) simp_all

theorem claim_ready_makes_progress_witness:
  "\<exists>st' claims. claim_ready (ho_json sc_host) 11 ''w'' 1 1 120 [] None (Some 1) (\<lambda>_. ''tok'') sc_planned
     = (st', Inr claims) \<and> (claims \<noteq> [] \<or> blocked_in ''j1'' (st_jobs st'))"
proof -
  have row: "jb_job_id sc_job = ''j1''" "ready_row sc_planned 11 sc_job" "\<not> active_row sc_planned 11 sc_job"
    by (simp_all add: ready_row_def active_row_def current_job_def epoch_at_def sc_planned_def sc_epoch_def
        sc_row_defs)
  have jobs: "st_jobs sc_planned = [sc_job]" "st_connected sc_planned"
    by (simp_all add: sc_planned_def sc_filled_tables)
  have lab: "valid_label ''tok''" "valid_label ''w''"
    by (simp_all add: valid_label_def py_strip_def strip_of_def py_space_def max_text_length_def)
  show ?thesis
    using claim_ready_makes_progress [OF sc_reach_planned jobs(2) _ _ lab(2), of 1 "\<lambda>_. ''tok''" sc_job 11 1 "Some 1"
        "ho_json sc_host" 120 "[]" None] row jobs lab(1)
    by simp
qed




end
