(* ===== verification/Spec2Isabelle.thy ===== *)
theory Spec2Isabelle
  imports Status_Properties Memory_Properties
begin

text \<open>
  Memora is a long-term memory plugin for a chat bot. It stores every message of a session, and
  background workers summarise the messages in windows into durable memories kept in another
  database. This development models the part that must not lose or repeat work: the durable queue of
  summary jobs (\<open>core/features/conversation/infrastructure/summary_*.py\<close>) with its data objects
  (\<open>core/features/reflection/domain/summary_models.py\<close>), a SQLite store whose transactions plan,
  claim, commit, fail, recover, reconcile, abandon and finally delete the source of windows. It also
  models the side of the memory store that the queue depends on: the idempotency keys of memories, their
  journal, the acceptance of a summary's memory under its claim
  (\<open>core/features/memory/application/memory_engine_idempotency.py\<close> and
  \<open>core/features/memory/infrastructure/canonical_idempotency.py\<close>), and the re-ranking of search results by
  relevance and diversity (\<open>core/shared/mmr.py\<close>).

  How the parts interact. Messages get consecutive sequence numbers per session. The planner cuts the
  numbers after the last window into windows and inserts a queued job for each window whose messages
  are all there. A scheduler claims ready jobs: the row becomes running under a fresh token, a lease
  and a raised worker generation. Before a worker writes a memory it records the slot, digest and
  idempotency key in the candidate ledger; every later operation first checks that its claim still
  matches the row (token, generation, lease, epoch, range, digest, scope). A commit settles the ledger,
  closes the job and advances the session's cursor over the settled prefix; a failure schedules a retry
  or blocks the job; an expired lease is recovered by any process. A window whose side effects are not
  certain becomes unknown, and only reconciliation with the memory store, or an operator, closes it.
  Messages are deleted only behind the cursor and only while the ledger of the epoch is intact. A worker
  writes each memory as a staged document under its idempotency key; the memory engine asks the summary
  store whether the claim is still valid before it accepts the document, and after a crash the summary
  store asks the memory engine by the same key which document a slot wrote.

  Theories, in the order of their imports:
  \<^item> \<open>Memora_Prelude\<close>: errors as values, Python text and integer helpers, SQL tables as lists
    (\<open>update_where\<close>, \<open>rowcount\<close>, \<open>fetch_one\<close>) and the lemmas on keyed tables.
  \<^item> \<open>Summary_Models\<close>: the enumerations, the data objects and their validating constructors, the
    retry back-off.
  \<^item> \<open>Summary_Tables\<close>: the rows, the CHECK constraints and keys, the record \<open>store\<close> of all tables, the
    record \<open>host\<close> of outside functions, \<open>_ensure_epoch\<close> and \<open>_advance_cursor\<close>.
  \<^item> \<open>Summary_Windows\<close>: the window invariant (the jobs of an epoch tile the sequence numbers from 0) and
    the locale \<open>window_update\<close>, the contract under which an update of job rows keeps it.
  \<^item> \<open>Summary_Planner\<close>: scope metadata, frontier check, window ranges, \<open>plan_and_enqueue_windows\<close>.
  \<^item> \<open>Summary_Invariant\<close>: the store invariant \<open>store_ok\<close>, the guarantee \<open>store_evolves\<close> of every operation
    (jobs are never deleted, generations and epochs never fall, cursors never move back within an
    epoch), and the locale \<open>job_update\<close> that gives both for one UPDATE of the job table.
  \<^item> \<open>Summary_Claims\<close>, \<open>Summary_Intents\<close>, \<open>Summary_Commit\<close>, \<open>Summary_Ledger\<close>, \<open>Summary_Retries\<close>,
    \<open>Summary_Trim\<close>, \<open>Summary_Abandon\<close>, \<open>Summary_Reconcile\<close>, \<open>Summary_Startup\<close> (recovery after a crash): one
    component each, with the interpretation of the locales on every UPDATE statement of the component.
  \<^item> \<open>Summary_System\<close>: one rule per operation (\<open>summary_step\<close>), the states reachable from the empty store,
    and the invariants of every reachable state.
  \<^item> \<open>Summary_Coverage\<close>: what an accepted plan looks like. \<open>Summary_Scenario\<close>: a concrete run, each state
    computed by the operations, that the witnesses use.
  \<^item> \<open>Summary_Progress\<close>: a call that claims ready windows returns, and makes progress.
  \<^item> \<open>Summary_Sources\<close>: reading the source of a claimed window and checking it against the digest it was
    planned with. \<open>Conversation_Messages\<close>: the message operations the source depends on.
  \<^item> \<open>Summary_Status\<close>: the status snapshot, as the store computes it and as it travels between processes.
    \<open>Summary_Scope\<close>: the scope columns read back, and planning over all sessions at start-up.
  \<^item> \<open>Memory_Status\<close>: JSON documents and the life-cycle status of a memory. \<open>Canonical_Keys\<close>: the key table
    with its triggers, rebuild, validation and lookups. \<open>Canonical_Registry\<close>: the key table as a refinement
    of the documents, by the locale \<open>simulation\<close>, which the store with triggers interprets.
    \<open>Canonical_Merged\<close>: the lookup of merged keys.
  \<^item> \<open>Memory_Writes\<close>: the write journal, \<open>add_memory\<close> and the acceptance of a staged memory.
  \<^item> \<open>Rerank_Mmr\<close>: selection by maximal marginal relevance.
  \<^item> \<open>Recovery_Properties\<close>, \<open>Source_Properties\<close>, \<open>Status_Properties\<close>, \<open>Memory_Properties\<close> and this theory: the
    properties, over reachable states of the summary store and over runs of the memory store, each with
    the concrete run that witnesses it.

  How the model reads the code. A transaction is a function from the store to the store and an answer;
  a rollback gives back the store it started from, and so does an exception or a cancellation. A CHECK
  or key violation is the value None of the statement. Every reading of the clock is a separate
  argument, so the time may move between two readings of one operation. Identifiers, tokens and the
  installation secret are arguments. SHA-256, HMAC-SHA256 and the JSON classifier are the functions of
  the record \<open>host\<close>, about which nothing is assumed. Python integers are \<open>int\<close>, its floating-point times
  are \<open>real\<close>, text is a list of 8-bit characters, an enumeration member is a constructor. Metadata
  columns are decoded documents; the pending projection keeps the four scalars instead of their JSON
  text. A JSON document is the tree \<open>jvalue\<close>, an object in it an association list; the parser and printer of
  SQLite and the text of floats are arguments. Where other tasks may run between two steps of one handler,
  the state before and after them are separate arguments. The document table belongs to the host and is
  known only by its columns. Loops are structural recursions over the rows; \<open>settled_prefix\<close>, \<open>plan_ranges\<close>
  and \<open>mmr_loop\<close> end by a measure, so no fuel is used anywhere.

  What is not modelled: logging, the participants and activity times of a session, the asynchronous
  locks (the transactions are serialised by SQLite, and the step relation interleaves them in any
  order), failures of SQLite other than constraint violations, the migrations from older schema
  versions, exceptions and cancellation inside the callbacks of start-up planning (which runs as one
  sequence here), the vector, full-text, atom and graph indexes of a memory and the repair of interrupted
  writes, the updates of the document table by other parts of the program (any sequence of inserts,
  metadata updates and deletions is covered), and the rest of the program, which \<open>PROJECT.json\<close> lists by
  component.
\<close>

section \<open>Source evidence and deletion\<close>

text \<open>
  C1: when a commit closes a window as completed, the candidate ledger it leaves for that window is
  complete and agrees with the job's counters, so the window never blocks the trim of its source.
\<close>

theorem completed_window_never_blocks_trim:
  assumes "reachable h st"
    and "commit_window h fresh c w now mnow mnow2 st = (st', r)"
    and "cr_accepted r" and "cr_status r = Completed"
  shows "\<exists>j \<in> set (st_jobs st'). jb_job_id j = sj_job_id (cj_job c) \<and> jb_status j = Completed \<and>
    \<not> job_blocks_trim (st_candidates st') j"
proof -
  from commit_window_completed [OF assms(2-4)] obtain ks where cc: "completed_commit c w now ks st st'" ..
  then have one: "rowcount (close_guard c) (st_jobs st) = 1"
    and jobs: "st_jobs st' = update_where (close_guard c)
      (commit_update w Completed (wo_reason_code w) None now) (st_jobs st)"
    by (simp_all add: completed_commit_def)
  from one obtain j where j: "j \<in> set (st_jobs st)" "close_guard c j"
    by (metis rowcount_zero zero_neq_one)
  let ?k = "commit_update w Completed (wo_reason_code w) None now j"
  have "keyed (st_candidates st)" using reachable_system_ok [OF assms(1)] by (simp add: system_ok_def)
  from completed_commit_ledger [OF cc this j(2) refl] have "\<not> job_blocks_trim (st_candidates st') ?k" .
  moreover have "?k \<in> set (st_jobs st')" using j by (auto simp: jobs set_update_where)
  ultimately show ?thesis
    using j(2) by (intro bexI [of _ ?k]) (simp_all add: commit_update_def close_guard_def)
qed

theorem completed_window_never_blocks_trim_witness:
  "\<exists>j \<in> set (st_jobs sc_committed). jb_job_id j = ''j1'' \<and> jb_status j = Completed \<and>
    \<not> job_blocks_trim (st_candidates sc_committed) j"
  using completed_window_never_blocks_trim [OF sc_reach_recorded sc_commit]
  by (simp add: completion_def sc_claim_id)

text \<open>
  C2: a trim deletes only messages that lie in a window of the named epoch that was completed, or that
  an operator confirmed as abandoned, and whose ledger is intact.
\<close>

theorem trim_deletes_only_settled_windows:
  assumes "reachable h st"
    and "m \<in> set (st_messages st)" and "m \<notin> set (st_messages (fst (trim_if_safe s e n q st)))"
    and "ms_seq m = Some k" and "0 < k"
  shows "ms_session_id m = s \<and> (\<exists>j \<in> set (st_jobs st). jb_session_id j = s \<and> jb_session_epoch j = e \<and>
    jb_start_seq j < k \<and> k \<le> jb_end_seq j \<and> jb_status j \<in> {Completed, Abandoned} \<and>
    \<not> job_blocks_trim (st_candidates st) j)"
proof -
  have ok: "store_ok st" "distinct (map ms_id (st_messages st))"
    using reachable_system_ok [OF assms(1)] by (simp_all add: system_ok_def)
  from trim_only_summarised [OF ok assms(2-5)] trim_deleted [OF ok(2) assms(2,3)]
  show ?thesis by blast
qed

theorem trim_deletes_only_settled_windows_witness:
  "\<exists>j \<in> set (st_jobs sc_committed). jb_start_seq j < 1 \<and> 1 \<le> jb_end_seq j \<and>
    jb_status j \<in> {Completed, Abandoned}"
proof -
  have "sc_message 1 \<in> set (st_messages sc_committed)"
    "sc_message 1 \<notin> set (st_messages (fst (trim_if_safe ''s'' 1 1 NoChecker sc_committed)))"
    using sc_trim by (simp_all add: sc_committed_tables sc_trimmed_def sc_message_def)
  from trim_deletes_only_settled_windows [OF sc_reach_committed this, of 1]
  show ?thesis by (auto simp: sc_message_def)
qed

text \<open>
  C3: a trim deletes the oldest messages of the session first: a message of the session that survives
  is not older than one that was deleted.
\<close>

theorem trim_deletes_oldest_first:
  assumes "reachable h st"
    and "m \<in> set (st_messages st)" and "m \<notin> set (st_messages (fst (trim_if_safe s e n q st)))"
    and "x \<in> set (st_messages (fst (trim_if_safe s e n q st)))" and "ms_session_id x = s"
    and "ms_seq x = Some y" and "ms_seq m = Some k"
  shows "k \<le> y"
  by (rule trim_oldest_first [OF _ assms(2-7)])
    (use reachable_system_ok [OF assms(1)] in \<open>simp add: system_ok_def\<close>)

theorem trim_deletes_oldest_first_witness:
  "st_messages sc_trimmed = [sc_message 2] \<and>
   (\<exists>k y. ms_seq (sc_message 1) = Some k \<and> ms_seq (sc_message 2) = Some y \<and> k \<le> y)"
proof -
  have "sc_message 1 \<in> set (st_messages sc_committed)"
    "sc_message 1 \<notin> set (st_messages (fst (trim_if_safe ''s'' 1 1 NoChecker sc_committed)))"
    "sc_message 2 \<in> set (st_messages (fst (trim_if_safe ''s'' 1 1 NoChecker sc_committed)))"
    using sc_trim by (simp_all add: sc_committed_tables sc_trimmed_def sc_message_def)
  from trim_deletes_oldest_first [OF sc_reach_committed this, of 2 1]
  show ?thesis using sc_trim by (simp add: sc_message_def)
qed

section \<open>Claims\<close>

text \<open>
  C4: a window is closed at most once. After a commit was accepted, and after any further operations of
  any workers, every further commit under the same claim is refused as stale and changes nothing.
\<close>

theorem window_committed_at_most_once:
  assumes "reachable h st" and "commit_window h fresh c w now mnow mnow2 st = (st1, r1)"
    and "cr_accepted r1" and "summary_run h st1 st2" and "st_connected st2"
  shows "commit_window h fresh' c w' now' mnow' mnow2' st2 = (st2, claim_lost)"
proof -
  have st: "store_ok st" by (rule reachable_ok [OF assms(1)])
  have "store_ok st1"
    using commit_window_closes [of c st h fresh w now mnow mnow2] st assms(2,3)
    by (auto simp: closes_claim_def safe_step_def)
  from summary_run_evolves [OF this assms(4)] have "store_evolves st1 st2" "store_ok st2" by simp_all
  from commit_window_once [OF assms(2,3) st this assms(5)] show ?thesis .
qed

theorem window_committed_at_most_once_witness:
  "commit_window sc_host ''secret'' sc_claim sc_outcome 14 14 14 sc_committed = (sc_committed, claim_lost)"
  by (rule window_committed_at_most_once [OF sc_reach_recorded sc_commit _ summary_run.stop])
    (simp_all add: completion_def sc_committed_tables)

text \<open>
  C10: a claim that failed, or was given back, is over: whatever happens afterwards, it never matches
  its job again, so none of its later writes is accepted.
\<close>

theorem ended_claim_never_matches_again:
  assumes "reachable h st"
    and "(rr_accepted (snd (fail_window h c f now mnow st)) \<and> st1 = fst (fail_window h c f now mnow st)) \<or>
      (snd (requeue_claim h c code now st) \<and> st1 = fst (requeue_claim h c code now st))"
    and "summary_run h st1 st2"
  shows "\<not> claim_matches c t st2"
proof -
  have ok: "store_ok st" by (rule reachable_ok [OF assms(1)])
  have "store_ok st1"
    using fail_window_safe [of st h c f now mnow] requeue_claim_safe [of st h c code now] ok assms(2)
    by (auto simp: safe_step_def)
  moreover have "claim_dead c st1"
    using fail_window_ends [of h c f now mnow st] requeue_claim_ends [of h c code now st] assms(2) by blast
  ultimately show ?thesis
    using summary_run_evolves [OF _ assms(3)] claim_dead_evolves claim_dead_no_match(1) by blast
qed

theorem ended_claim_never_matches_again_witness:
  "\<not> claim_matches sc_claim 13 (fst (fail_window sc_host sc_claim sc_failure 13 13 sc_recorded))"
  by (rule ended_claim_never_matches_again [OF sc_reach_recorded _ summary_run.stop])
    (use sc_fail_accepted in blast)

text \<open>
  C11: lease recovery leaves no running job with an expired lease, and it fences the workers whose lease
  had expired: none of their claims matches in the recovered store.
\<close>

theorem recovery_fences_expired_workers:
  assumes "reachable h st" and "st_connected st"
  shows "\<not> list_ex (expired_row (max 0 now)) (st_jobs (fst (recover_expired_claims now st))) \<and>
    (list_ex (\<lambda>j. expired_row (max 0 now) j \<and> close_guard c j) (st_jobs st) \<longrightarrow>
       \<not> claim_matches c t (fst (recover_expired_claims now st)))"
proof -
  let ?st' = "fst (recover_expired_claims now st)"
  have jobs: "st_jobs ?st' = update_where (expired_row (max 0 now)) (recover_update (max 0 now)) (st_jobs st)"
    using assms(2) by (simp add: recover_expired_claims_def Let_def)
  have ok: "store_ok ?st'"
    using recover_safe [of st now] reachable_ok [OF assms(1)] by (simp add: safe_step_def)
  have "\<not> expired_row (max 0 now) j" if "j \<in> set (st_jobs ?st')" for j
    using that unfolding jobs
    by (rule update_where_memE) (auto simp: expired_row_def recover_update_def)
  moreover have "claim_dead c ?st'" if ex: "list_ex (\<lambda>j. expired_row (max 0 now) j \<and> close_guard c j) (st_jobs st)"
  proof -
    from ex obtain j where "j \<in> set (st_jobs st)" "expired_row (max 0 now) j" "close_guard c j"
      by (auto simp: list_ex_iff)
    then have "recover_update (max 0 now) j \<in> set (st_jobs ?st')" "close_guard c j"
      by (auto simp: jobs set_update_where)
    then show ?thesis
      unfolding claim_dead_def
      by (intro bexI [of _ "recover_update (max 0 now) j"]) (auto simp: recover_update_def close_guard_def)
  qed
  ultimately show ?thesis using claim_dead_no_match(1) [OF _ ok] by (auto simp: list_ex_iff)
qed

theorem recovery_fences_expired_workers_witness:
  "\<not> claim_matches sc_claim 200 (fst (recover_expired_claims 200 sc_recorded))"
proof -
  have "list_ex (\<lambda>j. expired_row (max 0 200) j \<and> close_guard sc_claim j) (st_jobs sc_recorded)"
    by (simp add: sc_recorded_tables sc_guard expired_row_def) (simp add: sc_row_defs)
  with recovery_fences_expired_workers [OF sc_reach_recorded, of 200 sc_claim 200]
  show ?thesis by (simp add: sc_recorded_tables)
qed

text \<open>
  C12: a call of \<open>claim_ready\<close> respects every limit: no more claims than asked for, no more running
  jobs than the global limit (unless there already were), at most the per-session limit of running
  jobs in a session (again unless there already were), and one new claim per session.
\<close>

theorem claim_limits_hold:
  assumes "reachable h st" and "0 < limit"
    and "claim_ready json now scheduler limit per_session lease_seconds order hint global_limit token st
      = (st', Inr claims)"
  shows "int (length claims) \<le> limit \<and>
    (\<forall>g. global_limit = Some g \<longrightarrow> rowcount (active_row st' (max 0 now)) (st_jobs st') \<le>
      max g (rowcount (active_row st (max 0 now)) (st_jobs st))) \<and>
    (\<forall>s. rowcount (\<lambda>j. active_row st' (max 0 now) j \<and> jb_session_id j = s) (st_jobs st') \<le>
      max (max 1 per_session) (rowcount (\<lambda>j. active_row st (max 0 now) j \<and> jb_session_id j = s) (st_jobs st)))"
proof -
  note ok = reachable_ok [OF assms(1)]
  from claim_ready_result [OF ok assms(3)]
  show ?thesis
  proof (elim disjE exE conjE)
    assume "claims = []" "st' = st"
    with assms(2) show ?thesis by simp
  next
    fix cs
    let ?cp = "claim_call json now scheduler limit per_session lease_seconds global_limit token st"
    assume inv: "claim_inv ?cp st cs" and cs: "cs_claims cs = claims" "st_jobs st' = cs_jobs cs"
      "st_epochs st' = st_epochs st"
    have act: "active_row st' = active_row st"
      using cs(3) by (simp add: fun_eq_iff active_row_def current_job_def epoch_at_def)
    have cp: "cp_stamp ?cp = max 0 now" "cp_limit ?cp = limit" "cp_per_session ?cp = per_session"
      "cp_available ?cp = map_option
        (\<lambda>g. max 0 (g - rowcount (active_row st (max 0 now)) (st_jobs st))) global_limit"
      by (simp_all add: claim_call_def)
    show ?thesis
    proof (intro conjI allI impI)
      show "int (length claims) \<le> limit"
        using inv assms(2) cs(1) cp(2) unfolding claim_inv_def by (cases "claims = []") auto
      show "rowcount (active_row st' (max 0 now)) (st_jobs st') \<le>
          max g (rowcount (active_row st (max 0 now)) (st_jobs st))" if "global_limit = Some g" for g
        using inv that cs cp act unfolding claim_inv_def by (cases "claims = []") auto
      show "rowcount (\<lambda>j. active_row st' (max 0 now) j \<and> jb_session_id j = s) (st_jobs st') \<le>
          max (max 1 per_session) (rowcount (\<lambda>j. active_row st (max 0 now) j \<and> jb_session_id j = s) (st_jobs st))"
        for s using inv cs(2) cp(1,3) unfolding claim_inv_def act by metis
    qed
  qed
qed

theorem claim_limits_hold_witness:
  "int (length [sc_claim]) \<le> 1 \<and>
   rowcount (\<lambda>j. active_row sc_claimed (max 0 11) j \<and> jb_session_id j = ''s'') (st_jobs sc_claimed) \<le>
     max (max 1 1) (rowcount (\<lambda>j. active_row sc_planned (max 0 11) j \<and> jb_session_id j = ''s'') (st_jobs sc_planned))"
  using claim_limits_hold [OF sc_reach_planned _ sc_claim_ready] by simp

text \<open>
  C13: a claim that \<open>claim_ready\<close> hands out is immediately usable: as long as its lease has not run out
  it matches its job, which is running under its token with the raised generation and at most three
  attempts. The rows must be normal, that is, written without outer white space, as the planner does.
\<close>

theorem granted_claims_match:
  assumes "reachable h st"
    and "claim_ready json now scheduler limit per_session lease_seconds order hint global_limit token st
      = (st', Inr claims)"
    and "\<forall>j \<in> set (st_jobs st). row_normal j \<and> py_strip (token (jb_job_id j)) = token (jb_job_id j)"
    and "c \<in> set claims" and "t < max 0 now + of_int (max 1 lease_seconds)"
  shows "claim_matches c t st' \<and> sj_attempt_count (cj_job c) \<le> 3 \<and> 1 \<le> cj_worker_generation c"
proof -
  let ?cp = "claim_call json now scheduler limit per_session lease_seconds global_limit token st"
  from claim_ready_result [OF reachable_ok [OF assms(1)] assms(2)] assms(4) obtain cs
    where inv: "claim_inv ?cp st cs" and cs: "cs_claims cs = claims" "st_jobs st' = cs_jobs cs"
      "st_epochs st' = st_epochs st" by auto
  from inv cs(1) assms(4) have "granted ?cp st (cs_jobs cs) c" by (auto simp: claim_inv_def)
  then obtain item dto where g: "item \<in> set (st_jobs st)" "ready_row st (max 0 now) item"
    "claimed_row ?cp item \<in> set (st_jobs st')" "row_job json (claimed_row ?cp item) = Inr dto"
    "make_claim dto (token (jb_job_id item)) scheduler (cp_lease ?cp) (jb_worker_generation item + 1) = Inr c"
    unfolding granted_def cs(2) by (auto simp: claim_call_def)
  let ?j = "claimed_row ?cp item"
  have j: "jb_status ?j = Running" "jb_claim_token ?j = Some (token (jb_job_id item))"
    "jb_lease_until ?j = Some (cp_lease ?cp)" "jb_worker_generation ?j = jb_worker_generation item + 1"
    "jb_attempt_count ?j = jb_attempt_count item + 1"
    by (simp_all add: claimed_row_def claim_update_def claim_call_def)
  have n: "row_normal ?j" "py_strip (token (jb_job_id item)) = token (jb_job_id item)"
    using assms(3) g(1) by (auto simp: row_normal_def claimed_row_def claim_update_def)
  have cur: "current_job st' ?j"
    using g(2) cs(3) by (auto simp: ready_row_def current_job_def epoch_at_def claimed_row_def claim_update_def)
  have "fence_row (claim_fence c) t st' ?j"
    by (rule granted_row_matches [OF g(4) n(1) _ j(1-3) n(2) _ cur])
      (use g(5) j(4) assms(5) in \<open>simp_all add: claim_call_def\<close>)
  then have "claim_matches c t st'" using g(3) by (auto simp: claim_matches_def list_ex_iff)
  moreover have "sj_attempt_count dto = jb_attempt_count item + 1"
    using make_job_fields(8) [OF g(4) [unfolded row_job_def]] j(5) by (simp add: job_dto_def)
  ultimately show ?thesis using g(2,5) by (auto simp: make_claim_Inr ready_row_def)
qed

theorem granted_claims_match_witness: "claim_matches sc_claim 130 sc_claimed"
proof -
  have "\<forall>j \<in> set (st_jobs sc_planned). row_normal j \<and> py_strip ''tok'' = ''tok''"
    by (simp add: sc_planned_def row_normal_def sc_job_def window_job_def sc_context_def text_eval
        none_if_empty_def context_scope_available_def)
  from granted_claims_match [OF sc_reach_planned sc_claim_ready this, of sc_claim 130]
  show ?thesis by simp
qed

section \<open>Planning and the cursor\<close>

text \<open>
  C14: an accepted plan leaves no gap: every message before the observed end (the very last one may be
  left for the next plan) lies in a window of the epoch.
\<close>

theorem accepted_plan_covers_messages:
  assumes "reachable h st"
    and "plan_and_enqueue_windows h c observed strict now active_now uuid st = (st', Inr res)"
    and "er_accepted res" and "0 < n" and "n < observed"
  shows "\<exists>j \<in> set (epoch_jobs st' (cx_session_id c) (cx_session_epoch c)).
    jb_start_seq j < n \<and> n \<le> jb_end_seq j"
  by (rule plan_covers [OF reachable_ok [OF assms(1)] assms(2-5)])

theorem accepted_plan_covers_messages_witness:
  "\<exists>j \<in> set (epoch_jobs sc_planned ''s'' 1). jb_start_seq j < 1 \<and> 1 \<le> jb_end_seq j"
  using accepted_plan_covers_messages [OF sc_reach_filled sc_plan, of 1]
  by (simp add: sc_context_def)

text \<open>
  C15: a window is queued for summarising only when its source is complete: the stored messages of its
  range carry exactly the sequence numbers of the range, one each; otherwise it is blocked.
\<close>

theorem queued_windows_have_complete_source:
  assumes "reachable h st"
    and "plan_and_enqueue_windows h c observed strict now active_now uuid st = (st', Inr res)"
    and "er_accepted res" and "j \<in> set (st_jobs st')" and "j \<notin> set (st_jobs st)"
  shows "jb_status j \<in> {Queued, Blocked} \<and> (jb_status j = Queued \<longrightarrow>
    row_seqs (source_rows (cx_session_id c) (jb_start_seq j) (jb_end_seq j) st) =
      [jb_start_seq j + 1..jb_end_seq j])"
proof -
  from plan_accepted_view [OF reachable_ok [OF assms(1)] assms(2,3)] obtain v
    where "planned_view h c observed st st' v" ..
  with assms(4,5) show ?thesis
    by (auto simp: planned_view_def Let_def planned_job_def window_complete_def source_intact_def in_epoch_def)
qed

theorem queued_windows_have_complete_source_witness:
  "row_seqs (source_rows ''s'' (jb_start_seq sc_job) (jb_end_seq sc_job) sc_filled) =
     [jb_start_seq sc_job + 1..jb_end_seq sc_job]"
  using queued_windows_have_complete_source [OF sc_reach_filled sc_plan, of sc_job]
  by (simp add: sc_planned_def sc_filled_tables) (simp add: sc_job_def window_job_def sc_context_def)

text \<open>
  C16: planning is idempotent: repeating an accepted plan for the same observed end, at any later time,
  adds no window and changes none.
\<close>

theorem replanning_adds_nothing:
  assumes "reachable h st"
    and "plan_and_enqueue_windows h c observed strict now active_now uuid st = (st', Inr res)"
    and "er_accepted res"
  shows "st_jobs (fst (plan_and_enqueue_windows h c observed strict' now' active_now' uuid' st')) = st_jobs st'"
  by (rule plan_again [OF reachable_ok [OF assms(1)] assms(2,3)])

theorem replanning_adds_nothing_witness:
  "st_jobs (fst (plan_and_enqueue_windows sc_host sc_context 2 True 99 99 sc_uuid sc_planned)) = [sc_job]"
  using replanning_adds_nothing [OF sc_reach_filled sc_plan] by (simp add: sc_planned_def)

text \<open>
  C17: the windows of a session's current epoch partition what they cover: every sequence number up to
  the end of the last window lies in exactly one window.
\<close>

theorem windows_partition_the_epoch:
  assumes "reachable h st" and "st_epochs st s = Some r"
    and "k \<in> set (epoch_jobs st s (eo_epoch r))" and "0 < n" and "n \<le> jb_end_seq k"
  shows "\<exists>!j. j \<in> set (epoch_jobs st s (eo_epoch r)) \<and> jb_start_seq j < n \<and> n \<le> jb_end_seq j"
  by (rule windows_ok_unique [OF store_okD(4) [OF reachable_ok [OF assms(1)] assms(2)] assms(4,3,5)])

theorem windows_partition_the_epoch_witness:
  "\<exists>!j. j \<in> set (epoch_jobs sc_claimed ''s'' 1) \<and> jb_start_seq j < 2 \<and> 2 \<le> jb_end_seq j"
proof -
  have "sc_running \<in> set (epoch_jobs sc_claimed ''s'' (eo_epoch sc_epoch))" "2 \<le> jb_end_seq sc_running"
    by (simp_all add: epoch_jobs_def sc_claimed_tables in_epoch_def sc_epoch_def) (simp_all add: sc_row_defs)
  from windows_partition_the_epoch [OF sc_reach_claimed, of "''s''" sc_epoch, OF _ this(1) _ this(2)]
  show ?thesis by (simp add: sc_claimed_tables sc_epoch_def)
qed

text \<open>
  C18: the frontier check never rejects a state the store itself produced: in every reachable state it
  finds the end of the last window, at or after the cursor.
\<close>

theorem frontier_check_accepts_reachable_states:
  assumes "reachable h st" and "st_epochs st s = Some r"
  shows "\<exists>f. validated_frontier s (eo_epoch r) (eo_cursor_seq r) st = Some f \<and> eo_cursor_seq r \<le> f \<and>
    (\<forall>j \<in> set (epoch_jobs st s (eo_epoch r)). jb_end_seq j \<le> f)"
proof -
  let ?js = "epoch_jobs st s (eo_epoch r)"
  have w: "windows_ok (eo_cursor_seq r) ?js" by (rule store_okD(4) [OF reachable_ok [OF assms(1)] assms(2)])
  then have "tiles 0 ?js" by (simp add: windows_ok_def)
  with validated_frontier_windows [OF w] windows_ok_cursor_le [OF w] tiles_bounds
  show ?thesis by blast
qed

theorem frontier_check_accepts_reachable_states_witness:
  "\<exists>f. validated_frontier ''s'' 1 0 sc_claimed = Some f \<and>
    (\<forall>j \<in> set (epoch_jobs sc_claimed ''s'' 1). jb_end_seq j \<le> f)"
  using frontier_check_accepts_reachable_states [OF sc_reach_claimed, of "''s''" sc_epoch]
  by (auto simp: sc_claimed_tables sc_epoch_def)

text \<open>
  C19: \<open>_advance_cursor\<close> moves the cursor forward over settled windows only, and as far as it can: it
  stops where no completed or abandoned window starts.
\<close>

theorem cursor_passes_exactly_settled_windows:
  assumes "reachable h st" and "epoch_at st s e = Some r"
  shows "eo_cursor_seq r \<le> fst (advance_cursor s e now st) \<and>
    (\<forall>j \<in> set (epoch_jobs st s e). eo_cursor_seq r < jb_end_seq j \<longrightarrow>
       jb_end_seq j \<le> fst (advance_cursor s e now st) \<longrightarrow> settled_status (jb_status j)) \<and>
    (\<forall>j \<in> set (epoch_jobs st s e). jb_start_seq j = fst (advance_cursor s e now st) \<longrightarrow>
       \<not> settled_status (jb_status j))"
proof -
  let ?js = "epoch_jobs st s e"
  from assms(2) have r: "st_epochs st s = Some r" "eo_epoch r = e"
    by (auto simp: epoch_at_def split: option.splits if_splits)
  have w: "windows_ok (eo_cursor_seq r) ?js"
    using store_okD(4) [OF reachable_ok [OF assms(1)] r(1)] r(2) by simp
  then have pos: "\<And>j. j \<in> set ?js \<Longrightarrow> jb_start_seq j < jb_end_seq j"
    using tiles_bounds by (auto simp: windows_ok_def)
  have c: "fst (advance_cursor s e now st) = settled_prefix ?js (eo_cursor_seq r)"
    by (simp add: advance_cursor_def Let_def assms(2))
  show ?thesis
    unfolding c using settled_prefix_ge settled_prefix_passed [OF w] settled_prefix_stops [of ?js] pos
    by (simp add: next_settled_None)
qed

theorem cursor_passes_exactly_settled_windows_witness:
  "0 \<le> fst (advance_cursor ''s'' 1 20 sc_claimed)"
  using cursor_passes_exactly_settled_windows [OF sc_reach_claimed, of "''s''" 1 sc_epoch 20]
  by (simp add: epoch_at_def sc_claimed_tables sc_epoch_def)

text \<open>
  C20: no window behind the cursor is ever claimed again: every claim starts at or after the cursor of
  its session's current epoch.
\<close>

theorem claims_start_at_or_after_cursor:
  assumes "reachable h st"
    and "claim_ready json now scheduler limit per_session lease_seconds order hint global_limit token st
      = (st', Inr claims)"
    and "\<forall>j \<in> set (st_jobs st). row_normal j" and "c \<in> set claims"
    and "st_epochs st (sj_session_id (cj_job c)) = Some r"
  shows "eo_epoch r = sj_session_epoch (cj_job c) \<and> eo_cursor_seq r \<le> sj_start_seq (cj_job c)"
proof -
  let ?cp = "claim_call json now scheduler limit per_session lease_seconds global_limit token st"
  note ok = reachable_ok [OF assms(1)]
  from claim_ready_result [OF ok assms(2)] assms(4) obtain cs
    where inv: "claim_inv ?cp st cs" and cs: "cs_claims cs = claims" by auto
  with assms(4) have "granted ?cp st (cs_jobs cs) c" by (auto simp: claim_inv_def)
  then obtain i dto where g: "i \<in> set (st_jobs st)" "ready_row st (max 0 now) i"
    "row_job json (claimed_row ?cp i) = Inr dto" "cj_job c = dto"
    unfolding granted_def by (auto simp: claim_call_def make_claim_Inr)
  note f = make_job_fields [OF g(3) [unfolded row_job_def]]
  have dto: "sj_session_id dto = jb_session_id i" "sj_session_epoch dto = jb_session_epoch i"
    "sj_start_seq dto = jb_start_seq i"
    using f(2,4,5) assms(3) g(1)
    by (simp_all add: job_dto_def claimed_row_def claim_update_def row_normal_def)
  from g(2) assms(5) g(4) dto have r: "eo_epoch r = jb_session_epoch i"
    by (auto simp: ready_row_def current_job_def epoch_at_def split: if_splits)
  have w: "windows_ok (eo_cursor_seq r) (epoch_jobs st (jb_session_id i) (eo_epoch r))"
    using store_okD(4) [OF ok assms(5)] g(4) dto by simp
  have mem: "i \<in> set (epoch_jobs st (jb_session_id i) (eo_epoch r))"
    using g(1) r by (simp add: epoch_jobs_def in_epoch_def)
  have "\<not> spent_status (jb_status i)" using g(2) by (auto simp: ready_row_def spent_status_def)
  with w mem have "eo_cursor_seq r < jb_end_seq i" by (auto simp: windows_ok_def not_less)
  from windows_ok_side [OF w mem this] show ?thesis using r g(4) dto by simp
qed

theorem claims_start_at_or_after_cursor_witness:
  "eo_cursor_seq sc_epoch \<le> sj_start_seq (cj_job sc_claim)"
proof -
  have "\<forall>j \<in> set (st_jobs sc_planned). row_normal j"
    by (simp add: sc_planned_def row_normal_def sc_job_def window_job_def sc_context_def text_eval
        none_if_empty_def context_scope_available_def)
  from claims_start_at_or_after_cursor [OF sc_reach_planned sc_claim_ready this, of sc_claim sc_epoch]
  show ?thesis by (simp add: sc_claim_def sc_dto_def job_dto_def sc_row_defs sc_planned_def)
qed

text \<open>
  C21: over any run a session keeps its epoch row, its epoch number never falls, and within an epoch its
  cursor never moves back.
\<close>

theorem cursor_is_monotone:
  assumes "reachable h st" and "summary_run h st st'" and "st_epochs st s = Some r"
  shows "\<exists>q. st_epochs st' s = Some q \<and> eo_epoch r \<le> eo_epoch q \<and>
    (eo_epoch q = eo_epoch r \<longrightarrow> eo_cursor_seq r \<le> eo_cursor_seq q)"
proof -
  have "store_evolves st st'" using summary_run_evolves [OF reachable_ok [OF assms(1)] assms(2)] by simp
  with assms(3) show ?thesis by (fastforce simp: store_evolves_def epoch_evolves_def)
qed

theorem cursor_is_monotone_witness:
  "\<exists>q. st_epochs sc_committed ''s'' = Some q \<and> eo_cursor_seq sc_epoch \<le> eo_cursor_seq q"
proof -
  have "summary_run sc_host sc_recorded sc_committed"
    using summary_run.more [OF summary_run.stop summary_step.commit] sc_commit by (metis fst_conv)
  from cursor_is_monotone [OF sc_reach_recorded this, of "''s''" sc_epoch]
  show ?thesis by (auto simp: sc_recorded_tables sc_committed_def)
qed

section \<open>Jobs, failures and resets\<close>

text \<open>
  C22: in every reachable state exactly the running jobs carry a claim token and a lease, a running job
  has been attempted at least once, and no job has been attempted more than three times.
\<close>

theorem job_rows_are_consistent:
  assumes "reachable h st" and "j \<in> set (st_jobs st)"
  shows "(jb_status j = Running \<longleftrightarrow> jb_claim_token j \<noteq> None) \<and>
    (jb_status j = Running \<longleftrightarrow> jb_lease_until j \<noteq> None) \<and>
    0 \<le> jb_attempt_count j \<and> jb_attempt_count j \<le> 3 \<and>
    (jb_status j = Running \<longrightarrow> 1 \<le> jb_attempt_count j \<and> 1 \<le> jb_worker_generation j)"
  using store_okD(2) [OF reachable_ok [OF assms(1)] assms(2)] by (auto simp: job_ok_def max_attempts_def)

theorem job_rows_are_consistent_witness: "jb_attempt_count sc_running \<le> 3 \<and> jb_lease_until sc_running \<noteq> None"
  using job_rows_are_consistent [OF sc_reach_claimed, of sc_running]
  by (simp add: sc_claimed_tables) (simp add: sc_row_defs)





text \<open>
  C25: resetting a session fences every worker of it: after an accepted reset no claim on a job of that
  session matches, whatever its lease says, and the epoch is a new one with an empty cursor.
\<close>

theorem reset_fences_all_workers:
  assumes "reachable h st" and "reset_session_epoch h s code now st = (st', r)" and "ep_accepted r"
    and "sj_session_id (cj_job c) = s" and "sj_session_epoch (cj_job c) < ep_epoch r"
  shows "\<not> claim_matches c t st' \<and>
    (\<exists>q. st_epochs st' s = Some q \<and> eo_epoch q = ep_epoch r \<and> eo_cursor_seq q = 0)"
proof -
  obtain q0 where q0: "st_epochs (snd (ensure_epoch s now st)) s = Some q0"
    "eo_epoch q0 = fst (fst (ensure_epoch s now st))" using ensure_epoch_row by blast
  have st': "\<exists>js. st' = bump_epoch s (eo_epoch q0) now (snd (ensure_epoch s now st)\<lparr>st_jobs := js\<rparr>)"
    and e: "ep_epoch r = eo_epoch q0 + 1"
    using assms(2,3) q0(2)
    by (auto simp: reset_session_epoch_def Let_def epoch_answer_def split: if_splits option.splits)
  then obtain q where q: "st_epochs st' s = Some q" "eo_epoch q = ep_epoch r" "eo_cursor_seq q = 0"
    using q0(1) by (auto simp: bump_epoch_def epoch_at_def)
  have "\<not> fence_row (claim_fence c) t st' j" for j
  proof
    assume "fence_row (claim_fence c) t st' j"
    then have "current_job st' j" "jb_session_id j = s" "jb_session_epoch j = sj_session_epoch (cj_job c)"
      using assms(4) by (simp_all add: fence_row_def claim_fence_def Let_def)
    with q assms(5) show False by (auto simp: current_job_def epoch_at_def)
  qed
  with q show ?thesis by (auto simp: claim_matches_def list_ex_iff)
qed

theorem reset_fences_all_workers_witness:
  "\<not> claim_matches sc_claim 13 (fst (reset_session_epoch sc_host ''s'' ''epoch_fenced'' 13 sc_recorded))"
proof -
  have checks: "job_checks (ho_json sc_host) (cancel_update REpochFenced 13 sc_running)"
    by (simp add: job_checks_def cancel_update_def sc_row_defs sc_host_def length_between_def
        schema_reasons_def none_if_empty_def)
  obtain st' r where r: "reset_session_epoch sc_host ''s'' ''epoch_fenced'' 13 sc_recorded = (st', r)"
    by (cases "reset_session_epoch sc_host ''s'' ''epoch_fenced'' 13 sc_recorded")
  have "reason_or REpochFenced ''epoch_fenced'' = REpochFenced" by (simp add: reason_or_def reason_table_def)
  with r checks have "ep_accepted r" "ep_epoch r = 2"
    by (auto simp: reset_session_epoch_def Let_def ensure_epoch_def sc_recorded_tables sc_epoch_def
        checked_update_def epoch_answer_def)
  with reset_fences_all_workers [OF sc_reach_recorded r, of sc_claim 13] r
  show ?thesis by (simp add: sc_claim_def sc_dto_def job_dto_def sc_row_defs)
qed

end
